(* ===== verification/Prelude.thy ===== *)
theory Prelude imports Main "HOL-Library.Word" "HOL-Library.Monad_Syntax" begin

text \<open>
  What every theory of the development shares: the machine types of the code, byte ranges with
  the bounds test the parsers use, and the hint collections of the component proofs.

  \<^item> \<open>std::byte\<close>, \<open>std::uint16_t\<close>, \<open>std::uint32_t\<close>, \<open>std::uint64_t\<close> are words of that width. A
    \<open>std::size_t\<close> is a \<open>nat\<close>: every size the code adds up is below \<open>2 ^ 64\<close>, and the places where
    the code tests for a \<open>size_t\<close> overflow keep the test.
  \<^item> A \<open>std::span\<close> of bytes is a list. An access outside it is undefined behaviour in C++, so a
    checked access is \<open>None\<close> there and every parser lives in the option monad: a theorem that a
    parser is never \<open>None\<close> says that it never reads outside its input.
  \<^item> A refusal is the left side of a sum, inside that monad.
\<close>

unbundle bit_operations_syntax

section \<open>Machine types\<close>

type_synonym byte = "8 word"
type_synonym u16 = "16 word"
type_synonym u32 = "32 word"
type_synonym u64 = "64 word"
type_synonym bytes = "byte list"
type_synonym guest_address = u32

named_theorems byte_simps \<open>how the checked byte accesses evaluate inside their bounds\<close>
named_theorems codec_simps \<open>decoders applied to what the encoders store\<close>
named_theorems safe_reads \<open>bounds facts that make a checked read defined\<close>

section \<open>Checked accesses to a span of bytes\<close>

definition byte_at :: "bytes \<Rightarrow> nat \<Rightarrow> byte option" where
  "byte_at bs i = (if i < length bs then Some (bs ! i) else None)"

definition put_byte :: "bytes \<Rightarrow> nat \<Rightarrow> byte \<Rightarrow> bytes option" where
  "put_byte bs i b = (if i < length bs then Some (bs[i := b]) else None)"

lemma byte_at_Some [byte_simps]: "i < length bs \<Longrightarrow> byte_at bs i = Some (bs ! i)"
  by (simp add: byte_at_def)

lemma put_byte_Some [byte_simps]: "i < length bs \<Longrightarrow> put_byte bs i b = Some (bs[i := b])"
  by (simp add: put_byte_def)

lemma byte_at_eq_None: "byte_at bs i = None \<longleftrightarrow> length bs \<le> i"
  by (simp add: byte_at_def)

lemma put_byte_length: "put_byte bs i b = Some bs' \<Longrightarrow> length bs' = length bs"
  by (auto simp: put_byte_def split: if_splits)

text \<open>
  A computation over checked accesses is \<open>defined\<close> when every access it makes is inside its
  buffer. The rules below walk through a definition; what is left are the accesses themselves.
\<close>

definition defined :: "'a option \<Rightarrow> bool" where
  "defined m \<longleftrightarrow> m \<noteq> None"

lemma defined_cases [simp]: "defined (Some x)" "\<not> defined None"
  by (simp_all add: defined_def)

lemma defined_bind [simp]:
  "defined (m \<bind> f) \<longleftrightarrow> defined m \<and> (\<forall>x. m = Some x \<longrightarrow> defined (f x))"
  by (cases m) auto

lemma defined_if [simp]: "defined (if c then a else b) \<longleftrightarrow> (if c then defined a else defined b)"
  by simp

lemma defined_iff: "defined m \<longleftrightarrow> (\<exists>x. m = Some x)"
  by (simp add: defined_def)

lemma defined_byte_at [simp]: "defined (byte_at bs i) \<longleftrightarrow> i < length bs"
  by (simp add: byte_at_def)

lemma defined_put_byte [simp]: "defined (put_byte bs i b) \<longleftrightarrow> i < length bs"
  by (simp add: put_byte_def)

lemma bind_eq_SomeE:
  assumes "m \<bind> f = Some y"
  obtains x where "m = Some x" and "f x = Some y"
  using assms by (cases m) auto

text \<open>What a parser returns: \<open>None\<close> never, a refusal with its message, or a value.\<close>

type_synonym 'a parse = "(string + 'a) option"

text \<open>A parser that passes a refusal on succeeds exactly when its first part does.\<close>

lemma pass_refusal [simp]:
  "(case r of Inl e \<Rightarrow> Some (Inl e) | Inr x \<Rightarrow> f x) = Some (Inr y) \<longleftrightarrow>
   (\<exists>x. r = Inr x \<and> f x = Some (Inr y))"
  by (cases r) simp_all

text \<open>Copying a block of bytes over part of a buffer, as \<open>memcpy\<close> into it does.\<close>

definition overwrite :: "bytes \<Rightarrow> nat \<Rightarrow> bytes \<Rightarrow> bytes" where
  "overwrite bs off ys = take off bs @ ys @ drop (off + length ys) bs"

lemma length_overwrite [simp]:
  "off + length ys \<le> length bs \<Longrightarrow> length (overwrite bs off ys) = length bs"
  by (simp add: overwrite_def)

lemma overwrite_nth:
  "off + length ys \<le> length bs \<Longrightarrow> i < length bs \<Longrightarrow>
   overwrite bs off ys ! i =
     (if off \<le> i \<and> i < off + length ys then ys ! (i - off) else bs ! i)"
  by (auto simp: overwrite_def nth_append min_def)

text \<open>The same copy written as a loop over the bytes, each store checked.\<close>

fun put_bytes :: "bytes \<Rightarrow> nat \<Rightarrow> bytes \<Rightarrow> bytes option" where
  "put_bytes bs off [] = Some bs"
| "put_bytes bs off (y # ys) = do { bs \<leftarrow> put_byte bs off y; put_bytes bs (off + 1) ys }"

lemma put_bytes_eq [byte_simps]:
  "off + length ys \<le> length bs \<Longrightarrow> put_bytes bs off ys = Some (overwrite bs off ys)"
proof (induction ys arbitrary: bs off)
  case (Cons y ys)
  have "overwrite (bs[off := y]) (Suc off) ys = overwrite bs off (y # ys)"
    using Cons.prems
    by (auto simp: overwrite_nth nth_list_update nth_Cons' intro!: nth_equalityI)
  with Cons show ?case by (simp add: byte_simps)
qed (simp add: overwrite_def)

lemma defined_put_bytes [simp]:
  "defined (put_bytes bs off ys) \<longleftrightarrow> ys = [] \<or> off + length ys \<le> length bs"
  by (induction ys arbitrary: bs off) (auto simp: put_byte_def split: if_splits)

section \<open>Unsigned values\<close>

lemma unat_u32_less [simp]: "unat (w :: u32) < 4294967296"
  using unsigned_less [of w, where ?'a = nat] by simp

lemma unat_u16_less [simp]: "unat (w :: u16) < 65536"
  using unsigned_less [of w, where ?'a = nat] by simp

lemma unat_byte_less [simp]: "unat (w :: byte) < 256"
  using unsigned_less [of w, where ?'a = nat] by simp

lemma unat_word_of_nat_u32: "n < 4294967296 \<Longrightarrow> unat (word_of_nat n :: u32) = n"
  by (simp add: unsigned_of_nat take_bit_nat_def)

section \<open>A loop that returns early\<close>

text \<open>
  Many loops of the code refuse at the first element that fails a test. \<open>first_refusal check xs\<close>
  is what such a loop returns: the refusal of the first element that has one.
\<close>

fun first_refusal :: "('a \<Rightarrow> 'e option) \<Rightarrow> 'a list \<Rightarrow> 'e option" where
  "first_refusal check [] = None"
| "first_refusal check (x # xs) =
     (case check x of Some e \<Rightarrow> Some e | None \<Rightarrow> first_refusal check xs)"

lemma first_refusal_None: "first_refusal check xs = None \<longleftrightarrow> (\<forall>x\<in>set xs. check x = None)"
  by (induction xs) (auto split: option.splits)

lemma first_refusal_Some:
  "first_refusal check xs = Some e \<Longrightarrow>
   \<exists>i<length xs. check (xs ! i) = Some e \<and> (\<forall>j<i. check (xs ! j) = None)"
proof (induction xs)
  case (Cons x xs)
  show ?case
  proof (cases "check x")
    case None
    with Cons obtain i where i: "i < length xs" "check (xs ! i) = Some e"
        "\<forall>j<i. check (xs ! j) = None" by auto
    have "check ((x # xs) ! j) = None" if "j < Suc i" for j
      using that i(3) None by (cases j) auto
    with i show ?thesis by (intro exI [of _ "Suc i"]) auto
  next
    case (Some e')
    with Cons.prems show ?thesis by (intro exI [of _ 0]) auto
  qed
qed simp

text \<open>What a property that no refusal has says of the loop and of what follows it.\<close>

lemma first_refusal_case:
  assumes "\<And>x e. x \<in> set xs \<Longrightarrow> check x = Some e \<Longrightarrow> \<not> P e"
  shows "P (case first_refusal check xs of Some e \<Rightarrow> e | None \<Rightarrow> q) \<longleftrightarrow>
    (\<forall>x\<in>set xs. check x = None) \<and> P q"
proof (cases "first_refusal check xs")
  case None
  moreover from None have "\<forall>x\<in>set xs. check x = None" by (simp add: first_refusal_None)
  ultimately show ?thesis by simp
next
  case (Some e)
  then obtain x where "x \<in> set xs" "check x = Some e" by (metis first_refusal_Some nth_mem)
  with Some assms show ?thesis by fastforce
qed

lemma first_refusal_cong [fundef_cong]:
  "xs = ys \<Longrightarrow> (\<And>x. x \<in> set ys \<Longrightarrow> f x = g x) \<Longrightarrow> first_refusal f xs = first_refusal g ys"
  by (induction xs arbitrary: ys) (auto split: option.splits)

section \<open>Alignment\<close>

lemma and_mask_eq_0_iff:
  "(w :: 'a::len word) AND (2 ^ n - 1) = 0 \<longleftrightarrow> 2 ^ n dvd unat w"
proof -
  have "w AND (2 ^ n - 1) = take_bit n w"
    by (simp add: take_bit_eq_mask mask_eq_exp_minus_1 and.commute)
  moreover have "take_bit n w = 0 \<longleftrightarrow> take_bit n (unat w) = 0"
    by (metis unsigned_0 unsigned_take_bit_eq word_eq_iff_unsigned)
  ultimately show ?thesis by (simp add: take_bit_eq_mod dvd_eq_mod_eq_0)
qed

lemma and_3_eq_0_iff: "(w :: u32) AND 3 = 0 \<longleftrightarrow> 4 dvd unat w"
  using and_mask_eq_0_iff [of w 2] by simp

lemma and_65535_eq_0_iff: "(w :: u32) AND 65535 = 0 \<longleftrightarrow> 65536 dvd unat w"
  using and_mask_eq_0_iff [of w 16] by simp

end
