(* ===== verification/Module_Contract.thy ===== *)
theory Module_Contract imports Prelude "HOL-Library.Char_ord" "HOL-Library.List_Lexorder" begin

text \<open>
  The data a title hands over, \<open>include/x360port/module_contract.hpp\<close>: the sealed identity of an
  image, its code range, and its import manifest. A \<open>std::string_view\<close> is a \<open>string\<close>; its bytes
  are the codes of its characters, and its order is the library's lexicographic order on them, as
  \<open>std::char_traits\<close> compares characters as unsigned. The manifest is sorted by library and
  ordinal: those two form an \<open>import_key\<close>, an instance of \<open>linorder\<close>.
\<close>

type_synonym sha256_digest = bytes

datatype import_kind = Function | Variable

record image_identity =
  img_sha256 :: sha256_digest
  img_base :: guest_address
  img_size :: u32
  img_entry_point :: guest_address

record code_range =
  code_base :: guest_address
  code_size :: u32

record import_requirement =
  imp_kind :: import_kind
  imp_library :: string
  imp_ordinal :: u32
  imp_name :: string
  imp_address :: guest_address
  imp_record_address :: guest_address

record module_descriptor =
  desc_image :: image_identity
  desc_code :: code_range
  desc_import_count :: nat
  desc_import_manifest_sha256 :: sha256_digest

record guest_module =
  mod_descriptor :: module_descriptor
  mod_image_bytes :: bytes
  mod_import_manifest :: "import_requirement list"

definition guest_image_base_alignment :: u32 where
  "guest_image_base_alignment = 64 * 1024"

section \<open>Strings as bytes\<close>

definition byte_of_char :: "char \<Rightarrow> byte" where
  "byte_of_char c = word_of_nat (of_char c)"

definition string_bytes :: "string \<Rightarrow> bytes" where
  "string_bytes s = map byte_of_char s"

definition char_of_byte :: "byte \<Rightarrow> char" where
  "char_of_byte b = char_of (unat b)"

lemma char_of_byte_of_char [codec_simps]: "char_of_byte (byte_of_char c) = c"
  by (simp add: char_of_byte_def byte_of_char_def unat_of_nat take_bit_nat_def unsigned_of_nat)

lemma byte_of_char_inject [simp]: "byte_of_char c = byte_of_char d \<longleftrightarrow> c = d"
  by (metis char_of_byte_of_char)

lemma string_bytes_inject [simp]: "string_bytes s = string_bytes t \<longleftrightarrow> s = t"
  by (auto simp: string_bytes_def inj_def)

lemma length_string_bytes [simp]: "length (string_bytes s) = length s"
  by (simp add: string_bytes_def)

section \<open>Numbers as an output stream prints them\<close>

definition hex_digits :: string where
  "hex_digits = ''0123456789abcdef''"

fun hex_of :: "nat \<Rightarrow> string" where
  "hex_of n = (if n < 16 then [hex_digits ! n] else hex_of (n div 16) @ [hex_digits ! (n mod 16)])"

fun dec_of :: "nat \<Rightarrow> string" where
  "dec_of n = (if n < 10 then [hex_digits ! n] else dec_of (n div 10) @ [hex_digits ! (n mod 10)])"

declare hex_of.simps [simp del] dec_of.simps [simp del]

definition set_width :: "nat \<Rightarrow> string \<Rightarrow> string" where
  "set_width width s = replicate (width - length s) (CHR ''0'') @ s"

section \<open>The order of a manifest\<close>

datatype import_key = Import_Key (key_library: string) (key_ordinal: u32)

instantiation import_key :: linorder
begin

definition less_import_key :: "import_key \<Rightarrow> import_key \<Rightarrow> bool" where
  "less_import_key a b \<longleftrightarrow>
     (if key_library a \<noteq> key_library b then key_library a < key_library b
      else key_ordinal a < key_ordinal b)"

definition less_eq_import_key :: "import_key \<Rightarrow> import_key \<Rightarrow> bool" where
  "less_eq_import_key a b \<longleftrightarrow> a < b \<or> a = b"

instance
proof
  fix a b c :: import_key
  show less: "a < b \<longleftrightarrow> a \<le> b \<and> \<not> b \<le> a"
    by (cases a; cases b) (auto simp: less_import_key_def less_eq_import_key_def split: if_splits)
  show "a \<le> a" by (simp add: less_eq_import_key_def)
  show "a \<le> b \<Longrightarrow> b \<le> c \<Longrightarrow> a \<le> c"
    by (cases a; cases b; cases c)
      (auto simp: less_import_key_def less_eq_import_key_def split: if_splits)
  show "a \<le> b \<Longrightarrow> b \<le> a \<Longrightarrow> a = b"
    by (cases a; cases b) (auto simp: less_import_key_def less_eq_import_key_def split: if_splits)
  show "a \<le> b \<or> b \<le> a"
    by (cases a; cases b) (auto simp: less_import_key_def less_eq_import_key_def split: if_splits)
qed

end

definition import_key_of :: "import_requirement \<Rightarrow> import_key" where
  "import_key_of import = Import_Key (imp_library import) (imp_ordinal import)"

end
