(* ===== verification/Guest_Endian.thy ===== *)
theory Guest_Endian imports Prelude begin

text \<open>
  Scalars in byte buffers: \<open>src/guest_endian.hpp\<close> (the guest's big-endian scalars in service
  records), \<open>include/x360port/guest_endian.hpp\<close> (guest words read by the digest), and the byte
  readers of the two parsers, big-endian in \<open>src/xex_inspect.cpp\<close> and little-endian in
  \<open>src/pe_image.cpp\<close>. Both readers promise the same thing to the parser that uses them, the
  locale \<open>scalar_reader\<close>: a read is defined exactly inside the buffer. It is interpreted on each
  reader.
\<close>

section \<open>Words and their bytes\<close>

definition word_of_be :: "byte \<Rightarrow> byte \<Rightarrow> byte \<Rightarrow> byte \<Rightarrow> u32" where
  "word_of_be b0 b1 b2 b3 =
     push_bit 24 (ucast b0) OR push_bit 16 (ucast b1) OR push_bit 8 (ucast b2) OR ucast b3"

definition be_bytes32 :: "u32 \<Rightarrow> bytes" where
  "be_bytes32 v = [ucast (drop_bit 24 v), ucast (drop_bit 16 v), ucast (drop_bit 8 v), ucast v]"

definition be_bytes16 :: "u16 \<Rightarrow> bytes" where
  "be_bytes16 v = [ucast (drop_bit 8 v), ucast v]"

definition half_of_be :: "byte \<Rightarrow> byte \<Rightarrow> u16" where
  "half_of_be b0 b1 = push_bit 8 (ucast b0) OR ucast b1"

lemma length_be_bytes [simp]: "length (be_bytes32 v) = 4" "length (be_bytes16 h) = 2"
  by (simp_all add: be_bytes32_def be_bytes16_def)

lemma word_of_be_bytes [codec_simps]:
  "word_of_be (ucast (drop_bit 24 v)) (ucast (drop_bit 16 v)) (ucast (drop_bit 8 v)) (ucast v) = v"
proof (rule bit_word_eqI)
  fix n assume "n < LENGTH(32)"
  then show "bit (word_of_be (ucast (drop_bit 24 v)) (ucast (drop_bit 16 v))
      (ucast (drop_bit 8 v)) (ucast v)) n = bit v n"
    by (cases "n < 8"; cases "n < 16"; cases "n < 24")
      (auto simp: word_of_be_def bit_simps)
qed

lemma half_of_be_bytes [codec_simps]: "half_of_be (ucast (drop_bit 8 v)) (ucast v) = v"
proof (rule bit_word_eqI)
  fix n assume "n < LENGTH(16)"
  then show "bit (half_of_be (ucast (drop_bit 8 v)) (ucast v)) n = bit v n"
    by (cases "n < 8") (auto simp: half_of_be_def bit_simps)
qed

lemma be_bytes32_inject [simp]: "be_bytes32 v = be_bytes32 w \<longleftrightarrow> v = w"
proof
  let ?dec = "\<lambda>bs. word_of_be (bs ! 0) (bs ! 1) (bs ! 2) (bs ! 3)"
  have dec: "?dec (be_bytes32 x) = x" for x
    by (simp add: be_bytes32_def word_of_be_bytes)
  assume "be_bytes32 v = be_bytes32 w"
  then have "?dec (be_bytes32 v) = ?dec (be_bytes32 w)" by (rule arg_cong)
  then show "v = w" by (simp only: dec)
qed simp

lemma be_bytes16_inject [simp]: "be_bytes16 v = be_bytes16 w \<longleftrightarrow> v = w"
  by (metis be_bytes16_def list.inject half_of_be_bytes)

section \<open>The guest's big-endian scalars\<close>

text \<open>
  \<open>LoadGuestWord\<close> leaves its bounds to the caller, so it reads by position; the callers' lemmas
  carry the bound. The stores return the buffer, or \<open>None\<close> when they would write past its end.
\<close>

definition load_guest_word :: "bytes \<Rightarrow> nat \<Rightarrow> u32" where
  "load_guest_word bs offset =
     word_of_be (bs ! offset) (bs ! (offset + 1)) (bs ! (offset + 2)) (bs ! (offset + 3))"

definition store_be16 :: "bytes \<Rightarrow> nat \<Rightarrow> u16 \<Rightarrow> bytes option" where
  "store_be16 bs offset value = do {
     bs \<leftarrow> put_byte bs offset (ucast (drop_bit 8 value));
     put_byte bs (offset + 1) (ucast value) }"

definition store_be32 :: "bytes \<Rightarrow> nat \<Rightarrow> u32 \<Rightarrow> bytes option" where
  "store_be32 bs offset value = do {
     bs \<leftarrow> put_byte bs offset (ucast (drop_bit 24 value));
     bs \<leftarrow> put_byte bs (offset + 1) (ucast (drop_bit 16 value));
     bs \<leftarrow> put_byte bs (offset + 2) (ucast (drop_bit 8 value));
     put_byte bs (offset + 3) (ucast value) }"

definition load_be32 :: "bytes \<Rightarrow> nat \<Rightarrow> u32 option" where
  "load_be32 bs offset = do {
     b0 \<leftarrow> byte_at bs offset;
     b1 \<leftarrow> byte_at bs (offset + 1);
     b2 \<leftarrow> byte_at bs (offset + 2);
     b3 \<leftarrow> byte_at bs (offset + 3);
     Some (push_bit 24 (ucast b0) OR push_bit 16 (ucast b1) OR push_bit 8 (ucast b2) OR ucast b3) }"

definition to_guest_word :: "u32 \<Rightarrow> bytes option" where
  "to_guest_word value = store_be32 (replicate 4 0) 0 value"

definition from_guest_word :: "bytes \<Rightarrow> u32 option" where
  "from_guest_word bs = load_be32 bs 0"

lemma store_be32_eq [byte_simps]:
  "offset + 4 \<le> length bs \<Longrightarrow>
   store_be32 bs offset v = Some (overwrite bs offset (be_bytes32 v))"
  by (auto simp: store_be32_def byte_simps overwrite_nth be_bytes32_def nth_list_update
      less_Suc_eq numeral_eq_Suc nth_Cons split: nat.split intro!: nth_equalityI)

lemma store_be16_eq [byte_simps]:
  "offset + 2 \<le> length bs \<Longrightarrow>
   store_be16 bs offset v = Some (overwrite bs offset (be_bytes16 v))"
  by (auto simp: store_be16_def byte_simps overwrite_nth be_bytes16_def nth_list_update
      less_Suc_eq numeral_eq_Suc nth_Cons split: nat.split intro!: nth_equalityI)

lemma load_be32_eq [byte_simps]:
  "offset + 4 \<le> length bs \<Longrightarrow> load_be32 bs offset = Some (load_guest_word bs offset)"
  by (simp add: load_be32_def byte_simps load_guest_word_def word_of_be_def)

lemma load_be32_store_be32:
  assumes "offset + 4 \<le> length bs"
  shows "store_be32 bs offset v \<bind> (\<lambda>bs'. load_be32 bs' offset) = Some v"
  using assms
  by (simp add: byte_simps overwrite_nth load_guest_word_def be_bytes32_def word_of_be_bytes)

lemma to_guest_word_eq [byte_simps]: "to_guest_word v = Some (be_bytes32 v)"
  by (simp add: to_guest_word_def byte_simps overwrite_def)

lemma from_guest_word_eq [byte_simps]: "from_guest_word (be_bytes32 v) = Some v"
  by (simp add: from_guest_word_def byte_simps load_guest_word_def be_bytes32_def word_of_be_bytes)

section \<open>The parsers' readers\<close>

definition has_bytes :: "bytes \<Rightarrow> nat \<Rightarrow> nat \<Rightarrow> bool" where
  "has_bytes bs offset count \<longleftrightarrow> offset \<le> length bs \<and> count \<le> length bs - offset"

definition read_u16_be :: "bytes \<Rightarrow> nat \<Rightarrow> u16 option" where
  "read_u16_be bs offset = do {
     b0 \<leftarrow> byte_at bs offset;
     b1 \<leftarrow> byte_at bs (offset + 1);
     Some (push_bit 8 (ucast b0) OR ucast b1) }"

definition read_u32_be :: "bytes \<Rightarrow> nat \<Rightarrow> u32 option" where
  "read_u32_be bs offset = do {
     b0 \<leftarrow> byte_at bs offset;
     b1 \<leftarrow> byte_at bs (offset + 1);
     b2 \<leftarrow> byte_at bs (offset + 2);
     b3 \<leftarrow> byte_at bs (offset + 3);
     Some (push_bit 24 (ucast b0) OR push_bit 16 (ucast b1) OR push_bit 8 (ucast b2) OR ucast b3) }"

definition read_u16_le :: "bytes \<Rightarrow> nat \<Rightarrow> u16 option" where
  "read_u16_le bs offset = do {
     b0 \<leftarrow> byte_at bs offset;
     b1 \<leftarrow> byte_at bs (offset + 1);
     Some (ucast b0 OR push_bit 8 (ucast b1)) }"

definition read_u32_le :: "bytes \<Rightarrow> nat \<Rightarrow> u32 option" where
  "read_u32_le bs offset = do {
     b0 \<leftarrow> byte_at bs offset;
     b1 \<leftarrow> byte_at bs (offset + 1);
     b2 \<leftarrow> byte_at bs (offset + 2);
     b3 \<leftarrow> byte_at bs (offset + 3);
     Some (ucast b0 OR push_bit 8 (ucast b1) OR push_bit 16 (ucast b2) OR push_bit 24 (ucast b3)) }"

lemma has_bytes_iff: "has_bytes bs offset count \<longleftrightarrow> offset + count \<le> length bs"
  by (auto simp: has_bytes_def)

text \<open>
  What a parser relies on: a read is defined exactly when it stays inside the buffer, and it
  depends on nothing but the bytes it covers.
\<close>

locale scalar_reader =
  fixes read :: "bytes \<Rightarrow> nat \<Rightarrow> 'w option" and width :: nat
  assumes read_defined: "defined (read bs offset) \<longleftrightarrow> offset + width \<le> length bs"
    and read_local: "offset + width \<le> length bs \<Longrightarrow>
      take width (drop offset bs) = take width (drop offset' cs) \<Longrightarrow>
      offset' + width \<le> length cs \<Longrightarrow> read bs offset = read cs offset'"
begin

lemma read_inside:
  "has_bytes bs offset count \<Longrightarrow> i + width \<le> count \<Longrightarrow> defined (read bs (offset + i))"
  by (simp add: has_bytes_iff read_defined)

lemma read_at: "has_bytes bs offset count \<Longrightarrow> width \<le> count \<Longrightarrow> defined (read bs offset)"
  using read_inside [of bs offset count 0] by simp

lemma read_None: "read bs offset = None \<longleftrightarrow> length bs < offset + width"
  using read_defined [of bs offset] by (auto simp: defined_def)

lemma read_prefix:
  assumes "offset + width \<le> n" and "n \<le> length bs"
  shows "read (take n bs) offset = read bs offset"
  by (rule read_local) (use assms in \<open>simp_all add: drop_take min_def\<close>)

lemma read_overwrite_elsewhere:
  assumes "offset + width \<le> at \<or> at + length ys \<le> offset"
    and "at + length ys \<le> length bs" and "offset + width \<le> length bs"
  shows "read (overwrite bs at ys) offset = read bs offset"
proof (rule read_local)
  show "take width (drop offset (overwrite bs at ys)) = take width (drop offset bs)"
    using assms by (intro nth_equalityI) (auto simp: overwrite_nth)
qed (use assms in simp_all)

end

text \<open>A reader that decodes the bytes it covers keeps the contract.\<close>

lemma scalar_readerI:
  assumes read: "\<And>bs offset. read bs offset =
    (if offset + width \<le> length bs then Some (decode (take width (drop offset bs))) else None)"
  shows "scalar_reader read width"
  by unfold_locales (simp_all add: read)

lemma take_drop_nths:
  "offset + 2 \<le> length (bs :: bytes) \<Longrightarrow> take 2 (drop offset bs) = [bs ! offset, bs ! (offset + 1)]"
  "offset + 4 \<le> length bs \<Longrightarrow> take 4 (drop offset bs) =
     [bs ! offset, bs ! (offset + 1), bs ! (offset + 2), bs ! (offset + 3)]"
  by (auto simp: less_Suc_eq numeral_eq_Suc nth_Cons split: nat.split intro!: nth_equalityI)

interpretation xex16: scalar_reader read_u16_be 2
  by (rule scalar_readerI [where decode = "\<lambda>b. push_bit 8 (ucast (b ! 0)) OR ucast (b ! 1)"])
    (auto simp: read_u16_be_def byte_at_def take_drop_nths)

interpretation xex32: scalar_reader read_u32_be 4
  by (rule scalar_readerI [where decode = "\<lambda>b. word_of_be (b ! 0) (b ! 1) (b ! 2) (b ! 3)"])
    (auto simp: read_u32_be_def word_of_be_def byte_at_def take_drop_nths split: bind_splits)

interpretation pe16: scalar_reader read_u16_le 2
  by (rule scalar_readerI [where decode = "\<lambda>b. ucast (b ! 0) OR push_bit 8 (ucast (b ! 1))"])
    (auto simp: read_u16_le_def byte_at_def take_drop_nths split: bind_splits)

interpretation pe32: scalar_reader read_u32_le 4
  by (rule scalar_readerI [where decode = "\<lambda>b. ucast (b ! 0) OR push_bit 8 (ucast (b ! 1))
      OR push_bit 16 (ucast (b ! 2)) OR push_bit 24 (ucast (b ! 3))"])
    (auto simp: read_u32_le_def byte_at_def take_drop_nths split: bind_splits)

lemma load_be32_reader: "read_u32_be = load_be32"
  by (simp add: read_u32_be_def load_be32_def fun_eq_iff)

lemmas readers_defined [simp] =
  xex16.read_defined xex32.read_defined pe16.read_defined pe32.read_defined

end
