(* ===== verification/Xex_Imports.thy ===== *)
theory Xex_Imports imports Module_Contract Guest_Endian begin

text \<open>
  \<open>ParseImportLibraryNames\<close> of \<open>src/xex_imports.cpp\<close>: the string table of a XEX import descriptor,
  NUL-terminated names padded to four bytes. The parser reads only its table; on a table written by
  \<open>encode_names\<close> it returns the names that were written, without their directories.
\<close>

record import_library_table =
  tab_string_offset :: nat
  tab_string_size :: u32
  tab_library_count :: u32

definition xex_fail :: "string \<Rightarrow> 'a parse" where
  "xex_fail message = Some (Inl message)"

lemma defined_xex_fail [simp]: "defined (xex_fail message)"
  by (simp add: xex_fail_def)

lemma xex_fail_bind [simp]:
  "xex_fail message \<bind> (\<lambda>r. case r of Inl e \<Rightarrow> Some (Inl e) | Inr x \<Rightarrow> f x) = xex_fail message"
  by (simp add: xex_fail_def)

text \<open>\<open>std::find_if\<close> for a zero byte between two positions: the first one, or the limit.\<close>

function find_zero :: "bytes \<Rightarrow> nat \<Rightarrow> nat \<Rightarrow> nat option" where
  "find_zero bs index limit =
     (if index < limit
      then do { b \<leftarrow> byte_at bs index; if b = 0 then Some index else find_zero bs (index + 1) limit }
      else Some limit)"
  by pat_completeness auto
termination by (relation "measure (\<lambda>(bs, index, limit). limit - index)") auto

declare find_zero.simps [simp del]

definition read_c_string :: "bytes \<Rightarrow> nat \<Rightarrow> nat \<Rightarrow> string option" where
  "read_c_string bs offset limit =
     (if offset \<ge> limit then Some []
      else if limit > length bs then None
      else do {
        past \<leftarrow> find_zero bs offset limit;
        if past = limit then Some []
        else those (map (\<lambda>index. map_option char_of_byte (byte_at bs index)) [offset..<past]) })"

fun find_last_of :: "string \<Rightarrow> string \<Rightarrow> nat option" where
  "find_last_of chars [] = None"
| "find_last_of chars (c # cs) =
     (case find_last_of chars cs of
        Some i \<Rightarrow> Some (i + 1)
      | None \<Rightarrow> if c \<in> set chars then Some 0 else None)"

definition path_separators :: string where
  "path_separators = [CHR ''/'', CHR 0x5C]"

definition base_library_name :: "string \<Rightarrow> string" where
  "base_library_name name =
     (case find_last_of path_separators name of
        Some slash \<Rightarrow> drop (slash + 1) name
      | None \<Rightarrow> name)"

text \<open>The loop over the libraries: the names so far, and the cursor into the table.\<close>

fun library_names_loop :: "bytes \<Rightarrow> nat \<Rightarrow> nat \<Rightarrow> nat \<Rightarrow> string list \<Rightarrow> string list parse" where
  "library_names_loop header string_limit 0 cursor names = Some (Inr names)"
| "library_names_loop header string_limit (Suc count) cursor names = do {
     name \<leftarrow> read_c_string header cursor string_limit;
     if name = []
     then xex_fail ''XEX import-library string table has a missing or unterminated name''
     else let names = names @ [base_library_name name]; consumed = length name + 1 in
     if consumed > (2 ^ 64 - 1) - 3
     then xex_fail ''XEX import-library string table cursor overflowed''
     else let aligned = (consumed + 3) div 4 * 4 in
     if cursor > string_limit \<or> aligned > string_limit - cursor
     then xex_fail ''XEX import-library string table exceeds its declared size''
     else library_names_loop header string_limit count (cursor + aligned) names }"

definition parse_import_library_names :: "bytes \<Rightarrow> import_library_table \<Rightarrow> string list parse" where
  "parse_import_library_names header table =
     library_names_loop header (tab_string_offset table + unat (tab_string_size table))
       (unat (tab_library_count table)) (tab_string_offset table) []"

section \<open>The parser reads only its table\<close>

text \<open>The bytes of the table from a position on, and the ones before the first zero.\<close>

abbreviation window :: "bytes \<Rightarrow> nat \<Rightarrow> nat \<Rightarrow> bytes" where
  "window bs offset limit \<equiv> take (limit - offset) (drop offset bs)"

abbreviation before_zero :: "bytes \<Rightarrow> bytes" where
  "before_zero bs \<equiv> takeWhile (\<lambda>b. b \<noteq> 0) bs"

lemma find_zero_eq:
  "limit \<le> length bs \<Longrightarrow> index \<le> limit \<Longrightarrow>
   find_zero bs index limit = Some (index + length (before_zero (window bs index limit)))"
proof (induction "limit - index" arbitrary: index)
  case 0
  then show ?case by (simp add: find_zero.simps [of bs index])
next
  case (Suc n)
  then have less: "index < limit" and inside: "index < length bs" by simp_all
  have "window bs index limit = bs ! index # window bs (Suc index) limit"
    using less inside by (simp add: Cons_nth_drop_Suc [symmetric] take_Cons')
  moreover have "find_zero bs (Suc index) limit =
      Some (Suc index + length (before_zero (window bs (Suc index) limit)))"
    using Suc by (intro Suc.hyps) simp_all
  ultimately show ?case
    using less inside by (simp add: find_zero.simps [of bs index] byte_simps)
qed

lemma those_map_nth:
  "past \<le> length bs \<Longrightarrow>
   those (map (\<lambda>i. map_option f (byte_at bs i)) [offset..<past]) = Some (map f (window bs offset past))"
proof (induction "past - offset" arbitrary: offset)
  case (Suc n)
  then have "window bs offset past = bs ! offset # window bs (Suc offset) past"
    by (simp add: Cons_nth_drop_Suc [symmetric] take_Cons')
  with Suc show ?case by (simp add: upt_conv_Cons byte_simps)
qed simp

lemma takeWhile_take: "takeWhile P (take n xs) = take (length (takeWhile P (take n xs))) xs"
  by (induction xs arbitrary: n) (auto simp: take_Cons' )

lemma read_c_string_eq:
  assumes "limit \<le> length bs"
  shows "read_c_string bs offset limit = Some
    (let name = before_zero (window bs offset limit) in
     if length name = limit - offset then [] else map char_of_byte name)"
proof (cases "offset < limit")
  case True
  let ?w = "window bs offset limit" and ?k = "length (before_zero (window bs offset limit))"
  have "take ?k (drop offset bs) = before_zero ?w"
    by (rule takeWhile_take [symmetric])
  moreover have "offset + ?k \<le> length bs"
    using assms True length_takeWhile_le [of "\<lambda>b. b \<noteq> 0" ?w] by simp
  ultimately show ?thesis
    using True assms by (auto simp: read_c_string_def find_zero_eq those_map_nth Let_def)
qed (simp add: read_c_string_def)

lemma read_c_string_defined [safe_reads]:
  "limit \<le> length bs \<Longrightarrow> defined (read_c_string bs offset limit)"
  by (simp add: read_c_string_eq)

lemma library_names_loop_defined [safe_reads]:
  "string_limit \<le> length header \<Longrightarrow>
   defined (library_names_loop header string_limit count cursor names)"
  by (induction count arbitrary: cursor names) (simp_all add: safe_reads Let_def)

lemma parse_import_library_names_defined [safe_reads]:
  "tab_string_offset table + unat (tab_string_size table) \<le> length header \<Longrightarrow>
   defined (parse_import_library_names header table)"
  by (simp add: parse_import_library_names_def safe_reads)

lemma library_names_loop_length:
  "library_names_loop header limit count cursor names = Some (Inr result) \<Longrightarrow>
   length result = length names + count"
  by (induction count arbitrary: cursor names)
    (auto simp: Let_def xex_fail_def split: if_splits elim!: bind_eq_SomeE)

lemma parse_import_library_names_length:
  "parse_import_library_names header table = Some (Inr names) \<Longrightarrow>
   length names = unat (tab_library_count table)"
  by (auto simp: parse_import_library_names_def dest: library_names_loop_length)

section \<open>Reading back a written table\<close>

definition encode_name :: "string \<Rightarrow> bytes" where
  "encode_name name =
     string_bytes name @ replicate ((length name + 4) div 4 * 4 - length name) 0"

definition encode_names :: "string list \<Rightarrow> bytes" where
  "encode_names names = concat (map encode_name names)"

definition writable_name :: "string \<Rightarrow> bool" where
  "writable_name name \<longleftrightarrow> name \<noteq> [] \<and> CHR 0x00 \<notin> set name \<and> length name < 2 ^ 63"

lemma length_encode_name: "length (encode_name name) = (length name + 4) div 4 * 4"
  by (simp add: encode_name_def)

lemma byte_of_char_eq_0: "byte_of_char c = 0 \<longleftrightarrow> c = CHR 0x00"
proof -
  have "byte_of_char (CHR 0x00) = 0" by (simp add: byte_of_char_def)
  then show ?thesis by (metis byte_of_char_inject)
qed

lemma before_zero_encode_name:
  assumes "writable_name name"
  shows "before_zero (encode_name name @ rest) = string_bytes name"
proof -
  have "(length name + 4) div 4 * 4 - length name \<noteq> 0" by simp
  then obtain k where "(length name + 4) div 4 * 4 - length name = Suc k"
    using not0_implies_Suc by blast
  moreover have "b \<noteq> 0" if "b \<in> set (string_bytes name)" for b
    using assms that by (auto simp: string_bytes_def byte_of_char_eq_0 writable_name_def)
  ultimately show ?thesis
    by (simp add: encode_name_def)
qed

lemma map_char_string_bytes [codec_simps]: "map char_of_byte (string_bytes s) = s"
  by (simp add: string_bytes_def codec_simps comp_def)

lemma library_names_loop_encoded:
  assumes "header = before @ encode_names written @ rest" and "list_all writable_name written"
    and "limit = length before + length (encode_names written)" and "cursor = length before"
  shows "library_names_loop header limit (length written) cursor names =
    Some (Inr (names @ map base_library_name written))"
  using assms
proof (induction written arbitrary: before cursor names)
  case (Cons name more)
  have window: "window header cursor limit = encode_name name @ encode_names more"
    using Cons.prems by (simp add: encode_names_def)
  have "length name < (length name + 4) div 4 * 4" by simp
  then have read: "read_c_string header cursor limit = Some name"
    using Cons.prems window
    by (subst read_c_string_eq)
      (simp_all add: before_zero_encode_name codec_simps encode_names_def length_encode_name)
  have step: "library_names_loop header limit (length more) (cursor + length (encode_name name))
      (names @ [base_library_name name]) =
      Some (Inr ((names @ [base_library_name name]) @ map base_library_name more))"
    using Cons.prems by (intro Cons.IH [of "before @ encode_name name"]) (simp_all add: encode_names_def)
  show ?case
    using read step Cons.prems
    by (simp add: Let_def writable_name_def length_encode_name encode_names_def
        add.commute [of 4 "length name"])
qed (simp add: encode_names_def)

section \<open>Properties\<close>

text \<open>C7: a string table written for a list of names, wherever it lies in the header, parses back to
  those names without their directories.\<close>

theorem import_library_names_roundtrip:
  assumes "header = before @ encode_names written @ rest" and "list_all writable_name written"
    and "tab_string_offset table = length before"
    and "unat (tab_string_size table) = length (encode_names written)"
    and "unat (tab_library_count table) = length written"
  shows "parse_import_library_names header table = Some (Inr (map base_library_name written))"
  using library_names_loop_encoded [OF assms(1,2), of _ "length before" "[]"] assms(3-)
  by (simp add: parse_import_library_names_def)

theorem import_library_names_roundtrip_witness:
  "parse_import_library_names ([7] @ encode_names [''xam.xex'', ''d/xboxkrnl.exe''] @ [9])
     \<lparr>tab_string_offset = 1, tab_string_size = 24, tab_library_count = 2\<rparr>
   = Some (Inr [''xam.xex'', ''xboxkrnl.exe''])"
proof -
  have "map base_library_name [''xam.xex'', ''d/xboxkrnl.exe''] = [''xam.xex'', ''xboxkrnl.exe'']"
    by code_simp
  then show ?thesis
    using import_library_names_roundtrip [of "[7] @ encode_names [''xam.xex'', ''d/xboxkrnl.exe''] @ [9]"
        "[7]" "[''xam.xex'', ''d/xboxkrnl.exe'']" "[9]"
        "\<lparr>tab_string_offset = 1, tab_string_size = 24, tab_library_count = 2\<rparr>"]
    by (simp add: writable_name_def encode_names_def length_encode_name)
qed

end
