(* ===== verification/Digest.thy ===== *)
theory Digest imports Guest_Endian Module_Contract "HOL-Library.While_Combinator" begin

text \<open>
  \<open>src/digest.cpp\<close>: SHA-256 over a byte stream that holds one block, \<open>HashBytes\<close> of an image and
  \<open>HashImportManifest\<close> of an import manifest.

  The streaming code is the record \<open>sha256_stream\<close> with one operation per member function;
  \<open>Finish\<close> pads with a loop that the model keeps as \<open>while_option\<close>, so a digest is an option and
  that it is always produced is a theorem. The specification side is the standard's: the message
  schedule as a recursive sequence, the eight working variables as a tuple, and the padded message
  cut into blocks. The main results are that the stream computes the standard's digest of all the
  bytes it was given, however they were split, and that the manifest encoding is injective.
\<close>

section \<open>The stream\<close>

definition round_constants :: "u32 list" where
  "round_constants =
    [
     0x428A2F98, 0x71374491, 0xB5C0FBCF, 0xE9B5DBA5, 0x3956C25B, 0x59F111F1,
     0x923F82A4, 0xAB1C5ED5, 0xD807AA98, 0x12835B01, 0x243185BE, 0x550C7DC3,
     0x72BE5D74, 0x80DEB1FE, 0x9BDC06A7, 0xC19BF174, 0xE49B69C1, 0xEFBE4786,
     0x0FC19DC6, 0x240CA1CC, 0x2DE92C6F, 0x4A7484AA, 0x5CB0A9DC, 0x76F988DA,
     0x983E5152, 0xA831C66D, 0xB00327C8, 0xBF597FC7, 0xC6E00BF3, 0xD5A79147,
     0x06CA6351, 0x14292967, 0x27B70A85, 0x2E1B2138, 0x4D2C6DFC, 0x53380D13,
     0x650A7354, 0x766A0ABB, 0x81C2C92E, 0x92722C85, 0xA2BFE8A1, 0xA81A664B,
     0xC24B8B70, 0xC76C51A3, 0xD192E819, 0xD6990624, 0xF40E3585, 0x106AA070,
     0x19A4C116, 0x1E376C08, 0x2748774C, 0x34B0BCB5, 0x391C0CB3, 0x4ED8AA4A,
     0x5B9CCA4F, 0x682E6FF3, 0x748F82EE, 0x78A5636F, 0x84C87814, 0x8CC70208,
     0x90BEFFFA, 0xA4506CEB, 0xBEF9A3F7, 0xC67178F2
    ]"

definition initial_state :: "u32 list" where
  "initial_state =
    [0x6A09E667, 0xBB67AE85, 0x3C6EF372, 0xA54FF53A, 0x510E527F, 0x9B05688C, 0x1F83D9AB,
     0x5BE0CD19]"

record sha256_stream =
  sha_state :: "u32 list"
  sha_block :: bytes
  sha_block_size :: nat
  sha_total_bytes :: u64

definition new_stream :: sha256_stream where
  "new_stream = \<lparr>sha_state = initial_state, sha_block = replicate 64 0, sha_block_size = 0,
     sha_total_bytes = 0\<rparr>"

definition rotr32 :: "u32 \<Rightarrow> nat \<Rightarrow> u32" where
  "rotr32 w n = drop_bit n w OR push_bit (32 - n) w"

definition schedule_step :: "nat \<Rightarrow> u32 list \<Rightarrow> u32 list" where
  "schedule_step index words =
     (let sigma0 = rotr32 (words ! (index - 15)) 7 XOR rotr32 (words ! (index - 15)) 18
            XOR drop_bit 3 (words ! (index - 15));
          sigma1 = rotr32 (words ! (index - 2)) 17 XOR rotr32 (words ! (index - 2)) 19
            XOR drop_bit 10 (words ! (index - 2))
      in words[index := words ! (index - 16) + sigma0 + words ! (index - 7) + sigma1])"

definition message_words :: "bytes \<Rightarrow> u32 list" where
  "message_words block =
     fold schedule_step [16..<64]
       (fold (\<lambda>index words. words[index := load_guest_word block (index * 4)]) [0..<16]
         (replicate 64 0))"

definition shift_lanes :: "u32 list \<Rightarrow> u32 list" where
  "shift_lanes working = fold (\<lambda>lane w. w[lane := w ! (lane - 1)]) (rev [1..<8]) working"

definition round_step :: "u32 list \<Rightarrow> nat \<Rightarrow> u32 list \<Rightarrow> u32 list" where
  "round_step words index working =
     (let sum1 = rotr32 (working ! 4) 6 XOR rotr32 (working ! 4) 11 XOR rotr32 (working ! 4) 25;
          choice = (working ! 4 AND working ! 5) XOR (NOT (working ! 4) AND working ! 6);
          temporary1 = working ! 7 + sum1 + choice + round_constants ! index + words ! index;
          sum0 = rotr32 (working ! 0) 2 XOR rotr32 (working ! 0) 13 XOR rotr32 (working ! 0) 22;
          majority = (working ! 0 AND working ! 1) XOR (working ! 0 AND working ! 2)
            XOR (working ! 1 AND working ! 2);
          temporary2 = sum0 + majority;
          working = shift_lanes working;
          working = working[4 := working ! 4 + temporary1]
      in working[0 := temporary1 + temporary2])"

definition compress :: "sha256_stream \<Rightarrow> sha256_stream" where
  "compress s =
     (let words = message_words (sha_block s);
          working = fold (round_step words) [0..<64] (sha_state s)
      in s\<lparr>sha_state :=
           fold (\<lambda>index st. st[index := st ! index + working ! index]) [0..<8] (sha_state s)\<rparr>)"

definition update_byte :: "byte \<Rightarrow> sha256_stream \<Rightarrow> sha256_stream" where
  "update_byte value s =
     (let s = s\<lparr>sha_block := (sha_block s)[sha_block_size s := value],
                sha_block_size := sha_block_size s + 1\<rparr>
      in if sha_block_size s = length (sha_block s)
         then (compress s)\<lparr>sha_block_size := 0\<rparr> else s)"

definition update :: "bytes \<Rightarrow> sha256_stream \<Rightarrow> sha256_stream" where
  "update bs s =
     (let s = fold update_byte bs s
      in s\<lparr>sha_total_bytes := sha_total_bytes s + word_of_nat (length bs)\<rparr>)"

definition update_u32 :: "u32 \<Rightarrow> sha256_stream \<Rightarrow> sha256_stream" where
  "update_u32 value s =
     update [ucast (drop_bit 24 value), ucast (drop_bit 16 value), ucast (drop_bit 8 value),
       ucast value] s"

definition update_string :: "string \<Rightarrow> sha256_stream \<Rightarrow> sha256_stream" where
  "update_string value s =
     update (string_bytes value) (update_u32 (word_of_nat (length value)) s)"

definition length_offset :: nat where
  "length_offset = 56"

definition finish :: "sha256_stream \<Rightarrow> sha256_digest option" where
  "finish s = do {
     let bit_length = sha_total_bytes s * 8;
     s \<leftarrow> while_option (\<lambda>s. sha_block_size s \<noteq> length_offset) (update [0]) (update [0x80] s);
     let s = update (fold (\<lambda>index bs. bs[7 - index := ucast (drop_bit (index * 8) bit_length)])
       [0..<8] (replicate 8 0)) s;
     Some (concat (map (\<lambda>word. map (\<lambda>byte. ucast (drop_bit (24 - byte * 8) (sha_state s ! word)))
       [0..<4]) [0..<8])) }"

definition hash_bytes :: "bytes \<Rightarrow> sha256_digest option" where
  "hash_bytes bs = finish (update bs new_stream)"

fun import_kind_code :: "import_kind \<Rightarrow> u32" where
  "import_kind_code Function = 0"
| "import_kind_code Variable = 1"

definition update_import :: "import_requirement \<Rightarrow> sha256_stream \<Rightarrow> sha256_stream" where
  "update_import import s =
     update_u32 (imp_record_address import)
       (update_u32 (imp_address import)
         (update_string (imp_name import)
           (update_u32 (imp_ordinal import)
             (update_string (imp_library import)
               (update_u32 (import_kind_code (imp_kind import)) s)))))"

definition hash_import_manifest :: "import_requirement list \<Rightarrow> sha256_digest option" where
  "hash_import_manifest imports = finish (fold update_import imports new_stream)"

section \<open>The standard's digest\<close>

definition spec_ch :: "u32 \<Rightarrow> u32 \<Rightarrow> u32 \<Rightarrow> u32" where
  "spec_ch x y z = (x AND y) XOR (NOT x AND z)"

definition spec_maj :: "u32 \<Rightarrow> u32 \<Rightarrow> u32 \<Rightarrow> u32" where
  "spec_maj x y z = (x AND y) XOR (x AND z) XOR (y AND z)"

definition spec_rotations :: "nat \<Rightarrow> nat \<Rightarrow> nat \<Rightarrow> u32 \<Rightarrow> u32" where
  "spec_rotations i j k x = rotr32 x i XOR rotr32 x j XOR rotr32 x k"

definition spec_sigma :: "nat \<Rightarrow> nat \<Rightarrow> nat \<Rightarrow> u32 \<Rightarrow> u32" where
  "spec_sigma i j k x = rotr32 x i XOR rotr32 x j XOR drop_bit k x"

fun schedule_word :: "bytes \<Rightarrow> nat \<Rightarrow> u32" where
  "schedule_word block t =
     (if t < 16 then load_guest_word block (4 * t)
      else schedule_word block (t - 16) + spec_sigma 7 18 3 (schedule_word block (t - 15))
        + schedule_word block (t - 7) + spec_sigma 17 19 10 (schedule_word block (t - 2)))"

declare schedule_word.simps [simp del]

fun spec_round :: "u32 \<Rightarrow> u32 \<Rightarrow> u32 list \<Rightarrow> u32 list" where
  "spec_round kt wt [a, b, c, d, e, f, g, h] =
     (let t1 = h + spec_rotations 6 11 25 e + spec_ch e f g + kt + wt;
          t2 = spec_rotations 2 13 22 a + spec_maj a b c
      in [t1 + t2, a, b, c, d + t1, e, f, g])"
| "spec_round kt wt vs = vs"

definition spec_block :: "bytes \<Rightarrow> u32 list \<Rightarrow> u32 list" where
  "spec_block block st =
     map2 (+) st (fold (\<lambda>t. spec_round (round_constants ! t) (schedule_word block t)) [0..<64] st)"

definition message_blocks :: "bytes \<Rightarrow> bytes list" where
  "message_blocks m = map (\<lambda>i. take 64 (drop (64 * i) m)) [0..<length m div 64]"

definition be_bytes64 :: "u64 \<Rightarrow> bytes" where
  "be_bytes64 v = map (\<lambda>i. ucast (drop_bit (56 - 8 * i) v)) [0..<8]"

definition sha256_pad :: "bytes \<Rightarrow> bytes" where
  "sha256_pad m = m @ [0x80] @ replicate ((119 - length m mod 64) mod 64) 0
     @ be_bytes64 (word_of_nat (length m) * 8)"

definition sha256 :: "bytes \<Rightarrow> sha256_digest" where
  "sha256 m = concat (map be_bytes32 (fold spec_block (message_blocks (sha256_pad m)) initial_state))"

section \<open>One block\<close>

lemma length_schedule_step [simp]: "length (schedule_step t ws) = length ws"
  by (simp add: schedule_step_def Let_def)

lemma schedule_step_nth:
  "i < length ws \<Longrightarrow> schedule_step t ws ! i =
     (if i = t then ws ! (t - 16) + spec_sigma 7 18 3 (ws ! (t - 15)) + ws ! (t - 7)
        + spec_sigma 17 19 10 (ws ! (t - 2)) else ws ! i)"
  by (simp add: schedule_step_def Let_def spec_sigma_def nth_list_update)

lemma fold_schedule_steps:
  assumes "length ws = 64" and "\<forall>i<16. ws ! i = schedule_word block i" and "16 \<le> n" and "n \<le> 64"
  shows "length (fold schedule_step [16..<n] ws) = 64 \<and>
    (\<forall>i<n. fold schedule_step [16..<n] ws ! i = schedule_word block i)"
  using assms(3,4)
proof (induction n rule: nat_induct_at_least)
  case base
  then show ?case using assms by simp
next
  case (Suc n)
  let ?ws = "fold schedule_step [16..<n] ws"
  have IH: "length ?ws = 64" "\<And>i. i < n \<Longrightarrow> ?ws ! i = schedule_word block i"
    using Suc by auto
  have "schedule_step n ?ws ! i = schedule_word block i" if "i < Suc n" for i
    using that Suc.hyps Suc.prems IH schedule_word.simps [of block n]
    by (cases "i = n") (simp_all add: schedule_step_nth)
  with Suc.hyps IH show ?case by simp
qed

lemma fold_load_words:
  "n \<le> length ws \<Longrightarrow>
   length (fold (\<lambda>i ws. ws[i := load_guest_word block (i * 4)]) [0..<n] ws) = length ws \<and>
   (\<forall>i<n. fold (\<lambda>i ws. ws[i := load_guest_word block (i * 4)]) [0..<n] ws ! i =
      load_guest_word block (4 * i))"
  by (induction n) (auto simp: nth_list_update less_Suc_eq mult.commute)

lemma message_words_nth: "t < 64 \<Longrightarrow> message_words block ! t = schedule_word block t"
  using fold_schedule_steps [of "fold (\<lambda>i ws. ws[i := load_guest_word block (i * 4)]) [0..<16]
      (replicate 64 0)" block 64] fold_load_words [of 16 "replicate 64 0" block]
  by (simp add: message_words_def schedule_word.simps)

lemma length_8_cases:
  assumes "length ws = 8"
  obtains a b c d e f g h where "ws = [a, b, c, d, e, f, g, h]"
  using assms by (auto simp: numeral_eq_Suc length_Suc_conv)

lemma length_spec_round [simp]: "length (spec_round kt wt vs) = length vs"
  by (cases "(kt, wt, vs)" rule: spec_round.cases) (simp_all add: Let_def)

lemma length_spec_rounds:
  "length st = n \<Longrightarrow> length (fold (\<lambda>t. spec_round (ks t) (ws t)) ts st) = n"
  by (induction ts arbitrary: st) simp_all

lemma shift_lanes_8: "shift_lanes [a, b, c, d, e, f, g, h] = [a, a, b, c, d, e, f, g]"
  by (simp add: shift_lanes_def upt_conv_Cons)

lemma round_step_eq:
  assumes "length ws = 8"
  shows "round_step words t ws = spec_round (round_constants ! t) (words ! t) ws"
proof -
  obtain a b c d e f g h where "ws = [a, b, c, d, e, f, g, h]"
    using assms by (rule length_8_cases)
  then show ?thesis
    by (simp add: round_step_def Let_def shift_lanes_8 spec_rotations_def spec_ch_def
        spec_maj_def)
qed

lemma fold_round_steps:
  assumes "length ws = 8" and "n \<le> 64"
  shows "fold (round_step (message_words block)) [0..<n] ws =
    fold (\<lambda>t. spec_round (round_constants ! t) (schedule_word block t)) [0..<n] ws"
  using assms(2)
  by (induction n)
    (use assms(1) in \<open>simp_all add: round_step_eq message_words_nth length_spec_rounds\<close>)

lemma fold_add_lanes:
  "length st = 8 \<Longrightarrow> length ws = 8 \<Longrightarrow>
   fold (\<lambda>i st. st[i := st ! i + ws ! i]) [0..<8] st = map2 (+) st ws"
  by (elim length_8_cases) (simp add: upt_conv_Cons)

lemma compress_state:
  "length (sha_state s) = 8 \<Longrightarrow> sha_state (compress s) = spec_block (sha_block s) (sha_state s)"
  using fold_round_steps [of "sha_state s" 64 "sha_block s"]
  by (simp add: compress_def Let_def fold_add_lanes spec_block_def length_spec_rounds)

lemma compress_frame [simp]:
  "sha_block (compress s) = sha_block s" "sha_block_size (compress s) = sha_block_size s"
  "sha_total_bytes (compress s) = sha_total_bytes s"
  by (simp_all add: compress_def Let_def)

lemma length_spec_block [simp]: "length (spec_block block st) = length st"
  by (simp add: spec_block_def length_spec_rounds)

section \<open>The stream computes the standard's digest\<close>

text \<open>
  What the stream holds after the bytes \<open>m\<close>: the complete blocks are compressed into the state, the
  rest of \<open>m\<close> is the prefix of the block.
\<close>

definition stream_holds :: "sha256_stream \<Rightarrow> bytes \<Rightarrow> bool" where
  "stream_holds s m \<longleftrightarrow>
     length (sha_block s) = 64 \<and> length (sha_state s) = 8
     \<and> sha_block_size s = length m mod 64
     \<and> sha_state s = fold spec_block (message_blocks m) initial_state
     \<and> take (length m mod 64) (sha_block s) = drop (64 * (length m div 64)) m"

lemma length_initial_state [simp]: "length initial_state = 8"
  by (simp add: initial_state_def)

lemma length_spec_blocks [simp]: "length (fold spec_block bs st) = length st"
  by (induction bs arbitrary: st) simp_all

lemma message_blocks_append:
  "message_blocks (m @ m') ! i = message_blocks m ! i" if "i < length m div 64"
proof -
  have "64 * i + 64 \<le> length m" using that by linarith
  then show ?thesis using that by (simp add: message_blocks_def div_le_mono less_le_trans
      take_drop)
qed

lemma message_blocks_snoc:
  "message_blocks (m @ [b]) =
     (if Suc (length m) mod 64 = 0 then message_blocks m @ [drop (64 * (length m div 64)) m @ [b]]
      else message_blocks m)"
proof (cases "Suc (length m) mod 64 = 0")
  case True
  then have n: "Suc (length m) div 64 = Suc (length m div 64)" and "length m mod 64 = 63"
    by (auto simp: div_Suc mod_Suc split: if_splits)
  then have full: "64 * (length m div 64) + 63 = length m"
    using mult_div_mod_eq [of 64 "length m"] by simp
  show ?thesis
  proof (rule nth_equalityI)
    show "length (message_blocks (m @ [b])) = length (if Suc (length m) mod 64 = 0
        then message_blocks m @ [drop (64 * (length m div 64)) m @ [b]] else message_blocks m)"
      using True n by (simp add: message_blocks_def)
  next
    fix i assume "i < length (message_blocks (m @ [b]))"
    then have "i < Suc (length m div 64)" using n by (simp add: message_blocks_def)
    then consider "i < length m div 64" | "i = length m div 64" by linarith
    then show "message_blocks (m @ [b]) ! i = (if Suc (length m) mod 64 = 0
        then message_blocks m @ [drop (64 * (length m div 64)) m @ [b]] else message_blocks m) ! i"
    proof cases
      case 1
      then show ?thesis using True message_blocks_append [of i m "[b]"]
        by (simp add: nth_append message_blocks_def)
    next
      case 2
      then show ?thesis using True n full
        by (simp add: message_blocks_def nth_append del: upt_Suc)
    qed
  qed
next
  case False
  then have n: "Suc (length m) div 64 = length m div 64" by (simp add: div_Suc)
  show ?thesis
    by (rule nth_equalityI) (use False n message_blocks_append [of _ m "[b]"] in
        \<open>auto simp: message_blocks_def\<close>)
qed

lemma new_stream_holds: "stream_holds new_stream []"
  by (simp add: stream_holds_def new_stream_def message_blocks_def initial_state_def)

lemma take_Suc_update: "i < length xs \<Longrightarrow> take (Suc i) (xs[i := x]) = take i xs @ [x]"
  by (simp add: take_Suc_conv_app_nth)

lemma update_byte_holds:
  assumes "stream_holds s m"
  shows "stream_holds (update_byte b s) (m @ [b])"
proof -
  let ?k = "length m mod 64"
  have len: "length (sha_block s) = 64" "length (sha_state s) = 8" and k: "sha_block_size s = ?k"
    and pre: "take ?k (sha_block s) = drop (64 * (length m div 64)) m"
    and st: "sha_state s = fold spec_block (message_blocks m) initial_state"
    using assms by (simp_all add: stream_holds_def)
  have less: "?k < 64" by simp
  have pre': "take (Suc ?k) ((sha_block s)[?k := b]) = drop (64 * (length m div 64)) m @ [b]"
    using take_Suc_update [of ?k "sha_block s" b] len less pre by simp
  show ?thesis
  proof (cases "Suc (length m) mod 64 = 0")
    case True
    then have "?k = 63" and "Suc (length m) div 64 = Suc (length m div 64)"
      by (auto simp: mod_Suc div_Suc split: if_splits)
    moreover from this have "length m = 64 * (length m div 64) + 63"
      using mult_div_mod_eq [of 64 "length m"] by simp
    ultimately show ?thesis using True len k st pre'
      by (simp add: stream_holds_def update_byte_def Let_def compress_state message_blocks_snoc)
  next
    case False
    then have k': "Suc (length m) mod 64 = Suc ?k" "Suc ?k < 64" "Suc (length m) div 64 = length m div 64"
      by (auto simp: div_Suc mod_Suc split: if_splits)
    have "64 * (length m div 64) \<le> length m" by simp
    with False k' show ?thesis using len k st pre'
      by (simp add: stream_holds_def update_byte_def Let_def message_blocks_snoc)
  qed
qed

lemma fold_update_byte_holds:
  "stream_holds s m \<Longrightarrow> stream_holds (fold update_byte bs s) (m @ bs)"
proof (induction bs arbitrary: s m)
  case (Cons b bs)
  then show ?case using Cons.IH [of "update_byte b s" "m @ [b]"] update_byte_holds by simp
qed simp

lemma stream_holds_total [simp]:
  "stream_holds (s\<lparr>sha_total_bytes := t\<rparr>) m = stream_holds s m"
  by (simp add: stream_holds_def)

lemma update_holds: "stream_holds s m \<Longrightarrow> stream_holds (update bs s) (m @ bs)"
  by (simp add: update_def Let_def fold_update_byte_holds)

lemma update_byte_total [simp]: "sha_total_bytes (update_byte b s) = sha_total_bytes s"
  by (simp add: update_byte_def Let_def)

lemma fold_update_byte_total [simp]: "sha_total_bytes (fold update_byte bs s) = sha_total_bytes s"
  by (induction bs arbitrary: s) simp_all

lemma update_total [simp]:
  "sha_total_bytes (update bs s) = sha_total_bytes s + word_of_nat (length bs)"
  by (simp add: update_def Let_def)

lemma padding_not_done:
  assumes "(m + Suc n) mod 64 = 56" and "Suc n < 64"
  shows "m mod 64 \<noteq> (56 :: nat)"
proof
  assume "m mod 64 = 56"
  with assms(1) have "(56 + Suc n) mod 64 = 56" by (metis mod_add_left_eq)
  with assms(2) show False by (cases "n < 7") (auto simp: mod_if split: if_splits)
qed

lemma padding_loop:
  assumes "stream_holds s m" and "(length m + n) mod 64 = 56" and "n < 64"
  shows "\<exists>s'. while_option (\<lambda>s. sha_block_size s \<noteq> length_offset) (update [0]) s = Some s' \<and>
    stream_holds s' (m @ replicate n 0)"
  using assms
proof (induction n arbitrary: s m)
  case 0
  then have "sha_block_size s = length_offset" by (simp add: stream_holds_def length_offset_def)
  with 0 show ?case by (subst while_option_unfold) simp
next
  case (Suc n)
  have guard: "sha_block_size s \<noteq> length_offset"
    using Suc.prems padding_not_done [of "length m" n]
    by (simp add: stream_holds_def length_offset_def)
  have "stream_holds (update [0] s) (m @ [0])" using Suc.prems(1) by (rule update_holds)
  from Suc.IH [OF this] Suc.prems obtain s' where
    "while_option (\<lambda>s. sha_block_size s \<noteq> length_offset) (update [0]) (update [0] s) = Some s'"
    "stream_holds s' (m @ replicate (Suc n) 0)" by auto
  with guard show ?case by (subst while_option_unfold) simp
qed

lemma padding_length: "(Suc n + (119 - n mod 64) mod 64) mod 64 = (56 :: nat)"
proof -
  let ?r = "n mod 64"
  have "(Suc ?r + (119 - ?r) mod 64) mod 64 = 56"
    by (cases "?r \<le> 55") (simp_all add: le_mod_geq)
  then show ?thesis by (metis mod_Suc_eq mod_add_left_eq)
qed

lemma length_bytes_eq:
  "fold (\<lambda>i bs. bs[7 - i := ucast (drop_bit (i * 8) v)]) [0..<8] (replicate 8 0) = be_bytes64 v"
  by (simp add: be_bytes64_def upt_conv_Cons numeral_eq_Suc)

lemma digest_bytes_eq:
  assumes "length st = 8"
  shows "concat (map (\<lambda>w. map (\<lambda>b. ucast (drop_bit (24 - b * 8) (st ! w))) [0..<4]) [0..<8]) =
    concat (map be_bytes32 st)"
  using assms by (rule length_8_cases) (simp add: be_bytes32_def upt_conv_Cons)

lemma length_be_bytes64 [simp]: "length (be_bytes64 v) = 8"
  by (simp add: be_bytes64_def)

lemma finish_holds:
  assumes "stream_holds s m" and "sha_total_bytes s = word_of_nat (length m)"
  shows "finish s = Some (sha256 m)"
proof -
  let ?len = "be_bytes64 (word_of_nat (length m) * 8)"
  have "stream_holds (update [0x80] s) (m @ [0x80])" using assms(1) by (rule update_holds)
  from padding_loop [OF this, of "(119 - length m mod 64) mod 64"] padding_length [of "length m"]
  obtain s' where
    loop: "while_option (\<lambda>s. sha_block_size s \<noteq> length_offset) (update [0]) (update [0x80] s) = Some s'"
    and s': "stream_holds s' ((m @ [0x80]) @ replicate ((119 - length m mod 64) mod 64) 0)"
    by auto
  from update_holds [OF s', of ?len] have "stream_holds (update ?len s') (sha256_pad m)"
    by (simp add: sha256_pad_def)
  with loop assms(2) show ?thesis
    by (simp add: finish_def length_bytes_eq stream_holds_def sha256_def
        digest_bytes_eq [of "fold spec_block (message_blocks (sha256_pad m)) initial_state"])
qed

lemma hash_bytes_eq: "hash_bytes bs = Some (sha256 bs)"
  using update_holds [OF new_stream_holds, of bs]
  by (simp add: hash_bytes_def finish_holds new_stream_def)

section \<open>Splitting, and the manifest encoding\<close>

text \<open>
  The stream sees only the concatenation of what it is given, so \<open>HashImportManifest\<close> is the digest
  of the manifest's encoding: for each import its kind, library, ordinal, name and two addresses,
  strings prefixed with their length. Each encoding determines its import when strings are shorter
  than \<open>2 ^ 32\<close>, the bound \<open>ValidateModule\<close> checks.
\<close>

definition encode_string :: "string \<Rightarrow> bytes" where
  "encode_string s = be_bytes32 (word_of_nat (length s)) @ string_bytes s"

definition encode_import :: "import_requirement \<Rightarrow> bytes" where
  "encode_import import =
     be_bytes32 (import_kind_code (imp_kind import)) @ encode_string (imp_library import)
     @ be_bytes32 (imp_ordinal import) @ encode_string (imp_name import)
     @ be_bytes32 (imp_address import) @ be_bytes32 (imp_record_address import)"

definition encode_manifest :: "import_requirement list \<Rightarrow> bytes" where
  "encode_manifest imports = concat (map encode_import imports)"

definition encodable :: "import_requirement \<Rightarrow> bool" where
  "encodable import \<longleftrightarrow> length (imp_library import) < 2 ^ 32 \<and> length (imp_name import) < 2 ^ 32"

lemma update_append: "update (xs @ ys) s = update ys (update xs s)"
proof -
  have "fold update_byte ys (s\<lparr>sha_total_bytes := t\<rparr>) =
      (fold update_byte ys s)\<lparr>sha_total_bytes := t\<rparr>" for ys t and s :: sha256_stream
  proof (induction ys arbitrary: s)
    case (Cons y ys)
    have "update_byte y (s\<lparr>sha_total_bytes := t\<rparr>) = (update_byte y s)\<lparr>sha_total_bytes := t\<rparr>"
      by (simp add: update_byte_def compress_def Let_def)
    with Cons show ?case by simp
  qed simp
  then show ?thesis by (simp add: update_def Let_def)
qed

lemma update_u32_eq: "update_u32 v s = update (be_bytes32 v) s"
  by (simp add: update_u32_def be_bytes32_def)

lemma update_string_eq: "update_string v s = update (encode_string v) s"
  by (simp add: update_string_def encode_string_def update_u32_eq update_append)

lemma update_import_eq: "update_import i s = update (encode_import i) s"
  by (simp add: update_import_def encode_import_def update_u32_eq update_string_eq update_append)

lemma update_Nil [simp]: "update [] s = s"
  by (simp add: update_def Let_def)

lemma fold_update_imports: "fold update_import is s = update (encode_manifest is) s"
  by (induction "is" arbitrary: s)
    (simp_all add: encode_manifest_def update_import_eq update_append)

lemma hash_import_manifest_eq: "hash_import_manifest is = Some (sha256 (encode_manifest is))"
  using hash_bytes_eq [of "encode_manifest is"]
  by (simp add: hash_import_manifest_def fold_update_imports hash_bytes_def)

lemma import_kind_code_inject [simp]: "import_kind_code k = import_kind_code l \<longleftrightarrow> k = l"
  by (cases k; cases l) simp_all

lemma word_of_nat_length_inject:
  assumes "word_of_nat m = (word_of_nat n :: u32)" and "m < 2 ^ 32" and "n < 2 ^ 32"
  shows "m = n"
  using arg_cong [OF assms(1), of unat] assms(2,3) by (simp add: unat_of_nat take_bit_nat_def)

lemma encode_string_append:
  assumes "encode_string s @ xs = encode_string t @ ys" and "length s < 2 ^ 32" and "length t < 2 ^ 32"
  shows "s = t \<and> xs = ys"
proof -
  have "word_of_nat (length s) = (word_of_nat (length t) :: u32)"
    and rest: "string_bytes s @ xs = string_bytes t @ ys"
    using assms(1) by (simp_all add: encode_string_def)
  then have "length s = length t" using assms(2,3) by (blast intro: word_of_nat_length_inject)
  with rest show ?thesis by simp
qed

lemma encode_import_append:
  assumes "encode_import i @ xs = encode_import j @ ys" and "encodable i" and "encodable j"
  shows "i = j \<and> xs = ys"
  using assms
  by (cases i; cases j)
    (auto simp: encode_import_def encodable_def dest!: encode_string_append)

lemma encode_import_not_Nil [simp]: "encode_import i \<noteq> []" "[] \<noteq> encode_import i"
  by (simp_all add: encode_import_def be_bytes32_def)

lemma encode_manifest_inject:
  assumes "encode_manifest is = encode_manifest js" and "list_all encodable is" and "list_all encodable js"
  shows "is = js"
  using assms
proof (induction "is" arbitrary: js)
  case Nil
  then show ?case by (cases js) (simp_all add: encode_manifest_def)
next
  case (Cons i "is")
  then obtain j js' where js: "js = j # js'" by (cases js) (simp_all add: encode_manifest_def)
  with Cons.prems have "i = j \<and> encode_manifest is = encode_manifest js'"
    by (intro encode_import_append) (simp_all add: encode_manifest_def)
  with Cons js show ?case by simp
qed

lemma length_sha256 [simp]: "length (sha256 m) = 32"
proof -
  let ?st = "fold spec_block (message_blocks (sha256_pad m)) initial_state"
  have "length ?st = 8" by simp
  then show ?thesis unfolding sha256_def by (rule length_8_cases) simp
qed

section \<open>Properties\<close>

text \<open>C3: \<open>HashBytes\<close> computes SHA-256. The streaming hasher, with its one block buffer, its
  in-place message schedule and its padding loop, returns (the loop ends) the digest the standard's
  definition gives for the padded message.\<close>

theorem hash_bytes_is_sha256: "hash_bytes bs = Some (sha256 bs) \<and> length (sha256 bs) = 32"
  by (simp add: hash_bytes_eq)

text \<open>C4: \<open>HashImportManifest\<close> is the SHA-256 of an encoding of the manifest, and the encoding is
  injective on manifests whose strings have 32-bit lengths: two manifests have the same preimage
  only if they are the same, so the length prefixes keep adjacent strings apart.\<close>

theorem import_manifest_digest_seals:
  assumes "list_all encodable imports" and "list_all encodable others"
  shows "hash_import_manifest imports = Some (sha256 (encode_manifest imports))
    \<and> (encode_manifest imports = encode_manifest others \<longleftrightarrow> imports = others)"
  using encode_manifest_inject assms by (auto simp: hash_import_manifest_eq)

definition sample_import :: "string \<Rightarrow> string \<Rightarrow> import_requirement" where
  "sample_import library name =
     \<lparr>imp_kind = Function, imp_library = library, imp_ordinal = 1, imp_name = name,
      imp_address = 0x82000000, imp_record_address = 0x82000100\<rparr>"

text \<open>The strings run together in both manifests below; their encodings still differ.\<close>

theorem import_manifest_digest_seals_witness:
  "encode_manifest [sample_import ''ab'' ''c''] \<noteq> encode_manifest [sample_import ''a'' ''bc'']"
  using import_manifest_digest_seals
    [of "[sample_import ''ab'' ''c'']" "[sample_import ''a'' ''bc'']"]
  by (simp add: sample_import_def encodable_def)

end
