(* ===== verification/Module_Validation.thy ===== *)
theory Module_Validation imports Digest begin

text \<open>
  The fail-closed validator: \<open>ValidateModule\<close> and \<open>ValidateImports\<close> of
  \<open>src/module_validation.cpp\<close>, the result type and the bindings of
  \<open>include/x360port/validation.hpp\<close>, and the names of \<open>src/validation.cpp\<close>. The functions keep
  the code's order of tests, so they return the code's first refusal; \<open>well_formed_module\<close> states
  what an accepted module satisfies without any order, and the main lemma is that the two agree.
\<close>

section \<open>Results and bindings\<close>

datatype validation_error =
  NoValidationError | InvalidImageDigest | ImageSizeMismatch | ImageBaseMisaligned
| ImageAddressOverflow | ImageDigestMismatch | InvalidCodeRange | EntryPointOutsideCode
| ImportCountMismatch | InvalidImport | ImportOrdinalOutOfRange | ImportAddressConflict
| UnsortedImportManifest | ImportManifestDigestMismatch | ImportBindingCountMismatch
| ImportBindingMismatch | ImportBindingKindMismatch | ImportBindingCallbackMismatch
| ValidationErrorCount

record validation_result =
  val_error :: validation_error
  val_detail :: string

definition accepted :: "validation_result \<Rightarrow> bool" where
  "accepted r \<longleftrightarrow> val_error r = NoValidationError"

definition no_refusal :: validation_result where
  "no_refusal = \<lparr>val_error = NoValidationError, val_detail = []\<rparr>"

definition refuse :: "validation_error \<Rightarrow> string \<Rightarrow> validation_result" where
  "refuse e detail = \<lparr>val_error = e, val_detail = detail\<rparr>"

text \<open>A binding: the handler, resolver and context pointers are options, \<open>None\<close> for null.\<close>

record ('handler, 'resolver, 'context) import_binding =
  bind_library :: string
  bind_ordinal :: u32
  bind_kind :: import_kind
  bind_function_handler :: "'handler option"
  bind_function_context :: "'context option"
  bind_variable_resolver :: "'resolver option"
  bind_variable_context :: "'context option"

section \<open>ValidateModule\<close>

definition is_inside :: "guest_address \<Rightarrow> code_range \<Rightarrow> bool" where
  "is_inside address code =
     (let first = unat (code_base code); past = first + unat (code_size code)
      in unat address \<ge> first \<and> unat address < past)"

definition char_within :: "char \<Rightarrow> char \<Rightarrow> char \<Rightarrow> bool" where
  "char_within low high c = (low \<le> c \<and> c \<le> high)"

definition is_portable_key_character :: "char \<Rightarrow> bool" where
  "is_portable_key_character c =
     (let ascii_alphanumeric = char_within (CHR ''a'') (CHR ''z'') c
        \<or> char_within (CHR ''A'') (CHR ''Z'') c \<or> char_within (CHR ''0'') (CHR ''9'') c
      in ascii_alphanumeric \<or> c \<in> set ''_-.'')"

definition is_valid_library :: "string \<Rightarrow> bool" where
  "is_valid_library library = (if library = [] then False else list_all is_portable_key_character library)"

definition is_valid_import_name :: "string \<Rightarrow> bool" where
  "is_valid_import_name name = list_all (char_within (CHR 0x21) (CHR 0x7E)) name"

definition import_less :: "import_requirement \<Rightarrow> import_requirement \<Rightarrow> bool" where
  "import_less left right =
     (if imp_library left \<noteq> imp_library right then imp_library left < imp_library right
      else imp_ordinal left < imp_ordinal right)"

definition image_end :: "image_identity \<Rightarrow> nat" where
  "image_end img = unat (img_base img) + unat (img_size img)"

definition code_end :: "code_range \<Rightarrow> nat" where
  "code_end code = unat (code_base code) + unat (code_size code)"

definition import_addresses_valid :: "module_descriptor \<Rightarrow> import_requirement \<Rightarrow> bool" where
  "import_addresses_valid d import =
     (let record_inside_image = imp_record_address import \<ge> img_base (desc_image d)
            \<and> unat (imp_record_address import) + 4 \<le> image_end (desc_image d);
          function_address = imp_kind import = Function \<and> is_inside (imp_address import) (desc_code d)
            \<and> unat (imp_address import) + 16 \<le> code_end (desc_code d);
          variable_address = imp_kind import = Variable
            \<and> imp_address import = imp_record_address import
            \<and> imp_address import \<ge> img_base (desc_image d)
            \<and> unat (imp_address import) < image_end (desc_image d)
      in record_inside_image \<and> (function_address \<or> variable_address))"

definition check_import ::
  "module_descriptor \<Rightarrow> import_requirement list \<Rightarrow> nat \<Rightarrow> validation_result option" where
  "check_import d imports index =
     (let import = imports ! index in
      if imp_ordinal import > 65535
      then Some (refuse ImportOrdinalOutOfRange
        ''import ordinal does not fit Xenia's export identity'')
      else if list_ex (\<lambda>previous. imp_address (imports ! previous) = imp_address import
             \<or> imp_record_address (imports ! previous) = imp_record_address import) [0..<index]
      then Some (refuse ImportAddressConflict
        ''multiple imports claim the same guest or record address'')
      else if length (imp_library import) > 2 ^ 32 - 1 \<or> length (imp_name import) > 2 ^ 32 - 1
        \<or> \<not> is_valid_library (imp_library import) \<or> imp_ordinal import = 0
        \<or> \<not> is_valid_import_name (imp_name import) \<or> imp_address import AND 3 \<noteq> 0
        \<or> imp_record_address import AND 3 \<noteq> 0 \<or> \<not> import_addresses_valid d import
      then Some (refuse InvalidImport
        ''import contains invalid identity, kind, or guest addresses'')
      else if index \<noteq> 0 \<and> \<not> import_less (imports ! (index - 1)) import
      then Some (refuse UnsortedImportManifest
        ''import manifest must be strictly sorted by library and ordinal'')
      else None)"

definition validate_manifest :: "module_descriptor \<Rightarrow> import_requirement list \<Rightarrow> validation_result" where
  "validate_manifest d imports =
     (if length imports \<noteq> desc_import_count d
      then refuse ImportCountMismatch ''import-manifest count does not match the sealed count''
      else case first_refusal (check_import d imports) [0..<length imports] of
        Some r \<Rightarrow> r
      | None \<Rightarrow>
          if hash_import_manifest imports \<noteq> Some (desc_import_manifest_sha256 d)
          then refuse ImportManifestDigestMismatch
            ''import manifest does not match the sealed SHA-256''
          else no_refusal)"

definition validate_module :: "guest_module \<Rightarrow> validation_result" where
  "validate_module module =
     (let d = mod_descriptor module; img = desc_image d; code = desc_code d in
      if list_all (\<lambda>b. b = 0) (img_sha256 img)
      then refuse InvalidImageDigest ''module image identity has an empty SHA-256 digest''
      else if length (mod_image_bytes module) \<noteq> unat (img_size img)
      then refuse ImageSizeMismatch ''module image byte count does not match its sealed size''
      else if image_end img > 2 ^ 32
      then refuse ImageAddressOverflow ''module image exceeds the Xbox 360 32-bit address space''
      else if img_base img AND (guest_image_base_alignment - 1) \<noteq> 0
      then refuse ImageBaseMisaligned
        ''module image base is not aligned to Xenia's 64 KiB guest-image page''
      else if hash_bytes (mod_image_bytes module) \<noteq> Some (img_sha256 img)
      then refuse ImageDigestMismatch ''module image bytes do not match the sealed SHA-256 digest''
      else if code_size code = 0 \<or> code_base code AND 3 \<noteq> 0 \<or> code_size code AND 3 \<noteq> 0
        \<or> code_base code < img_base img \<or> code_end code > image_end img
      then refuse InvalidCodeRange
        ''code range must be aligned, non-empty, and contained by the image''
      else if img_entry_point img AND 3 \<noteq> 0 \<or> \<not> is_inside (img_entry_point img) code
      then refuse EntryPointOutsideCode
        ''image entry point is not an aligned address in the code range''
      else validate_manifest d (mod_import_manifest module))"

section \<open>ValidateImports\<close>

definition check_binding ::
  "import_requirement \<Rightarrow> ('h, 'r, 'c) import_binding \<Rightarrow> validation_result option" where
  "check_binding required binding =
     (if bind_library binding \<noteq> imp_library required \<or> bind_ordinal binding \<noteq> imp_ordinal required
      then Some (refuse ImportBindingMismatch
        ''adapter import binding does not match the manifest at the same index'')
      else if bind_kind binding \<noteq> imp_kind required
      then Some (refuse ImportBindingKindMismatch
        ''adapter import binding kind does not match the manifest'')
      else let valid_function = bind_kind binding = Function
             \<and> bind_function_handler binding \<noteq> None \<and> bind_variable_resolver binding = None
             \<and> bind_variable_context binding = None;
           valid_variable = bind_kind binding = Variable
             \<and> bind_function_handler binding = None \<and> bind_function_context binding = None
             \<and> bind_variable_resolver binding \<noteq> None
      in if \<not> valid_function \<and> \<not> valid_variable
      then Some (refuse ImportBindingCallbackMismatch
        ''adapter import binding has the wrong callback shape'')
      else None)"

definition validate_imports ::
  "guest_module \<Rightarrow> ('h, 'r, 'c) import_binding list \<Rightarrow> validation_result" where
  "validate_imports module bindings =
     (let required = mod_import_manifest module in
      if length bindings \<noteq> length required
      then refuse ImportBindingCountMismatch
        ''adapter binding count does not exactly cover the import manifest''
      else case first_refusal (\<lambda>index. check_binding (required ! index) (bindings ! index))
             [0..<length required] of
        Some r \<Rightarrow> r
      | None \<Rightarrow> no_refusal)"

section \<open>The names of the refusals\<close>

fun validation_error_index :: "validation_error \<Rightarrow> nat" where
  "validation_error_index NoValidationError = 0"
| "validation_error_index InvalidImageDigest = 1"
| "validation_error_index ImageSizeMismatch = 2"
| "validation_error_index ImageBaseMisaligned = 3"
| "validation_error_index ImageAddressOverflow = 4"
| "validation_error_index ImageDigestMismatch = 5"
| "validation_error_index InvalidCodeRange = 6"
| "validation_error_index EntryPointOutsideCode = 7"
| "validation_error_index ImportCountMismatch = 8"
| "validation_error_index InvalidImport = 9"
| "validation_error_index ImportOrdinalOutOfRange = 10"
| "validation_error_index ImportAddressConflict = 11"
| "validation_error_index UnsortedImportManifest = 12"
| "validation_error_index ImportManifestDigestMismatch = 13"
| "validation_error_index ImportBindingCountMismatch = 14"
| "validation_error_index ImportBindingMismatch = 15"
| "validation_error_index ImportBindingKindMismatch = 16"
| "validation_error_index ImportBindingCallbackMismatch = 17"
| "validation_error_index ValidationErrorCount = 18"

definition validation_error_names :: "string list" where
  "validation_error_names =
     [''none'', ''invalid-image-digest'', ''image-size-mismatch'', ''image-base-misaligned'',
      ''image-address-overflow'', ''image-digest-mismatch'', ''invalid-code-range'',
      ''entry-point-outside-code'', ''import-count-mismatch'', ''invalid-import'',
      ''import-ordinal-out-of-range'', ''import-address-conflict'', ''unsorted-import-manifest'',
      ''import-manifest-digest-mismatch'', ''import-binding-count-mismatch'',
      ''import-binding-mismatch'', ''import-binding-kind-mismatch'',
      ''import-binding-callback-mismatch'']"

definition validation_error_name :: "validation_error \<Rightarrow> string" where
  "validation_error_name e =
     (let index = validation_error_index e
      in if index < length validation_error_names then validation_error_names ! index
         else ''unknown'')"

section \<open>What an accepted module satisfies\<close>

definition valid_import :: "module_descriptor \<Rightarrow> import_requirement \<Rightarrow> bool" where
  "valid_import d import \<longleftrightarrow>
     0 < imp_ordinal import \<and> imp_ordinal import \<le> 65535
     \<and> is_valid_library (imp_library import) \<and> is_valid_import_name (imp_name import)
     \<and> encodable import
     \<and> 4 dvd unat (imp_address import) \<and> 4 dvd unat (imp_record_address import)
     \<and> import_addresses_valid d import"

definition valid_manifest :: "module_descriptor \<Rightarrow> import_requirement list \<Rightarrow> bool" where
  "valid_manifest d imports \<longleftrightarrow>
     list_all (valid_import d) imports
     \<and> distinct (map imp_address imports) \<and> distinct (map imp_record_address imports)
     \<and> sorted_wrt (<) (map import_key_of imports)"

definition well_formed_module :: "guest_module \<Rightarrow> bool" where
  "well_formed_module module \<longleftrightarrow>
     (let d = mod_descriptor module; img = desc_image d; code = desc_code d;
          imports = mod_import_manifest module in
      (\<exists>b \<in> set (img_sha256 img). b \<noteq> 0)
      \<and> length (mod_image_bytes module) = unat (img_size img)
      \<and> image_end img \<le> 2 ^ 32
      \<and> 65536 dvd unat (img_base img)
      \<and> img_sha256 img = sha256 (mod_image_bytes module)
      \<and> 0 < code_size code \<and> 4 dvd unat (code_base code) \<and> 4 dvd unat (code_size code)
      \<and> img_base img \<le> code_base code \<and> code_end code \<le> image_end img
      \<and> 4 dvd unat (img_entry_point img) \<and> is_inside (img_entry_point img) code
      \<and> length imports = desc_import_count d
      \<and> valid_manifest d imports
      \<and> desc_import_manifest_sha256 d = sha256 (encode_manifest imports))"

lemma import_less_key: "import_less l r \<longleftrightarrow> import_key_of l < import_key_of r"
  by (simp add: import_less_def import_key_of_def less_import_key_def)

lemma check_import_None:
  "check_import d imports index = None \<longleftrightarrow>
     valid_import d (imports ! index)
     \<and> (\<forall>previous<index. imp_address (imports ! previous) \<noteq> imp_address (imports ! index)
          \<and> imp_record_address (imports ! previous) \<noteq> imp_record_address (imports ! index))
     \<and> (index \<noteq> 0 \<longrightarrow> import_key_of (imports ! (index - 1)) < import_key_of (imports ! index))"
  by (auto simp: check_import_def Let_def valid_import_def encodable_def and_3_eq_0_iff
      import_less_key list_ex_iff word_neq_0_conv not_less)

lemma sorted_wrt_adjacent:
  "sorted_wrt (<) (map f xs) \<longleftrightarrow> (\<forall>i<length xs. i \<noteq> 0 \<longrightarrow> f (xs ! (i - 1)) < (f (xs ! i) :: 'k::linorder))"
proof -
  have "sorted_wrt (<) (map f xs) \<longleftrightarrow> (\<forall>i. Suc i < length xs \<longrightarrow> f (xs ! i) < f (xs ! Suc i))"
    by (simp add: sorted_wrt_iff_nth_Suc_transp [OF transp_on_less])
  also have "\<dots> \<longleftrightarrow> (\<forall>i<length xs. i \<noteq> 0 \<longrightarrow> f (xs ! (i - 1)) < f (xs ! i))"
    by (metis Suc_diff_1 diff_Suc_1 gr0I nat.distinct(1))
  finally show ?thesis .
qed

lemma distinct_earlier:
  "distinct (map f xs) \<longleftrightarrow> (\<forall>i<length xs. \<forall>j<i. f (xs ! j) \<noteq> f (xs ! i))"
  by (auto simp: distinct_conv_nth) (metis linorder_neqE_nat)

lemma check_imports_valid:
  "(\<forall>index<length imports. check_import d imports index = None) \<longleftrightarrow> valid_manifest d imports"
  by (auto simp: check_import_None valid_manifest_def list_all_length sorted_wrt_adjacent
      distinct_earlier)

lemma refuse_error [simp]: "val_error (refuse e detail) = e"
  by (simp add: refuse_def)

lemma accepted_no_refusal [simp]: "accepted no_refusal"
  by (simp add: accepted_def no_refusal_def)

lemma accepted_refuse [simp]: "accepted (refuse e detail) \<longleftrightarrow> e = NoValidationError"
  by (simp add: accepted_def)

lemma check_import_refuses: "check_import d imports index = Some r \<Longrightarrow> \<not> accepted r"
  by (auto simp: check_import_def Let_def split: if_splits)

lemma accepted_validate_manifest:
  "accepted (validate_manifest d imports) \<longleftrightarrow>
     length imports = desc_import_count d \<and> valid_manifest d imports
     \<and> desc_import_manifest_sha256 d = sha256 (encode_manifest imports)"
  unfolding check_imports_valid [symmetric]
  by (auto simp: validate_manifest_def hash_import_manifest_eq
      first_refusal_case [where P = accepted] check_import_refuses)

lemma accepted_iff_well_formed: "accepted (validate_module module) \<longleftrightarrow> well_formed_module module"
  by (auto simp: validate_module_def well_formed_module_def Let_def hash_bytes_eq
      accepted_validate_manifest and_3_eq_0_iff and_65535_eq_0_iff guest_image_base_alignment_def
      list_all_iff word_neq_0_conv not_less)

lemma well_formed_manifest:
  "well_formed_module module \<Longrightarrow> valid_manifest (mod_descriptor module) (mod_import_manifest module)"
  by (simp add: well_formed_module_def Let_def)

lemma valid_manifest_keys: "valid_manifest d imports \<Longrightarrow> distinct (map import_key_of imports)"
  by (simp add: valid_manifest_def strict_sorted_iff)

text \<open>An accepted binding list, position by position.\<close>

definition binding_fits :: "import_requirement \<Rightarrow> ('h, 'r, 'c) import_binding \<Rightarrow> bool" where
  "binding_fits required binding \<longleftrightarrow>
     bind_library binding = imp_library required \<and> bind_ordinal binding = imp_ordinal required
     \<and> bind_kind binding = imp_kind required
     \<and> (case imp_kind required of
          Function \<Rightarrow> bind_function_handler binding \<noteq> None \<and> bind_variable_resolver binding = None
            \<and> bind_variable_context binding = None
        | Variable \<Rightarrow> bind_function_handler binding = None \<and> bind_function_context binding = None
            \<and> bind_variable_resolver binding \<noteq> None)"

lemma check_binding_None: "check_binding required binding = None \<longleftrightarrow> binding_fits required binding"
  by (cases "imp_kind required") (auto simp: check_binding_def binding_fits_def Let_def)

lemma check_binding_refuses: "check_binding required binding = Some r \<Longrightarrow> \<not> accepted r"
  by (auto simp: check_binding_def Let_def split: if_splits)

lemma validate_imports_accepted:
  "accepted (validate_imports module bindings) \<longleftrightarrow>
     list_all2 binding_fits (mod_import_manifest module) bindings"
  by (auto simp: validate_imports_def Let_def list_all2_conv_all_nth check_binding_None
      first_refusal_case [where P = accepted] check_binding_refuses)

lemma validation_error_index_inject: "validation_error_index a = validation_error_index b \<longleftrightarrow> a = b"
  by (cases a; cases b) simp_all

lemma validation_error_name_nth:
  "validation_error_name e = (validation_error_names @ [''unknown'']) ! validation_error_index e"
  "validation_error_index e < length (validation_error_names @ [''unknown''])"
  by (cases e; simp add: validation_error_name_def validation_error_names_def)+

lemma validation_error_name_inject: "validation_error_name a = validation_error_name b \<longleftrightarrow> a = b"
proof -
  have "distinct (validation_error_names @ [''unknown''])"
    by (simp add: validation_error_names_def)
  then show ?thesis
    by (simp only: validation_error_name_nth nth_eq_iff_index_eq validation_error_index_inject)
qed

section \<open>Properties\<close>

text \<open>C1: \<open>ValidateModule\<close> accepts exactly the well-formed modules: a non-empty digest that is the
  SHA-256 of the image bytes, an image of its sealed size inside the 32-bit address space on a
  64 KiB base, an aligned code range inside the image with the entry point in it, and a manifest of
  the sealed count and digest whose imports are valid, strictly sorted and without address
  conflicts. Every other module gets a refusal.\<close>

theorem validate_module_accepts_well_formed:
  "accepted (validate_module module) \<longleftrightarrow> well_formed_module module"
  by (rule accepted_iff_well_formed)

text \<open>\<open>ValidateImports\<close> accepts exactly the binding lists that cover the manifest position by
  position: same length, same library, ordinal and kind, and the callback shape of the kind.\<close>

lemma validate_imports_accepts_cover:
  "accepted (validate_imports module bindings) \<longleftrightarrow>
     list_all2 binding_fits (mod_import_manifest module) bindings"
  by (rule validate_imports_accepted)

text \<open>Every refusal has its own name: \<open>ToString\<close> never reads past its table and maps no two
  errors to the same name.\<close>

lemma validation_error_names_distinct:
  "(validation_error_name a = validation_error_name b) = (a = b)
   \<and> (a \<noteq> ValidationErrorCount \<longleftrightarrow> validation_error_name a \<in> set validation_error_names)"
proof
  show "a \<noteq> ValidationErrorCount \<longleftrightarrow> validation_error_name a \<in> set validation_error_names"
    by (cases a) (simp_all add: validation_error_name_def validation_error_names_def)
qed (simp add: validation_error_name_inject)

end
