(* ===== verification/Pe_Image.thy ===== *)
theory Pe_Image imports Module_Validation begin

text \<open>
  \<open>DescribeLoadedPeImage\<close> of \<open>src/pe_image.cpp\<close>: the geometry of an Xbox 360 PE image as the
  loader leaves it, flat at its base address. Every byte the function touches goes through a
  checked access, so the lemma \<open>describe_defined\<close> is its memory safety. On success the layout's
  sections and code range lie inside the image, the code range is exactly the hull of the
  non-empty code sections, and it contains the aligned entry point.
\<close>

record pe_section =
  sec_name :: string
  sec_base :: guest_address
  sec_size :: u32
  sec_code :: bool

record pe_image_layout =
  lay_identity :: image_identity
  lay_code :: code_range
  lay_sections :: "pe_section list"

definition pe_refuse :: "string \<Rightarrow> 'a parse" where
  "pe_refuse message = Some (Inl message)"

definition power_pc_be_machine :: u16 where
  "power_pc_be_machine = 0x01F2"

definition pe32_magic :: u16 where
  "pe32_magic = 0x010B"

definition code_section :: u32 where
  "code_section = 0x00000020"

fun section_name_from :: "bytes \<Rightarrow> nat \<Rightarrow> nat list \<Rightarrow> string option" where
  "section_name_from bs offset [] = Some []"
| "section_name_from bs offset (index # rest) = do {
     b \<leftarrow> byte_at bs (offset + index);
     if b = 0 then Some []
     else do { name \<leftarrow> section_name_from bs offset rest; Some (char_of_byte b # name) } }"

definition section_name :: "bytes \<Rightarrow> nat \<Rightarrow> string option" where
  "section_name bs offset = section_name_from bs offset [0..<8]"

text \<open>What the section loop accumulates: the sections, and the hull of the code ones.\<close>

record pe_scan =
  scan_sections :: "pe_section list"
  scan_code_begin :: nat
  scan_code_end :: nat

definition pe_section_step :: "bytes \<Rightarrow> guest_address \<Rightarrow> nat \<Rightarrow> pe_scan \<Rightarrow> pe_scan parse" where
  "pe_section_step source image_base section_at scan = do {
     raw_size \<leftarrow> read_u32_le source (section_at + 16);
     raw_offset \<leftarrow> read_u32_le source (section_at + 20);
     characteristics \<leftarrow> read_u32_le source (section_at + 36);
     if \<not> has_bytes source (unat raw_offset) (unat raw_size)
     then pe_refuse ''PE section exceeds the loaded image''
     else do {
       let code = characteristics AND code_section \<noteq> 0;
       let section_address = unat image_base + unat raw_offset;
       if section_address + unat raw_size > 2 ^ 32
       then pe_refuse ''PE section address overflows the guest address space''
       else do {
         name \<leftarrow> section_name source section_at;
         let sections = scan_sections scan @
           [\<lparr>sec_name = name, sec_base = word_of_nat section_address, sec_size = raw_size,
             sec_code = code\<rparr>];
         Some (Inr (if code \<and> raw_size \<noteq> 0
           then \<lparr>scan_sections = sections,
                  scan_code_begin = min (scan_code_begin scan) section_address,
                  scan_code_end = max (scan_code_end scan) (section_address + unat raw_size)\<rparr>
           else scan\<lparr>scan_sections := sections\<rparr>)) } } }"

fun pe_section_loop ::
  "bytes \<Rightarrow> guest_address \<Rightarrow> nat \<Rightarrow> nat list \<Rightarrow> pe_scan \<Rightarrow> pe_scan parse" where
  "pe_section_loop source image_base section_table [] scan = Some (Inr scan)"
| "pe_section_loop source image_base section_table (index # rest) scan = do {
     r \<leftarrow> pe_section_step source image_base (section_table + index * 40) scan;
     case r of Inl e \<Rightarrow> Some (Inl e)
     | Inr scan \<Rightarrow> pe_section_loop source image_base section_table rest scan }"

definition empty_scan :: pe_scan where
  "empty_scan = \<lparr>scan_sections = [], scan_code_begin = 2 ^ 64 - 1, scan_code_end = 0\<rparr>"

text \<open>After the loop: the executable range must contain the aligned entry point.\<close>

definition pe_finish :: "bytes \<Rightarrow> guest_address \<Rightarrow> u32 \<Rightarrow> pe_scan \<Rightarrow> pe_image_layout parse" where
  "pe_finish source image_base entry_rva scan =
     (let image_end = unat image_base + length source;
          entry_point = unat image_base + unat entry_rva;
          code_begin = scan_code_begin scan;
          code_end = scan_code_end scan in
      if image_end > 2 ^ 32 \<or> code_begin = 2 ^ 64 - 1 \<or> code_end \<le> code_begin
        \<or> entry_point < code_begin \<or> entry_point \<ge> code_end \<or> entry_point mod 4 \<noteq> 0
      then pe_refuse ''PE image has no valid executable range containing its entry point''
      else do {
        digest \<leftarrow> hash_bytes source;
        Some (Inr \<lparr>
          lay_identity = \<lparr>img_sha256 = digest, img_base = image_base,
            img_size = word_of_nat (length source), img_entry_point = word_of_nat entry_point\<rparr>,
          lay_code = \<lparr>code_base = word_of_nat code_begin,
            code_size = word_of_nat (code_end - code_begin)\<rparr>,
          lay_sections = scan_sections scan\<rparr>) })"

text \<open>From the optional header on.\<close>

definition pe_describe_optional :: "bytes \<Rightarrow> nat \<Rightarrow> u16 \<Rightarrow> u16 \<Rightarrow> pe_image_layout parse" where
  "pe_describe_optional source optional section_count optional_size = do {
     image_base \<leftarrow> read_u32_le source (optional + 28);
     entry_rva \<leftarrow> read_u32_le source (optional + 16);
     image_size \<leftarrow> read_u32_le source (optional + 56);
     header_size \<leftarrow> read_u32_le source (optional + 60);
     section_alignment \<leftarrow> read_u32_le source (optional + 32);
     if image_base = 0 \<or> image_base AND (guest_image_base_alignment - 1) \<noteq> 0
       \<or> image_size = 0 \<or> header_size = 0 \<or> header_size > image_size
       \<or> section_alignment = 0 \<or> \<not> has_bytes source 0 (unat header_size)
     then pe_refuse ''PE image has invalid guest-image geometry''
     else do {
       let section_table = optional + unat optional_size;
       let section_bytes = unat section_count * 40;
       if \<not> has_bytes source section_table section_bytes
       then pe_refuse ''PE section table exceeds the loaded image''
       else do {
         r \<leftarrow> pe_section_loop source image_base section_table [0..<unat section_count] empty_scan;
         case r of Inl e \<Rightarrow> Some (Inl e)
         | Inr scan \<Rightarrow> pe_finish source image_base entry_rva scan } } }"

definition describe_loaded_pe_image :: "bytes \<Rightarrow> pe_image_layout parse" where
  "describe_loaded_pe_image source =
     (if \<not> has_bytes source 0 0x40
      then pe_refuse ''PE image is missing its DOS header''
      else do {
        m \<leftarrow> byte_at source 0;
        z \<leftarrow> byte_at source 1;
        if m \<noteq> 0x4D \<or> z \<noteq> 0x5A
        then pe_refuse ''PE image is missing its DOS header''
        else do {
        pe_offset \<leftarrow> read_u32_le source 0x3C;
        if \<not> has_bytes source (unat pe_offset) (4 + 20)
        then pe_refuse ''PE image has an invalid NT header offset or signature''
        else do {
        signature \<leftarrow> read_u32_le source (unat pe_offset);
        if signature \<noteq> 0x00004550
        then pe_refuse ''PE image has an invalid NT header offset or signature''
        else do {
        let file_header = unat pe_offset + 4;
        machine \<leftarrow> read_u16_le source file_header;
        section_count \<leftarrow> read_u16_le source (file_header + 2);
        optional_size \<leftarrow> read_u16_le source (file_header + 16);
        if machine \<noteq> power_pc_be_machine \<or> section_count = 0 \<or> section_count > 96
          \<or> optional_size < 224
        then pe_refuse ''PE image is not a supported Xbox 360 PE32 image''
        else do {
        let optional = file_header + 20;
        if \<not> has_bytes source optional (unat optional_size)
        then pe_refuse ''PE image has an invalid PE32 optional header''
        else do {
        magic \<leftarrow> read_u16_le source optional;
        if magic \<noteq> pe32_magic
        then pe_refuse ''PE image has an invalid PE32 optional header''
        else pe_describe_optional source optional section_count optional_size } } } } } })"


section \<open>Every read stays inside the image\<close>

lemma section_name_from_defined [safe_reads]:
  "(\<And>i. i \<in> set indices \<Longrightarrow> offset + i < length bs) \<Longrightarrow>
   defined (section_name_from bs offset indices)"
  by (induction indices) simp_all

lemma section_name_defined [safe_reads]:
  "offset + 8 \<le> length bs \<Longrightarrow> defined (section_name bs offset)"
  unfolding section_name_def by (rule section_name_from_defined) simp

lemma pe_refuse_defined [simp]: "defined (pe_refuse message)"
  by (simp add: pe_refuse_def)

lemma pe_section_step_defined [safe_reads]:
  "at + 40 \<le> length source \<Longrightarrow> defined (pe_section_step source base at scan)"
  by (simp add: pe_section_step_def Let_def safe_reads)

lemma pe_section_loop_defined [safe_reads]:
  "(\<And>i. i \<in> set indices \<Longrightarrow> table + i * 40 + 40 \<le> length source) \<Longrightarrow>
   defined (pe_section_loop source base table indices scan)"
  by (induction indices arbitrary: scan) (simp_all add: safe_reads split: sum.split)

lemma pe_finish_defined [safe_reads]: "defined (pe_finish source base entry scan)"
  by (simp add: pe_finish_def Let_def hash_bytes_eq)

lemma pe_describe_optional_defined [safe_reads]:
  "optional + unat optional_size \<le> length source \<Longrightarrow> 224 \<le> unat optional_size \<Longrightarrow>
   defined (pe_describe_optional source optional section_count optional_size)"
  by (auto simp: pe_describe_optional_def Let_def safe_reads has_bytes_iff split: sum.split
      intro!: pe_section_loop_defined)

lemma describe_defined: "defined (describe_loaded_pe_image source)"
  by (auto simp: describe_loaded_pe_image_def Let_def has_bytes_iff safe_reads not_less
      word_le_nat_alt)

section \<open>What a layout promises\<close>

definition sec_end :: "pe_section \<Rightarrow> nat" where
  "sec_end s = unat (sec_base s) + unat (sec_size s)"

text \<open>
  An empty section may start at the very end of the address space, where its base wraps to 0: the
  bound is about the sections that hold bytes.
\<close>

definition section_fits :: "nat \<Rightarrow> guest_address \<Rightarrow> pe_section \<Rightarrow> bool" where
  "section_fits bytes_size base s \<longleftrightarrow>
     sec_size s = 0 \<or> base \<le> sec_base s \<and> sec_end s \<le> unat base + bytes_size \<and> sec_end s \<le> 2 ^ 32"

definition code_sections :: "pe_section list \<Rightarrow> pe_section list" where
  "code_sections ss = filter (\<lambda>s. sec_code s \<and> sec_size s \<noteq> 0) ss"

definition hull_of :: "pe_section list \<Rightarrow> nat \<times> nat" where
  "hull_of ss = (Min (insert (2 ^ 64 - 1) (unat ` sec_base ` set (code_sections ss))),
                 Max (insert 0 (sec_end ` set (code_sections ss))))"

definition scan_ok :: "nat \<Rightarrow> guest_address \<Rightarrow> pe_scan \<Rightarrow> bool" where
  "scan_ok bytes_size base scan \<longleftrightarrow>
     list_all (section_fits bytes_size base) (scan_sections scan)
     \<and> (scan_code_begin scan, scan_code_end scan) = hull_of (scan_sections scan)"

lemma hull_of_append:
  "hull_of (ss @ [s]) = (case hull_of ss of (b, e) \<Rightarrow>
     if sec_code s \<and> sec_size s \<noteq> 0 then (min b (unat (sec_base s)), max e (sec_end s)) else (b, e))"
proof -
  have "Min (insert c (insert x A)) = min (Min (insert c A)) x"
    and "Max (insert c (insert x A)) = max (Max (insert c A)) x" if "finite A" for c x :: nat and A
    using that by (simp_all add: insert_commute [of c x] min.commute max.commute)
  then show ?thesis by (simp add: hull_of_def code_sections_def del: Min_insert Max_insert)
qed

lemma wrapped_base:
  assumes "unat (a :: u32) + unat b + unat (n :: u32) \<le> 4294967296" and "n \<noteq> 0"
  shows "unat (a + b) = unat a + unat b"
proof -
  from assms(2) have "0 < unat n" by (simp add: unat_gt_0)
  with assms(1) show ?thesis by (simp add: unat_word_ariths)
qed

lemma pe_section_step_ok:
  assumes "pe_section_step source base at scan = Some (Inr scan')"
    and "scan_ok (length source) base scan"
  shows "scan_ok (length source) base scan' \<and>
    length (scan_sections scan') = Suc (length (scan_sections scan))"
  using assms
  by (cases scan) (auto simp: pe_section_step_def pe_refuse_def bind_eq_Some_conv Let_def has_bytes_iff
      scan_ok_def hull_of_append wrapped_base section_fits_def sec_end_def word_le_nat_alt
      not_less split: if_splits prod.splits)

lemma pe_section_loop_ok:
  assumes "pe_section_loop source base table indices scan = Some (Inr scan')"
    and "scan_ok (length source) base scan"
  shows "scan_ok (length source) base scan' \<and>
    length (scan_sections scan') = length (scan_sections scan) + length indices"
  using assms
proof (induction indices arbitrary: scan)
  case (Cons i rest)
  then show ?case
    by (fastforce simp: bind_eq_Some_conv dest!: pe_section_step_ok)
qed simp

lemma pe_section_loop_from_empty:
  assumes "pe_section_loop source base table [0..<count] empty_scan = Some (Inr scan)"
  shows "scan_ok (length source) base scan \<and> length (scan_sections scan) = count"
proof -
  have "scan_ok (length source) base empty_scan"
    by (simp add: scan_ok_def empty_scan_def hull_of_def code_sections_def)
  from pe_section_loop_ok [OF assms this] show ?thesis by (simp add: empty_scan_def)
qed

text \<open>The whole contract of a successful description.\<close>

definition layout_of :: "bytes \<Rightarrow> pe_image_layout \<Rightarrow> bool" where
  "layout_of source layout \<longleftrightarrow>
     (let img = lay_identity layout; code = lay_code layout in
      img_sha256 img = sha256 source \<and> unat (img_size img) = length source
      \<and> img_base img \<noteq> 0 \<and> 65536 dvd unat (img_base img) \<and> image_end img \<le> 2 ^ 32
      \<and> lay_sections layout \<noteq> [] \<and> length (lay_sections layout) \<le> 96
      \<and> list_all (section_fits (length source) (img_base img)) (lay_sections layout)
      \<and> (unat (code_base code), code_end code) = hull_of (lay_sections layout)
      \<and> 4 dvd unat (img_entry_point img) \<and> is_inside (img_entry_point img) code)"

lemma hull_bounds:
  assumes "list_all (section_fits n base) ss" and "(b, e) = hull_of ss"
  shows "e \<le> 4294967296" and "e \<le> unat base + n" and "b < e \<Longrightarrow> unat base \<le> b"
proof -
  have cs: "unat base \<le> unat (sec_base s)" "sec_end s \<le> unat base + n" "sec_end s \<le> 4294967296"
    if "s \<in> set (code_sections ss)" for s
    using assms(1) that
    by (auto simp: list_all_iff section_fits_def code_sections_def word_le_nat_alt)
  then show e: "e \<le> 4294967296" and "e \<le> unat base + n"
    using assms(2) by (auto simp: hull_of_def)
  show "unat base \<le> b" if "b < e"
  proof -
    let ?S = "insert (2 ^ 64 - 1) (unat ` sec_base ` set (code_sections ss))"
    have "b = Min ?S" using assms(2) by (simp add: hull_of_def del: Min_insert)
    then have "b \<in> ?S" using Min_in [of ?S] by simp
    with that e cs show ?thesis by auto
  qed
qed

lemma pe_finish_ok:
  assumes "pe_finish source base entry scan = Some (Inr layout)"
    and "scan_ok (length source) base scan" and "base \<noteq> 0" and "65536 dvd unat base"
    and "scan_sections scan \<noteq> []" and "length (scan_sections scan) \<le> 96"
  shows "layout_of source layout"
proof -
  have pos: "0 < unat base" using assms(3) by (simp add: unat_gt_0)
  let ?b = "scan_code_begin scan" and ?e = "scan_code_end scan" and ?p = "unat base + unat entry"
  from assms(1) have fit: "unat base + length source \<le> 4294967296" "?b < ?e" "?b \<le> ?p" "?p < ?e"
      "4 dvd ?p"
    and layout: "layout = \<lparr>
        lay_identity = \<lparr>img_sha256 = sha256 source, img_base = base,
          img_size = word_of_nat (length source), img_entry_point = word_of_nat ?p\<rparr>,
        lay_code = \<lparr>code_base = word_of_nat ?b, code_size = word_of_nat (?e - ?b)\<rparr>,
        lay_sections = scan_sections scan\<rparr>"
    by (auto simp: pe_finish_def pe_refuse_def Let_def hash_bytes_eq dvd_eq_mod_eq_0
        simp del: of_nat_add split: if_splits)
  have ok: "(?b, ?e) = hull_of (scan_sections scan)"
    "list_all (section_fits (length source) base) (scan_sections scan)"
    using assms(2) by (auto simp: scan_ok_def)
  note bounds = hull_bounds [OF ok(2,1)]
  have "unat (word_of_nat (length source) :: u32) = length source"
    "unat (word_of_nat ?b :: u32) = ?b" "unat (word_of_nat (?e - ?b) :: u32) = ?e - ?b"
    "unat (word_of_nat ?p :: u32) = ?p"
    by (rule unat_word_of_nat_u32; use fit pos bounds in linarith)+
  with fit ok assms show ?thesis
    by (simp add: layout layout_of_def Let_def image_end_def code_end_def is_inside_def
        del: of_nat_add)
qed

lemma describe_ok:
  assumes "describe_loaded_pe_image source = Some (Inr layout)"
  shows "layout_of source layout"
proof -
  have "layout_of source layout"
    if "pe_describe_optional source optional count osize = Some (Inr layout)"
      and "count \<noteq> 0" and "\<not> count > 96" for optional count osize
  proof -
    from that(2,3) have count: "unat count \<noteq> 0" "unat count \<le> 96"
      by (auto simp: word_less_nat_alt unat_eq_0 not_less)
    from that(1) count show ?thesis
      by (auto simp: pe_describe_optional_def bind_eq_Some_conv Let_def pe_refuse_def
          and_65535_eq_0_iff guest_image_base_alignment_def
          dest!: pe_section_loop_from_empty pe_finish_ok split: if_splits)
  qed
  with assms show ?thesis
    by (auto simp: describe_loaded_pe_image_def bind_eq_Some_conv Let_def pe_refuse_def
        split: if_splits)
qed

text \<open>
  The module a title seals from a layout. The validator accepts it exactly when the code range is
  word-aligned, which the description does not ask for, and the manifest is a valid one.
\<close>

definition seal_layout :: "pe_image_layout \<Rightarrow> bytes \<Rightarrow> import_requirement list \<Rightarrow> guest_module" where
  "seal_layout layout source imports =
     \<lparr>mod_descriptor = \<lparr>desc_image = lay_identity layout, desc_code = lay_code layout,
        desc_import_count = length imports,
        desc_import_manifest_sha256 = sha256 (encode_manifest imports)\<rparr>,
      mod_image_bytes = source, mod_import_manifest = imports\<rparr>"

lemma layout_code_inside:
  assumes "layout_of source layout"
  shows "0 < code_size (lay_code layout)
    \<and> img_base (lay_identity layout) \<le> code_base (lay_code layout)
    \<and> code_end (lay_code layout) \<le> image_end (lay_identity layout)"
proof -
  let ?img = "lay_identity layout" and ?code = "lay_code layout"
  from assms have ok: "list_all (section_fits (length source) (img_base ?img)) (lay_sections layout)"
      "(unat (code_base ?code), code_end ?code) = hull_of (lay_sections layout)"
      "is_inside (img_entry_point ?img) ?code" "unat (img_size ?img) = length source"
    by (simp_all add: layout_of_def Let_def)
  from ok(3) have "unat (code_base ?code) < code_end ?code" "0 < unat (code_size ?code)"
    by (auto simp: is_inside_def Let_def code_end_def)
  with hull_bounds [OF ok(1,2)] ok(4) show ?thesis
    by (simp add: image_end_def word_le_nat_alt word_less_nat_alt)
qed

lemma seal_layout_accepted:
  assumes "layout_of source layout"
  shows "accepted (validate_module (seal_layout layout source imports)) \<longleftrightarrow>
    4 dvd unat (code_base (lay_code layout)) \<and> 4 dvd unat (code_size (lay_code layout))
    \<and> (\<exists>b\<in>set (sha256 source). b \<noteq> 0)
    \<and> valid_manifest (mod_descriptor (seal_layout layout source imports)) imports"
  using assms layout_code_inside [OF assms]
  by (auto simp: accepted_iff_well_formed well_formed_module_def seal_layout_def layout_of_def Let_def)

section \<open>A sample image\<close>

text \<open>One \<open>.text\<close> section of three \<open>nop\<close>s and a \<open>blr\<close>, right behind the headers.\<close>

definition sample_pe :: bytes where
  "sample_pe =
     [0x4D, 0x5A] @ replicate 58 0 @ [0x40, 0, 0, 0]
     @ [0x50, 0x45, 0, 0, 0xF2, 0x01, 1, 0] @ replicate 12 0 @ [0xE0, 0, 0, 0]
     @ [0x0B, 0x01] @ replicate 14 0 @ [0x60, 0x01, 0, 0] @ replicate 8 0 @ [0, 0, 0, 0x82]
     @ [0, 0x10, 0, 0] @ replicate 20 0 @ [0, 0, 1, 0] @ [0x60, 0x01, 0, 0] @ replicate 160 0
     @ [0x2E, 0x74, 0x65, 0x78, 0x74, 0, 0, 0] @ replicate 8 0 @ [0x10, 0, 0, 0]
     @ [0x60, 0x01, 0, 0] @ replicate 12 0 @ [0x20, 0, 0, 0]
     @ [0x60, 0, 0, 0, 0x60, 0, 0, 0, 0x60, 0, 0, 0, 0x4E, 0x80, 0, 0x20]"

definition sample_layout :: pe_image_layout where
  "sample_layout =
     \<lparr>lay_identity = \<lparr>img_sha256 = sha256 sample_pe, img_base = 0x82000000, img_size = 368,
        img_entry_point = 0x82000160\<rparr>,
      lay_code = \<lparr>code_base = 0x82000160, code_size = 16\<rparr>,
      lay_sections = [\<lparr>sec_name = ''.text'', sec_base = 0x82000160, sec_size = 16,
        sec_code = True\<rparr>]\<rparr>"

lemma sample_pe_reads:
  "length sample_pe = 368" "byte_at sample_pe 0 = Some 0x4D" "byte_at sample_pe 1 = Some 0x5A"
  "read_u32_le sample_pe 60 = Some 64" "read_u32_le sample_pe 64 = Some 0x4550"
  "read_u16_le sample_pe 68 = Some 0x1F2" "read_u16_le sample_pe 70 = Some 1"
  "read_u16_le sample_pe 84 = Some 224" "read_u16_le sample_pe 88 = Some 0x10B"
  "read_u32_le sample_pe 104 = Some 352" "read_u32_le sample_pe 116 = Some 0x82000000"
  "read_u32_le sample_pe 120 = Some 0x1000" "read_u32_le sample_pe 144 = Some 0x10000"
  "read_u32_le sample_pe 148 = Some 352" "section_name sample_pe 312 = Some ''.text''"
  "read_u32_le sample_pe 328 = Some 16" "read_u32_le sample_pe 332 = Some 352"
  "read_u32_le sample_pe 348 = Some 0x20"
  by code_simp+

lemma sample_pe_described: "describe_loaded_pe_image sample_pe = Some (Inr sample_layout)"
proof -
  note reads = sample_pe_reads has_bytes_iff
  have step: "pe_section_step sample_pe 0x82000000 312 empty_scan = Some (Inr
      \<lparr>scan_sections = lay_sections sample_layout, scan_code_begin = 0x82000160,
       scan_code_end = 0x82000170\<rparr>)"
    by (simp add: pe_section_step_def reads Let_def code_section_def empty_scan_def
        sample_layout_def)
  have finish: "pe_finish sample_pe 0x82000000 352
      \<lparr>scan_sections = lay_sections sample_layout, scan_code_begin = 0x82000160,
       scan_code_end = 0x82000170\<rparr> = Some (Inr sample_layout)"
    by (simp add: pe_finish_def reads Let_def hash_bytes_eq sample_layout_def)
  have "pe_describe_optional sample_pe 88 1 224 = Some (Inr sample_layout)"
    by (simp add: pe_describe_optional_def reads guest_image_base_alignment_def step finish)
  then show ?thesis
    by (simp del: One_nat_def
        add: describe_loaded_pe_image_def reads power_pc_be_machine_def pe32_magic_def)
qed

section \<open>Properties\<close>

text \<open>C2: describing a loaded PE image never reads outside it, whatever its bytes are, and a
  description it returns keeps its whole contract: the identity is the SHA-256, size, aligned
  nonzero base and aligned entry point of an image inside the 32-bit space; there are 1 to 96
  sections, the ones that hold bytes inside the image; the code range is the hull of the non-empty
  code sections and contains the entry point.\<close>

theorem describe_loaded_pe_image_sound:
  "case describe_loaded_pe_image source of
     None \<Rightarrow> False
   | Some (Inl e) \<Rightarrow> True
   | Some (Inr layout) \<Rightarrow> layout_of source layout"
  using describe_defined [of source]
  by (auto simp: defined_def describe_ok split: option.split sum.split)

text \<open>C5: the producer and the validator of a module agree. A module sealed from a description
  is accepted exactly when its code range is word-aligned (the description does not ask for it),
  its digest is not all zero, and its manifest is valid for it.\<close>

theorem described_module_accepted:
  assumes "describe_loaded_pe_image source = Some (Inr layout)"
  shows "accepted (validate_module (seal_layout layout source imports)) \<longleftrightarrow>
    4 dvd unat (code_base (lay_code layout)) \<and> 4 dvd unat (code_size (lay_code layout))
    \<and> (\<exists>b\<in>set (sha256 source). b \<noteq> 0)
    \<and> valid_manifest (mod_descriptor (seal_layout layout source imports)) imports"
  using assms by (intro seal_layout_accepted describe_ok)

theorem described_module_accepted_witness:
  "accepted (validate_module (seal_layout sample_layout sample_pe [])) \<longleftrightarrow>
     (\<exists>b\<in>set (sha256 sample_pe). b \<noteq> 0)"
  using described_module_accepted [OF sample_pe_described, of "[]"]
  by (simp add: sample_layout_def valid_manifest_def)

end
