(* ===== verification/Xex_Helpers.thy ===== *)
theory Xex_Helpers imports Pe_Image begin

text \<open>
  \<open>ScanXexHelpers\<close> of \<open>src/xex_helpers.cpp\<close>: the addresses of the compiler's register save and
  restore helpers, found by their first instructions at every fourth byte of the code sections. The
  main lemma says that the scan finds, for each pattern, exactly the aligned matches.
\<close>

definition rest_gpr :: bytes where "rest_gpr = [0xE9, 0xC1, 0xFF, 0x68]"
definition save_gpr :: bytes where "save_gpr = [0xF9, 0xC1, 0xFF, 0x68]"
definition rest_fpr :: bytes where "rest_fpr = [0xC9, 0xCC, 0xFF, 0x70]"
definition save_fpr :: bytes where "save_fpr = [0xD9, 0xCC, 0xFF, 0x70]"
definition rest_vmx14 :: bytes where
  "rest_vmx14 = [0x39, 0x60, 0xFE, 0xE0, 0x7D, 0xCB, 0x60, 0xCE]"
definition save_vmx14 :: bytes where
  "save_vmx14 = [0x39, 0x60, 0xFE, 0xE0, 0x7D, 0xCB, 0x61, 0xCE]"
definition rest_vmx64 :: bytes where
  "rest_vmx64 = [0x39, 0x60, 0xFC, 0x00, 0x10, 0x0B, 0x60, 0xCB]"
definition save_vmx64 :: bytes where
  "save_vmx64 = [0x39, 0x60, 0xFC, 0x00, 0x10, 0x0B, 0x61, 0xCB]"

definition helper_patterns :: "bytes list" where
  "helper_patterns = [rest_gpr, save_gpr, rest_fpr, save_fpr,
     rest_vmx14, save_vmx14, rest_vmx64, save_vmx64]"

fun matches_at :: "bytes \<Rightarrow> nat \<Rightarrow> bytes \<Rightarrow> bool option" where
  "matches_at code offset [] = Some True"
| "matches_at code offset (p # pattern) = do {
     b \<leftarrow> byte_at code offset;
     if b \<noteq> p then Some False else matches_at code (offset + 1) pattern }"

function scan_pattern ::
  "bytes \<Rightarrow> bytes \<Rightarrow> guest_address \<Rightarrow> nat \<Rightarrow> guest_address list \<Rightarrow> guest_address list option" where
  "scan_pattern pattern code base offset found =
     (if offset + length pattern \<le> length code
      then do {
        matches \<leftarrow> matches_at code offset pattern;
        scan_pattern pattern code base (offset + 4)
          (if matches then found @ [base + word_of_nat offset] else found) }
      else Some found)"
  by pat_completeness auto
termination by (relation "measure (\<lambda>(_, code, _, offset, _). length code + 4 - offset)") auto

declare scan_pattern.simps [simp del]

fun scan_patterns ::
  "bytes \<Rightarrow> guest_address \<Rightarrow> nat list \<Rightarrow> guest_address list list \<Rightarrow> guest_address list list option" where
  "scan_patterns code base [] helpers = Some helpers"
| "scan_patterns code base (index # rest) helpers = do {
     found \<leftarrow> scan_pattern (helper_patterns ! index) code base 0 (helpers ! index);
     scan_patterns code base rest (helpers[index := found]) }"

definition scan_section ::
  "pe_image_layout \<Rightarrow> bytes \<Rightarrow> pe_section \<Rightarrow> guest_address list list \<Rightarrow> guest_address list list option" where
  "scan_section layout img section helpers =
     (if \<not> sec_code section \<or> sec_base section < img_base (lay_identity layout)
      then Some helpers
      else let image_offset = unat (sec_base section - img_base (lay_identity layout)) in
      if image_offset > length img \<or> unat (sec_size section) > length img - image_offset
      then Some helpers
      else scan_patterns (take (unat (sec_size section)) (drop image_offset img))
        (sec_base section) [0..<length helper_patterns] helpers)"

fun scan_sections_loop ::
  "pe_image_layout \<Rightarrow> bytes \<Rightarrow> pe_section list \<Rightarrow> guest_address list list \<Rightarrow>
   guest_address list list option" where
  "scan_sections_loop layout img [] helpers = Some helpers"
| "scan_sections_loop layout img (section # rest) helpers = do {
     helpers \<leftarrow> scan_section layout img section helpers;
     scan_sections_loop layout img rest helpers }"

definition scan_xex_helpers ::
  "pe_image_layout \<Rightarrow> bytes \<Rightarrow> guest_address list list \<Rightarrow> guest_address list list option" where
  "scan_xex_helpers layout img helpers = scan_sections_loop layout img (lay_sections layout) helpers"

section \<open>What the scan finds\<close>

definition code_of :: "pe_image_layout \<Rightarrow> bytes \<Rightarrow> pe_section \<Rightarrow> bytes" where
  "code_of layout img section =
     (let off = unat (sec_base section) - unat (img_base (lay_identity layout)) in
      if sec_code section \<and> img_base (lay_identity layout) \<le> sec_base section
        \<and> off + unat (sec_size section) \<le> length img
      then take (unat (sec_size section)) (drop off img) else [])"

definition offsets_of :: "bytes \<Rightarrow> bytes \<Rightarrow> nat list" where
  "offsets_of pattern code =
     filter (\<lambda>off. 4 dvd off \<and> off + length pattern \<le> length code
       \<and> take (length pattern) (drop off code) = pattern) [0..<length code]"

definition helper_addresses :: "pe_image_layout \<Rightarrow> bytes \<Rightarrow> bytes \<Rightarrow> guest_address list" where
  "helper_addresses layout img pattern =
     concat (map (\<lambda>section. map (\<lambda>off. sec_base section + word_of_nat off)
       (offsets_of pattern (code_of layout img section))) (lay_sections layout))"

lemma matches_at_eq:
  "offset + length pattern \<le> length code \<Longrightarrow>
   matches_at code offset pattern = Some (take (length pattern) (drop offset code) = pattern)"
proof (induction pattern arbitrary: offset)
  case (Cons p pattern)
  then have "drop offset code = code ! offset # drop (Suc offset) code"
    by (simp add: Cons_nth_drop_Suc)
  with Cons show ?case by (simp add: byte_simps)
qed simp

definition offsets_from :: "bytes \<Rightarrow> bytes \<Rightarrow> nat \<Rightarrow> nat list" where
  "offsets_from pattern code start =
     filter (\<lambda>off. 4 dvd off \<and> off + length pattern \<le> length code
       \<and> take (length pattern) (drop off code) = pattern) [start..<length code]"

lemma offsets_from_step:
  assumes "4 dvd start" and "start + length pattern \<le> length code" and "pattern \<noteq> []"
  shows "offsets_from pattern code start =
    (if take (length pattern) (drop start code) = pattern then [start] else [])
    @ offsets_from pattern code (start + 4)"
proof -
  obtain q where "start = 4 * q" using assms(1) by blast
  then have skip: "\<not> 4 dvd start + 1" "\<not> 4 dvd start + 2" "\<not> 4 dvd start + 3" by presburger+
  have one: "offsets_from pattern code s = offsets_from pattern code (Suc s)" if "\<not> 4 dvd s" for s
    using that by (cases "s < length code") (simp_all add: offsets_from_def upt_conv_Cons)
  have "start < length code" using assms(2,3) by (cases pattern) simp_all
  then have "offsets_from pattern code start =
      (if take (length pattern) (drop start code) = pattern then [start] else [])
      @ offsets_from pattern code (Suc start)"
    using assms(1,2) by (simp add: offsets_from_def upt_conv_Cons)
  also have "offsets_from pattern code (Suc start) = offsets_from pattern code (start + 4)"
    using one [of "start + 1"] one [of "start + 2"] one [of "start + 3"] skip
    by (simp add: numeral_eq_Suc)
  finally show ?thesis .
qed

lemma scan_pattern_eq:
  assumes "4 dvd offset" and "pattern \<noteq> []"
  shows "scan_pattern pattern code base offset found =
    Some (found @ map (\<lambda>off. base + word_of_nat off) (offsets_from pattern code offset))"
  using assms(1)
proof (induction "length code + 4 - offset" arbitrary: offset found rule: less_induct)
  case less
  show ?case
  proof (cases "offset + length pattern \<le> length code")
    case True
    then show ?thesis
      using less.hyps [of "offset + 4"] less.prems assms(2)
      by (subst scan_pattern.simps) (simp add: matches_at_eq offsets_from_step)
  next
    case False
    then have "offsets_from pattern code offset = []"
      by (auto simp: offsets_from_def filter_empty_conv)
    with False show ?thesis by (simp add: scan_pattern.simps)
  qed
qed

lemma scan_pattern_found:
  "pattern \<noteq> [] \<Longrightarrow> scan_pattern pattern code base 0 found =
     Some (found @ map (\<lambda>off. base + word_of_nat off) (offsets_of pattern code))"
  by (simp add: scan_pattern_eq offsets_from_def offsets_of_def)

lemma helper_patterns_props: "length helper_patterns = 8" "p \<in> set helper_patterns \<Longrightarrow> p \<noteq> []"
  by (auto simp: helper_patterns_def rest_gpr_def save_gpr_def rest_fpr_def save_fpr_def
      rest_vmx14_def save_vmx14_def rest_vmx64_def save_vmx64_def)

definition add_found ::
  "guest_address \<Rightarrow> bytes \<Rightarrow> guest_address list list \<Rightarrow> guest_address list list" where
  "add_found base code helpers =
     map2 (\<lambda>found pattern. found @ map (\<lambda>off. base + word_of_nat off) (offsets_of pattern code))
       helpers helper_patterns"

lemma scan_patterns_indices:
  "distinct indices \<Longrightarrow> set indices \<subseteq> {0..<8} \<Longrightarrow> length helpers = 8 \<Longrightarrow>
   \<exists>result. scan_patterns code base indices helpers = Some result \<and> length result = 8 \<and>
     (\<forall>i<8. result ! i =
        (if i \<in> set indices then add_found base code helpers ! i else helpers ! i))"
proof (induction indices arbitrary: helpers)
  case (Cons index rest)
  let ?found = "helpers ! index @ map (\<lambda>off. base + word_of_nat off)
    (offsets_of (helper_patterns ! index) code)"
  have "index < 8" using Cons.prems by simp
  then have scan: "scan_pattern (helper_patterns ! index) code base 0 (helpers ! index) = Some ?found"
    using helper_patterns_props by (intro scan_pattern_found) (metis nth_mem)
  obtain result where result: "scan_patterns code base rest (helpers[index := ?found]) = Some result"
      "length result = 8" "\<forall>i<8. result ! i = (if i \<in> set rest
        then add_found base code (helpers[index := ?found]) ! i else helpers[index := ?found] ! i)"
    using Cons.prems Cons.IH [of "helpers[index := ?found]"] by auto
  moreover have "result ! i = (if i \<in> set (index # rest) then add_found base code helpers ! i
      else helpers ! i)" if "i < 8" for i
    using result(3) that Cons.prems \<open>index < 8\<close> helper_patterns_props
    by (cases "i = index") (auto simp: add_found_def nth_list_update)
  ultimately show ?case using scan by simp
qed simp

lemma scan_patterns_all:
  assumes "length helpers = 8"
  shows "scan_patterns code base [0..<8] helpers = Some (add_found base code helpers)"
proof -
  obtain result where "scan_patterns code base [0..<8] helpers = Some result"
      "length result = 8" "\<forall>i<8. result ! i = add_found base code helpers ! i"
    using scan_patterns_indices [of "[0..<8]" helpers code base] assms by auto
  moreover have "length (add_found base code helpers) = 8"
    using assms helper_patterns_props by (simp add: add_found_def)
  ultimately show ?thesis by (metis nth_equalityI)
qed

lemma length_add_found [simp]: "length helpers = 8 \<Longrightarrow> length (add_found base code helpers) = 8"
  using helper_patterns_props by (simp add: add_found_def)

lemma offsets_of_Nil: "pattern \<noteq> [] \<Longrightarrow> offsets_of pattern [] = []"
  by (simp add: offsets_of_def)

lemma add_found_Nil: "length helpers = 8 \<Longrightarrow> add_found base [] helpers = helpers"
  using helper_patterns_props
  by (auto simp: add_found_def offsets_of_Nil intro!: nth_equalityI)

lemma scan_section_eq:
  assumes "length helpers = 8"
  shows "scan_section layout img section helpers =
    Some (add_found (sec_base section) (code_of layout img section) helpers)"
  using assms helper_patterns_props
  by (auto simp: scan_section_def code_of_def Let_def add_found_Nil scan_patterns_all unat_sub not_less)

lemma scan_sections_loop_eq:
  "length helpers = 8 \<Longrightarrow> scan_sections_loop layout img sections helpers =
   Some (map2 (\<lambda>found pattern. found @ concat (map (\<lambda>section.
       map (\<lambda>off. sec_base section + word_of_nat off)
         (offsets_of pattern (code_of layout img section))) sections))
     helpers helper_patterns)"
proof (induction sections arbitrary: helpers)
  case Nil
  then show ?case using helper_patterns_props by (auto intro!: nth_equalityI)
next
  case (Cons sec rest)
  then show ?case
    using helper_patterns_props
    by (auto simp: scan_section_eq add_found_def intro!: nth_equalityI)
qed

lemma scan_xex_helpers_eq:
  "length helpers = 8 \<Longrightarrow> scan_xex_helpers layout img helpers =
   Some (map2 (\<lambda>found pattern. found @ helper_addresses layout img pattern) helpers helper_patterns)"
  by (simp add: scan_xex_helpers_def scan_sections_loop_eq helper_addresses_def)

lemma fresh_map2:
  "map2 (\<lambda>found pattern. found @ f pattern) (replicate 8 []) helper_patterns =
     map f helper_patterns"
  using helper_patterns_props(1) by (auto intro!: nth_equalityI)

lemma fresh_helpers:
  "scan_xex_helpers layout img (replicate 8 []) =
     Some (map (helper_addresses layout img) helper_patterns)"
  by (simp add: scan_xex_helpers_eq fresh_map2)

section \<open>Properties\<close>

text \<open>C8: the helper scan stays inside the image and appends, for each of the eight patterns, exactly
  the addresses of the word-aligned matches in the code sections that lie inside the image, in
  order.\<close>

theorem scan_xex_helpers_finds_matches:
  assumes "length helpers = 8"
  shows "scan_xex_helpers layout img helpers =
    Some (map2 (\<lambda>found pattern. found @ helper_addresses layout img pattern) helpers helper_patterns)"
  by (rule scan_xex_helpers_eq [OF assms])

definition tiny_layout :: pe_image_layout where
  "tiny_layout =
     \<lparr>lay_identity = \<lparr>img_sha256 = [], img_base = 0x82000000, img_size = 8, img_entry_point = 0x82000000\<rparr>,
      lay_code = \<lparr>code_base = 0x82000000, code_size = 8\<rparr>,
      lay_sections = [\<lparr>sec_name = ''.text'', sec_base = 0x82000000, sec_size = 8, sec_code = True\<rparr>]\<rparr>"

theorem scan_xex_helpers_finds_matches_witness:
  "scan_xex_helpers tiny_layout ([0x60, 0, 0, 0] @ rest_gpr) (replicate 8 []) =
     Some [[0x82000004], [], [], [], [], [], [], []]"
proof -
  let ?code = "[0x60, 0, 0, 0] @ rest_gpr"
  have code: "code_of tiny_layout ?code (hd (lay_sections tiny_layout)) = ?code"
    by (simp add: code_of_def tiny_layout_def rest_gpr_def)
  have eight: "[0..<8] = [0, 1, 2, 3, 4, 5, 6, 7 :: nat]" by code_simp
  have four: "4 dvd Suc (Suc (Suc (Suc 0)))" by (simp add: numeral_eq_Suc)
  have "offsets_of rest_gpr ?code = [4]" "offsets_of save_gpr ?code = []"
      "offsets_of rest_fpr ?code = []" "offsets_of save_fpr ?code = []"
      "offsets_of rest_vmx14 ?code = []" "offsets_of save_vmx14 ?code = []"
      "offsets_of rest_vmx64 ?code = []" "offsets_of save_vmx64 ?code = []"
    by (simp_all add: offsets_of_def eight four rest_gpr_def save_gpr_def rest_fpr_def save_fpr_def
        rest_vmx14_def save_vmx14_def rest_vmx64_def save_vmx64_def)
  then have one: "offsets_of pattern ?code = (if pattern = rest_gpr then [4] else [])"
    if "pattern \<in> set helper_patterns" for pattern
    using that by (auto simp: helper_patterns_def)
  have "helper_addresses tiny_layout ?code pattern =
      (if pattern = rest_gpr then [0x82000004] else [])"
    if "pattern \<in> set helper_patterns" for pattern
    using one [OF that] code by (simp add: helper_addresses_def tiny_layout_def)
  then have "map (helper_addresses tiny_layout ?code) helper_patterns =
      map (\<lambda>pattern. if pattern = rest_gpr then [0x82000004] else []) helper_patterns"
    by simp
  also have "\<dots> = [[0x82000004], [], [], [], [], [], [], []]"
    by (simp add: helper_patterns_def rest_gpr_def save_gpr_def rest_fpr_def save_fpr_def
        rest_vmx14_def save_vmx14_def rest_vmx64_def save_vmx64_def)
  finally show ?thesis
    using scan_xex_helpers_finds_matches [of "replicate 8 []" tiny_layout ?code]
    by (simp only: fresh_map2 length_replicate)
qed

end
