(* ===== verification/Xex_Inspect.thy ===== *)
theory Xex_Inspect imports Xex_Imports Xex_Helpers begin

text \<open>
  The checked inspector of \<open>src/xex_inspect.cpp\<close>: the header checks made before the Xenia loader
  sees the file, the import parser that reads the descriptor from the file and the records from the
  loaded image, and \<open>InspectXex\<close>. The loader is a parameter (\<open>xenia_loader\<close>): what it answers, and
  the memory it maps for the loaded image. Every read of the file and of the image is checked.
\<close>

section \<open>The fixed and optional headers\<close>

record optional_header =
  opt_key :: u32
  opt_value :: u32
  opt_offset :: nat
  opt_inline_value :: bool

record header_geometry =
  hdr_size :: nat
  hdr_count :: u32

record image_bounds =
  bnd_base :: u32
  bnd_size :: nat

definition k_xex2 :: u32 where "k_xex2 = 0x58455832"
definition k_xex_header_prefix :: nat where "k_xex_header_prefix = 0x18"
definition k_security_prefix :: nat where "k_security_prefix = 0x184"
definition k_page_descriptor_size :: nat where "k_page_descriptor_size = 0x18"
definition k_file_format_minimum :: nat where "k_file_format_minimum = 0x14"
definition k_import_header_minimum :: nat where "k_import_header_minimum = 0x0C"
definition k_import_library_minimum :: nat where "k_import_library_minimum = 0x28"

lemmas xex_constants = k_xex_header_prefix_def k_security_prefix_def k_page_descriptor_size_def
  k_file_format_minimum_def k_import_header_minimum_def k_import_library_minimum_def

text \<open>The inner option is the result, the outer one the reads.\<close>

fun find_optional_from ::
  "bytes \<Rightarrow> u32 \<Rightarrow> header_geometry \<Rightarrow> nat list \<Rightarrow> optional_header option option" where
  "find_optional_from xex key header [] = Some None"
| "find_optional_from xex key header (index # rest) =
     (let offset = k_xex_header_prefix + index * 8 in
      if \<not> has_bytes xex offset 8 then Some None
      else do {
        candidate \<leftarrow> read_u32_be xex offset;
        if candidate \<noteq> key then find_optional_from xex key header rest
        else do {
          value \<leftarrow> read_u32_be xex (offset + 4);
          if key AND 0xFF = 0 \<or> key AND 0xFF = 1
          then Some (Some \<lparr>opt_key = key, opt_value = value, opt_offset = offset + 4,
            opt_inline_value = True\<rparr>)
          else if unat value \<ge> hdr_size header \<or> \<not> has_bytes xex (unat value) 4
          then Some None
          else Some (Some \<lparr>opt_key = key, opt_value = value, opt_offset = unat value,
            opt_inline_value = False\<rparr>) } })"

definition find_optional :: "bytes \<Rightarrow> u32 \<Rightarrow> header_geometry \<Rightarrow> optional_header option option" where
  "find_optional xex key header = find_optional_from xex key header [0..<unat (hdr_count header)]"

text \<open>The file-format descriptor, the last part of \<open>ValidateHeader\<close>.\<close>

definition validate_file_format :: "bytes \<Rightarrow> header_geometry \<Rightarrow> unit parse" where
  "validate_file_format xex header = do {
     file_format \<leftarrow> find_optional xex 0x000003FF header;
     case file_format of
       None \<Rightarrow> xex_fail ''XEX has no complete file-format descriptor''
     | Some format \<Rightarrow>
       let at = opt_offset format in
       if opt_inline_value format \<or> \<not> has_bytes xex at k_file_format_minimum
       then xex_fail ''XEX has no complete file-format descriptor''
       else do {
       file_info_size \<leftarrow> read_u32_be xex at;
       if unat file_info_size < k_file_format_minimum \<or> unat file_info_size > hdr_size header - at
       then xex_fail ''XEX file-format descriptor exceeds the header''
       else do {
       encryption \<leftarrow> read_u16_be xex (at + 4);
       compression \<leftarrow> read_u16_be xex (at + 6);
       if encryption > 1 \<or> compression > 2
       then xex_fail ''XEX uses an unsupported encryption or compression mode''
       else do {
       window \<leftarrow> if compression = 2 then read_u32_be xex (at + 8) else Some 1;
       if window = 0
       then xex_fail ''XEX normal compression has no LZX window''
       else if hdr_size header = length xex
       then xex_fail ''XEX has no encrypted or compressed image payload''
       else if encryption = 1 \<and> (length xex - hdr_size header) mod 16 \<noteq> 0
       then xex_fail ''XEX encrypted image payload is not AES-block aligned''
       else Some (Inr ()) } } } }"

definition validate_security :: "bytes \<Rightarrow> nat \<Rightarrow> unit parse" where
  "validate_security xex security_offset =
     (if \<not> has_bytes xex security_offset k_security_prefix
      then xex_fail ''XEX security header is truncated''
      else do {
      security_header_size \<leftarrow> read_u32_be xex security_offset;
      page_count \<leftarrow> read_u32_be xex (security_offset + 0x180);
      let descriptor_bytes = unat page_count * k_page_descriptor_size;
      if unat security_header_size < k_security_prefix
        \<or> descriptor_bytes > (2 ^ 64 - 1) - k_security_prefix
        \<or> \<not> has_bytes xex security_offset (k_security_prefix + descriptor_bytes)
        \<or> unat security_header_size > length xex - security_offset
      then xex_fail ''XEX security page descriptors exceed the source bytes''
      else do {
      image_size \<leftarrow> read_u32_be xex (security_offset + 4);
      load_address \<leftarrow> read_u32_be xex (security_offset + 0x110);
      if image_size = 0 \<or> load_address = 0 \<or> unat load_address + unat image_size > 2 ^ 32
      then xex_fail ''XEX security image geometry is invalid''
      else Some (Inr ()) } })"

definition validate_header :: "bytes \<Rightarrow> (header_geometry \<times> nat) parse" where
  "validate_header xex =
     (if \<not> has_bytes xex 0 k_xex_header_prefix
      then xex_fail ''XEX is shorter than its fixed header''
      else do {
      magic \<leftarrow> read_u32_be xex 0;
      if magic \<noteq> k_xex2
      then xex_fail ''only XEX2 is accepted by the checked inspector''
      else do {
      header_size \<leftarrow> read_u32_be xex 8;
      security_offset \<leftarrow> read_u32_be xex 0x10;
      header_count \<leftarrow> read_u32_be xex 0x14;
      let header = \<lparr>hdr_size = unat header_size, hdr_count = header_count\<rparr>;
      if hdr_size header < k_xex_header_prefix \<or> hdr_size header > length xex
        \<or> unat header_count > (hdr_size header - k_xex_header_prefix) div 8
      then xex_fail ''XEX optional-header table exceeds the source bytes''
      else do {
      security \<leftarrow> validate_security xex (unat security_offset);
      case security of Inl e \<Rightarrow> Some (Inl e) | Inr _ \<Rightarrow> do {
      format \<leftarrow> validate_file_format xex header;
      case format of Inl e \<Rightarrow> Some (Inl e)
      | Inr _ \<Rightarrow> Some (Inr (header, unat security_offset)) } } } })"

section \<open>Imports\<close>

record xex_import =
  xim_kind :: import_kind
  xim_library :: string
  xim_ordinal :: u32
  xim_name :: string
  xim_address :: guest_address
  xim_record_address :: guest_address

record raw_import =
  raw_ordinal :: u32
  raw_address :: u32
  raw_value :: u32
  raw_type :: u32

definition ordinal_name :: "u32 \<Rightarrow> string" where
  "ordinal_name ordinal = ''ordinal_'' @
     map (\<lambda>shift. hex_digits ! unat (drop_bit shift ordinal AND 0xF)) [28, 24, 20, 16, 12, 8, 4, 0]"

definition in_image :: "u32 \<Rightarrow> image_bounds \<Rightarrow> nat \<Rightarrow> bool" where
  "in_image address bounds count =
     (if address < bnd_base bounds then False
      else let offset = unat address - unat (bnd_base bounds)
        in offset \<le> bnd_size bounds \<and> count \<le> bnd_size bounds - offset)"

definition write_u32_le :: "bytes \<Rightarrow> nat \<Rightarrow> u32 \<Rightarrow> bytes option" where
  "write_u32_le bs offset value = do {
     bs \<leftarrow> put_byte bs offset (ucast (value AND 0xFF));
     bs \<leftarrow> put_byte bs (offset + 1) (ucast (drop_bit 8 value AND 0xFF));
     bs \<leftarrow> put_byte bs (offset + 2) (ucast (drop_bit 16 value AND 0xFF));
     put_byte bs (offset + 3) (ucast (drop_bit 24 value AND 0xFF)) }"

definition function_stub :: bytes where
  "function_stub = [0x60, 0, 0, 0, 0x60, 0, 0, 0, 0x60, 0, 0, 0, 0x4E, 0x80, 0, 0x20]"

definition normalize_function_stub :: "bytes \<Rightarrow> nat \<Rightarrow> bytes option" where
  "normalize_function_stub img offset = put_bytes img offset function_stub"

definition image_offset :: "image_bounds \<Rightarrow> u32 \<Rightarrow> nat" where
  "image_offset bounds address = unat (address - bnd_base bounds)"

fun raw_imports_loop ::
  "bytes \<Rightarrow> bytes \<Rightarrow> image_bounds \<Rightarrow> nat \<Rightarrow> nat list \<Rightarrow> raw_import list \<Rightarrow> raw_import list parse" where
  "raw_imports_loop header img bounds cursor [] raws = Some (Inr raws)"
| "raw_imports_loop header img bounds cursor (index # rest) raws = do {
     entry \<leftarrow> read_u32_be header (cursor + 0x28 + index * 4);
     if entry = 0 \<or> entry AND 3 \<noteq> 0 \<or> \<not> in_image entry bounds 4
     then xex_fail ''XEX import record points outside the loaded image''
     else do {
     value \<leftarrow> read_u32_be img (image_offset bounds entry);
     let raw = \<lparr>raw_ordinal = value AND 0xFFFF, raw_address = entry, raw_value = value,
       raw_type = drop_bit 24 value\<rparr>;
     if raw_type raw \<noteq> 0 \<and> raw_type raw \<noteq> 1
     then xex_fail ''XEX import records have an unsupported or unpaired type''
     else raw_imports_loop header img bounds cursor rest (raws @ [raw]) } }"

definition function_import :: "string \<Rightarrow> raw_import \<Rightarrow> raw_import \<Rightarrow> xex_import" where
  "function_import library variable thunk =
     \<lparr>xim_kind = Function, xim_library = library, xim_ordinal = raw_ordinal thunk,
      xim_name = ordinal_name (raw_ordinal thunk), xim_address = raw_address thunk,
      xim_record_address = raw_address variable\<rparr>"

definition variable_import :: "string \<Rightarrow> raw_import \<Rightarrow> xex_import" where
  "variable_import library variable =
     \<lparr>xim_kind = Variable, xim_library = library, xim_ordinal = raw_ordinal variable,
      xim_name = ordinal_name (raw_ordinal variable), xim_address = raw_address variable,
      xim_record_address = raw_address variable\<rparr>"

text \<open>A variable record, alone or with the function thunk next to it.\<close>

function pair_imports ::
  "string \<Rightarrow> image_bounds \<Rightarrow> raw_import list \<Rightarrow> bytes \<Rightarrow> xex_import list \<Rightarrow>
   (bytes \<times> xex_import list) parse" where
  "pair_imports library bounds [] img imports = Some (Inr (img, imports))"
| "pair_imports library bounds (variable # rest) img imports =
     (if raw_type variable \<noteq> 0
      then xex_fail ''XEX function thunk lacks an adjacent variable record''
      else do {
      img \<leftarrow> write_u32_le img (image_offset bounds (raw_address variable)) (raw_value variable);
      if rest \<noteq> [] \<and> raw_type (hd rest) = 1
      then let thunk = hd rest in
        if raw_ordinal thunk \<noteq> raw_ordinal variable \<or> \<not> in_image (raw_address thunk) bounds 16
        then xex_fail ''XEX adjacent import record and function thunk disagree''
        else do {
        img \<leftarrow> normalize_function_stub img (image_offset bounds (raw_address thunk));
        pair_imports library bounds (tl rest) img
          (imports @ [function_import library variable thunk]) }
      else pair_imports library bounds rest img (imports @ [variable_import library variable]) })"
  by pat_completeness auto
termination by (relation "measure (\<lambda>(_, _, raws, _). length raws)") auto

fun library_loop ::
  "bytes \<Rightarrow> image_bounds \<Rightarrow> nat \<Rightarrow> string list \<Rightarrow> nat \<Rightarrow> nat \<Rightarrow> bytes \<Rightarrow> xex_import list \<Rightarrow>
   (nat \<times> bytes \<times> xex_import list) parse" where
  "library_loop header bounds descriptor_end names 0 cursor img imports =
     Some (Inr (cursor, img, imports))"
| "library_loop header bounds descriptor_end names (Suc count) cursor img imports =
     (if \<not> has_bytes header cursor k_import_library_minimum
        \<or> cursor + k_import_library_minimum > descriptor_end
      then xex_fail ''XEX import-library record is truncated''
      else do {
      library_size \<leftarrow> read_u32_be header cursor;
      name_index \<leftarrow> read_u16_be header (cursor + 0x24);
      import_count \<leftarrow> read_u16_be header (cursor + 0x26);
      let table_bytes = unat import_count * 4;
      if unat library_size < k_import_library_minimum \<or> table_bytes > unat library_size - 0x28
        \<or> unat library_size > descriptor_end - cursor \<or> unat name_index \<ge> length names
      then xex_fail ''XEX import-library record has invalid bounds''
      else do {
      raws \<leftarrow> raw_imports_loop header img bounds cursor [0..<unat import_count] [];
      case raws of Inl e \<Rightarrow> Some (Inl e) | Inr raws \<Rightarrow> do {
      paired \<leftarrow> pair_imports (names ! unat name_index) bounds raws img imports;
      case paired of Inl e \<Rightarrow> Some (Inl e)
      | Inr (img, imports) \<Rightarrow>
          library_loop header bounds descriptor_end names count (cursor + unat library_size)
            img imports } } })"

definition parse_import_descriptor ::
  "bytes \<Rightarrow> bytes \<Rightarrow> header_geometry \<Rightarrow> image_bounds \<Rightarrow> nat \<Rightarrow> (bytes \<times> xex_import list) parse" where
  "parse_import_descriptor header img geometry bounds offset = do {
     option_size \<leftarrow> read_u32_be header offset;
     string_size \<leftarrow> read_u32_be header (offset + 4);
     library_count \<leftarrow> read_u32_be header (offset + 8);
     if unat option_size < k_import_header_minimum
       \<or> unat option_size > hdr_size geometry - offset
       \<or> unat string_size > unat option_size - k_import_header_minimum \<or> library_count = 0
     then xex_fail ''XEX import-library string table is invalid''
     else let string_offset = offset + k_import_header_minimum;
       library_offset = string_offset + unat string_size;
       descriptor_end = offset + unat option_size in
     if library_offset > descriptor_end
     then xex_fail ''XEX import-library table starts outside its descriptor''
     else do {
     names \<leftarrow> parse_import_library_names header
       \<lparr>tab_string_offset = string_offset, tab_string_size = string_size,
        tab_library_count = library_count\<rparr>;
     case names of Inl e \<Rightarrow> Some (Inl e) | Inr names \<Rightarrow> do {
     r \<leftarrow> library_loop header bounds descriptor_end names (unat library_count) library_offset img [];
     case r of Inl e \<Rightarrow> Some (Inl e)
     | Inr (cursor, img, imports) \<Rightarrow>
         if cursor \<noteq> descriptor_end
         then xex_fail ''XEX import-library descriptor has trailing or overlapping bytes''
         else Some (Inr (img, imports)) } } }"

definition parse_imports ::
  "bytes \<Rightarrow> bytes \<Rightarrow> header_geometry \<Rightarrow> image_bounds \<Rightarrow> (bytes \<times> xex_import list) parse" where
  "parse_imports header img geometry bounds = do {
     import_header \<leftarrow> find_optional header 0x000103FF geometry;
     case import_header of
       None \<Rightarrow> xex_fail ''XEX has no complete import-library descriptor''
     | Some found \<Rightarrow>
         if opt_inline_value found \<or> \<not> has_bytes header (opt_offset found) k_import_header_minimum
         then xex_fail ''XEX has no complete import-library descriptor''
         else parse_import_descriptor header img geometry bounds (opt_offset found) }"

section \<open>Every read and write is checked\<close>

lemma find_optional_from_defined [safe_reads]: "defined (find_optional_from xex key header indices)"
  by (induction indices) (simp_all add: Let_def has_bytes_iff)

lemma find_optional_defined [safe_reads]: "defined (find_optional xex key header)"
  by (simp add: find_optional_def safe_reads)

lemma find_optional_from_found:
  "find_optional_from xex key header indices = Some (Some found) \<Longrightarrow> \<not> opt_inline_value found \<Longrightarrow>
   opt_offset found < hdr_size header"
  by (induction indices) (auto simp: Let_def split: if_splits elim!: bind_eq_SomeE)

lemma find_optional_found:
  "find_optional xex key header = Some (Some found) \<Longrightarrow> \<not> opt_inline_value found \<Longrightarrow>
   opt_offset found < hdr_size header"
  unfolding find_optional_def by (rule find_optional_from_found)

lemma validate_file_format_defined [safe_reads]: "defined (validate_file_format xex header)"
  by (auto simp: validate_file_format_def safe_reads has_bytes_iff xex_constants Let_def
      split: option.split)

lemma validate_security_defined [safe_reads]: "defined (validate_security xex at)"
  by (simp add: validate_security_def has_bytes_iff xex_constants Let_def)

lemma validate_header_defined [safe_reads]: "defined (validate_header xex)"
  by (auto simp: validate_header_def has_bytes_iff xex_constants Let_def safe_reads
      split: sum.split)

lemma validate_header_ok:
  "validate_header xex = Some (Inr (header, at)) \<Longrightarrow>
   k_xex_header_prefix \<le> hdr_size header \<and> hdr_size header < length xex"
  by (auto simp: validate_header_def validate_file_format_def xex_fail_def Let_def
      split: if_splits option.splits elim!: bind_eq_SomeE)

lemma in_image_iff:
  "in_image address bounds count \<longleftrightarrow>
     bnd_base bounds \<le> address \<and> image_offset bounds address + count \<le> bnd_size bounds"
  by (auto simp: in_image_def image_offset_def Let_def unat_sub not_less)

lemma write_u32_le_eq [byte_simps]:
  "offset + 4 \<le> length bs \<Longrightarrow> \<exists>ys. length ys = 4 \<and> write_u32_le bs offset v = Some (overwrite bs offset ys)"
  by (intro exI [of _ "[ucast (v AND 0xFF), ucast (drop_bit 8 v AND 0xFF),
      ucast (drop_bit 16 v AND 0xFF), ucast (drop_bit 24 v AND 0xFF)]"])
    (auto simp: write_u32_le_def byte_simps overwrite_nth nth_list_update
      less_Suc_eq numeral_eq_Suc nth_Cons split: nat.split intro!: nth_equalityI)

definition raw_ok :: "image_bounds \<Rightarrow> raw_import \<Rightarrow> bool" where
  "raw_ok bounds raw \<longleftrightarrow>
     raw_address raw \<noteq> 0 \<and> 4 dvd unat (raw_address raw) \<and> in_image (raw_address raw) bounds 4
     \<and> unat (raw_ordinal raw) < 65536 \<and> (raw_type raw = 0 \<or> raw_type raw = 1)"

lemma ordinal_less: "unat (value AND 0xFFFF :: u32) < 65536"
proof -
  have "value AND 0xFFFF = take_bit 16 value"
    by (simp add: take_bit_eq_mask mask_eq_exp_minus_1 and.commute)
  then show ?thesis
    using take_bit_nat_less_exp [of 16 "unat value"] by (simp add: unsigned_take_bit_eq)
qed

lemma raw_imports_loop_defined [safe_reads]:
  "(\<And>i. i \<in> set indices \<Longrightarrow> cursor + 0x28 + i * 4 + 4 \<le> length header) \<Longrightarrow>
   bnd_size bounds \<le> length img \<Longrightarrow> defined (raw_imports_loop header img bounds cursor indices raws)"
  by (induction indices arbitrary: raws) (simp_all add: in_image_iff Let_def)

lemma raw_imports_loop_ok:
  "raw_imports_loop header img bounds cursor indices raws = Some (Inr result) \<Longrightarrow>
   list_all (raw_ok bounds) raws \<Longrightarrow> list_all (raw_ok bounds) result"
  by (induction indices arbitrary: raws)
    (auto simp: raw_ok_def Let_def xex_fail_def ordinal_less and_3_eq_0_iff
      split: if_splits elim!: bind_eq_SomeE)

text \<open>What every parsed import satisfies.\<close>

definition xex_import_ok :: "image_bounds \<Rightarrow> xex_import \<Rightarrow> bool" where
  "xex_import_ok bounds import \<longleftrightarrow>
     xim_record_address import \<noteq> 0 \<and> 4 dvd unat (xim_record_address import)
     \<and> in_image (xim_record_address import) bounds 4
     \<and> unat (xim_ordinal import) < 65536 \<and> xim_name import = ordinal_name (xim_ordinal import)
     \<and> (case xim_kind import of
          Function \<Rightarrow> 4 dvd unat (xim_address import) \<and> in_image (xim_address import) bounds 16
        | Variable \<Rightarrow> xim_address import = xim_record_address import)"

definition rewritten :: "image_bounds \<Rightarrow> xex_import list \<Rightarrow> nat \<Rightarrow> bool" where
  "rewritten bounds imports i \<longleftrightarrow>
     (\<exists>import\<in>set imports.
        image_offset bounds (xim_record_address import) \<le> i
          \<and> i < image_offset bounds (xim_record_address import) + 4
      \<or> xim_kind import = Function \<and> image_offset bounds (xim_address import) \<le> i
          \<and> i < image_offset bounds (xim_address import) + 16)"

text \<open>A parse that keeps its contract from one state of the image and the imports to the next.\<close>

definition import_step ::
  "image_bounds \<Rightarrow> bytes \<Rightarrow> xex_import list \<Rightarrow> bytes \<Rightarrow> xex_import list \<Rightarrow> bool" where
  "import_step bounds img imports img' imports' \<longleftrightarrow>
     length img' = length img \<and> (\<exists>more. imports' = imports @ more)
     \<and> (list_all (xex_import_ok bounds) imports \<longrightarrow> list_all (xex_import_ok bounds) imports')
     \<and> (\<forall>i<length img. \<not> rewritten bounds imports' i \<longrightarrow> img' ! i = img ! i)"

lemma rewritten_append:
  "rewritten bounds (xs @ ys) i \<longleftrightarrow> rewritten bounds xs i \<or> rewritten bounds ys i"
  by (auto simp: rewritten_def)

lemma import_step_refl: "import_step bounds img imports img imports"
  by (simp add: import_step_def)

lemma import_step_trans:
  "import_step bounds img imports img' imports' \<Longrightarrow> import_step bounds img' imports' img'' imports'' \<Longrightarrow>
   import_step bounds img imports img'' imports''"
  by (auto simp: import_step_def rewritten_append)

lemma function_stub_length [simp]: "length function_stub = 16"
  by (simp add: function_stub_def)

lemma normalize_function_stub_eq [byte_simps]:
  "offset + 16 \<le> length img \<Longrightarrow>
   normalize_function_stub img offset = Some (overwrite img offset function_stub)"
  by (simp add: normalize_function_stub_def byte_simps)

lemma variable_step:
  assumes "raw_ok bounds variable" and "length img = bnd_size bounds" and "length ys = 4"
  shows "import_step bounds img imports
    (overwrite img (image_offset bounds (raw_address variable)) ys)
    (imports @ [variable_import library variable])"
  using assms
  by (auto simp: import_step_def raw_ok_def in_image_iff xex_import_ok_def variable_import_def
      rewritten_def overwrite_nth)

lemma function_step:
  assumes "raw_ok bounds variable" and "raw_ok bounds thunk" and "length img = bnd_size bounds"
    and "length ys = 4" and "in_image (raw_address thunk) bounds 16"
  shows "import_step bounds img imports
    (overwrite (overwrite img (image_offset bounds (raw_address variable)) ys)
      (image_offset bounds (raw_address thunk)) function_stub)
    (imports @ [function_import library variable thunk])"
  using assms
  by (auto simp: import_step_def raw_ok_def in_image_iff xex_import_ok_def function_import_def
      rewritten_def overwrite_nth)

text \<open>Walks that are defined and keep \<open>import_step\<close> compose.\<close>

definition imports_walk ::
  "image_bounds \<Rightarrow> bytes \<Rightarrow> xex_import list \<Rightarrow> (bytes \<times> xex_import list) parse \<Rightarrow> bool" where
  "imports_walk bounds img imports r \<longleftrightarrow> defined r \<and>
     (\<forall>img' imports'. r = Some (Inr (img', imports')) \<longrightarrow> import_step bounds img imports img' imports')"

lemma imports_walk_fail [simp]: "imports_walk bounds img imports (xex_fail message)"
  by (simp add: imports_walk_def xex_fail_def)

lemma imports_walk_refused [simp]: "imports_walk bounds img imports (Some (Inl e))"
  by (simp add: imports_walk_def)

lemma imports_walk_done [simp]: "imports_walk bounds img imports (Some (Inr (img, imports)))"
  by (simp add: imports_walk_def import_step_refl)

lemma imports_walk_after:
  "import_step bounds img imports img' imports' \<Longrightarrow> imports_walk bounds img' imports' r \<Longrightarrow>
   imports_walk bounds img imports r"
  by (auto simp: imports_walk_def intro: import_step_trans)

lemma import_step_length: "import_step bounds img imports img' imports' \<Longrightarrow> length img' = length img"
  by (simp add: import_step_def)

lemma pair_imports_walk:
  "list_all (raw_ok bounds) raws \<Longrightarrow> length img = bnd_size bounds \<Longrightarrow>
   imports_walk bounds img imports (pair_imports library bounds raws img imports)"
proof (induction library bounds raws img "imports" rule: pair_imports.induct)
  case (2 library bounds variable rest img "imports")
  let ?at = "image_offset bounds (raw_address variable)"
  have "raw_ok bounds variable" "list_all (raw_ok bounds) rest" using "2.prems" by simp_all
  moreover from this have "?at + 4 \<le> length img"
    using "2.prems" by (simp add: raw_ok_def in_image_iff)
  ultimately have fits: "raw_ok bounds variable" "?at + 4 \<le> length img"
    "list_all (raw_ok bounds) rest" by simp_all
  then obtain ys where ys: "length ys = 4"
      "write_u32_le img ?at (raw_value variable) = Some (overwrite img ?at ys)"
    using write_u32_le_eq [of ?at img] by blast
  show ?case
  proof (cases "rest \<noteq> [] \<and> raw_type (hd rest) = 1")
    case True
    with fits have thunk: "raw_ok bounds (hd rest)" "list_all (raw_ok bounds) (tl rest)"
      by (cases rest; simp)+
    show ?thesis
    proof (cases "in_image (raw_address (hd rest)) bounds 16")
      case inside: True
      note step = function_step [OF fits(1) thunk(1) "2.prems"(2) ys(1) inside]
      from inside have "image_offset bounds (raw_address (hd rest)) + 16
          \<le> length (overwrite img ?at ys)"
        using fits ys "2.prems"(2) by (simp add: in_image_iff)
      then show ?thesis
        using True fits ys thunk(2) "2.prems"(2) import_step_length [OF step] inside
        by (simp add: Let_def byte_simps imports_walk_after [OF step "2.IH"(1)])
    qed (use True ys in \<open>simp add: Let_def\<close>)
  next
    case False
    note step = variable_step [OF fits(1) "2.prems"(2) ys(1)]
    show ?thesis
      using False fits ys "2.prems"(2) import_step_length [OF step]
      by (auto intro!: imports_walk_after [OF step "2.IH"(2)]
          imports_walk_after [OF step imports_walk_done])
  qed
qed simp


lemma imports_walk_bind:
  assumes "imports_walk bounds img imports m"
    and "\<And>img' imports'. length img' = length img \<Longrightarrow> imports_walk bounds img' imports' (f img' imports')"
  shows "imports_walk bounds img imports
    (do { r \<leftarrow> m; case r of Inl e \<Rightarrow> Some (Inl e) | Inr (img, imports) \<Rightarrow> f img imports })"
proof (cases "\<exists>img' imports'. m = Some (Inr (img', imports'))")
  case True
  then obtain img' imports' where m: "m = Some (Inr (img', imports'))" by blast
  with assms(1) have step: "import_step bounds img imports img' imports'"
    by (simp add: imports_walk_def)
  from imports_walk_after [OF step assms(2) [OF import_step_length [OF step]]] m
  show ?thesis by simp
next
  case False
  with assms(1) obtain e where "m = Some (Inl e)"
    by (cases m) (auto simp: imports_walk_def split: sum.splits, metis obj_sumE old.prod.exhaust)
  then show ?thesis by (simp add: imports_walk_def)
qed

lemma raws_walk:
  assumes "cursor + 0x28 + 4 * count \<le> length header" and "length img = bnd_size bounds"
    and "\<And>raws. list_all (raw_ok bounds) raws \<Longrightarrow> imports_walk bounds img imports (f raws)"
  shows "imports_walk bounds img imports (do {
    r \<leftarrow> raw_imports_loop header img bounds cursor [0..<count] [];
    case r of Inl e \<Rightarrow> Some (Inl e) | Inr raws \<Rightarrow> f raws })"
proof -
  have "defined (raw_imports_loop header img bounds cursor [0..<count] [])"
    using assms(1,2) by (intro raw_imports_loop_defined) auto
  then obtain r where r: "raw_imports_loop header img bounds cursor [0..<count] [] = Some r"
    by (auto simp: defined_iff)
  then show ?thesis
    using assms(3) raw_imports_loop_ok [of header img bounds cursor "[0..<count]" "[]"]
    by (cases r) (auto simp: imports_walk_def)
qed

lemma refusal_bind:
  "case_sum (\<lambda>e. Some (Inl e)) g y \<bind> h' =
     (case y of Inl e \<Rightarrow> Some (Inl e) \<bind> h' | Inr x \<Rightarrow> g x \<bind> h')"
  by (cases y) simp_all

text \<open>The library loop, with what its caller does with the last cursor.\<close>

lemma library_loop_walk:
  assumes "descriptor_end \<le> length header" and "length img = bnd_size bounds"
    and "\<And>cursor img' imports'. length img' = bnd_size bounds \<Longrightarrow>
      imports_walk bounds img' imports' (f cursor img' imports')"
  shows "imports_walk bounds img imports (do {
    r \<leftarrow> library_loop header bounds descriptor_end names count cursor img imports;
    case r of Inl e \<Rightarrow> Some (Inl e) | Inr (cursor, img, imports) \<Rightarrow> f cursor img imports })"
  using assms
proof (induction count arbitrary: cursor img "imports")
  case 0
  then show ?case by simp
next
  case (Suc count)
  show ?case
  proof (cases "cursor + 0x28 \<le> length header \<and> cursor + 0x28 \<le> descriptor_end")
    case True
    then have "defined (read_u32_be header cursor)" "defined (read_u16_be header (cursor + 0x24))"
        "defined (read_u16_be header (cursor + 0x26))" by simp_all
    then obtain size ni n where reads: "read_u32_be header cursor = Some size"
        "read_u16_be header (cursor + 0x24) = Some ni" "read_u16_be header (cursor + 0x26) = Some n"
      by (auto simp: defined_iff)
    show ?thesis
    proof (cases "unat size < 0x28 \<or> unat n * 4 > unat size - 0x28
        \<or> unat size > descriptor_end - cursor \<or> unat ni \<ge> length names")
      case False
      then have inside: "cursor + 0x28 + 4 * unat n \<le> length header"
        using True Suc.prems(1) by linarith
      have "imports_walk bounds img imports (do {
          r \<leftarrow> raw_imports_loop header img bounds cursor [0..<unat n] [];
          case r of Inl e \<Rightarrow> Some (Inl e) | Inr raws \<Rightarrow> do {
          r \<leftarrow> pair_imports (names ! unat ni) bounds raws img imports;
          case r of Inl e \<Rightarrow> Some (Inl e) | Inr (img, imports) \<Rightarrow> do {
          r \<leftarrow> library_loop header bounds descriptor_end names count (cursor + unat size) img imports;
          case r of Inl e \<Rightarrow> Some (Inl e) | Inr (cursor, img, imports) \<Rightarrow> f cursor img imports } } })"
      proof (intro raws_walk imports_walk_bind pair_imports_walk inside Suc.prems(2))
        fix img' :: bytes and imports' assume "length img' = length img"
        then show "imports_walk bounds img' imports' (do {
            r \<leftarrow> library_loop header bounds descriptor_end names count (cursor + unat size) img' imports';
            case r of Inl e \<Rightarrow> Some (Inl e) | Inr (cursor, img, imports) \<Rightarrow> f cursor img imports })"
          using Suc.prems by (intro Suc.IH) simp_all
      qed
      with True False reads show ?thesis
        by (simp add: has_bytes_iff xex_constants Let_def not_less not_le refusal_bind
            prod.case_distrib [of "\<lambda>m. Option.bind m _"] cong: sum.case_cong)
    qed (use True reads in \<open>simp add: has_bytes_iff xex_constants\<close>)
  qed (auto simp: has_bytes_iff xex_constants)
qed


lemma parse_import_descriptor_walk:
  assumes "has_bytes header offset 12" and "hdr_size geometry \<le> length header"
    and "offset < hdr_size geometry" and "length img = bnd_size bounds"
  shows "imports_walk bounds img [] (parse_import_descriptor header img geometry bounds offset)"
proof -
  have "defined (read_u32_be header offset)" "defined (read_u32_be header (offset + 4))"
      "defined (read_u32_be header (offset + 8))" using assms(1) by (simp_all add: has_bytes_iff)
  then obtain size strings count where reads: "read_u32_be header offset = Some size"
      "read_u32_be header (offset + 4) = Some strings" "read_u32_be header (offset + 8) = Some count"
    by (auto simp: defined_iff)
  let ?table = "\<lparr>tab_string_offset = offset + 12, tab_string_size = strings, tab_library_count = count\<rparr>"
  show ?thesis
  proof (cases "unat size < 12 \<or> unat size > hdr_size geometry - offset \<or> unat strings > unat size - 12")
    case False
    then have inside: "offset + unat size \<le> length header" "12 + unat strings \<le> unat size"
      using assms(2,3) by linarith+
    then have "defined (parse_import_library_names header ?table)"
      by (intro parse_import_library_names_defined) simp
    then obtain names where "parse_import_library_names header ?table = Some names"
      by (auto simp: defined_iff)
    moreover have "imports_walk bounds img [] (do {
        r \<leftarrow> library_loop header bounds (offset + unat size) ns (unat count)
          (offset + 12 + unat strings) img [];
        case r of Inl e \<Rightarrow> Some (Inl e)
        | Inr (cursor, img, imports) \<Rightarrow>
            if cursor \<noteq> offset + unat size
            then xex_fail ''XEX import-library descriptor has trailing or overlapping bytes''
            else Some (Inr (img, imports)) })" for ns
      by (intro library_loop_walk inside assms(4)) simp
    ultimately show ?thesis
      using False inside reads
      by (cases names) (simp_all add: parse_import_descriptor_def xex_constants Let_def)
  qed (use reads in \<open>auto simp: parse_import_descriptor_def xex_constants Let_def\<close>)
qed

lemma parse_imports_walk:
  assumes "hdr_size geometry \<le> length header" and "length img = bnd_size bounds"
  shows "imports_walk bounds img [] (parse_imports header img geometry bounds)"
proof -
  have "defined (find_optional header 0x000103FF geometry)" by (rule find_optional_defined)
  then obtain found where "find_optional header 0x000103FF geometry = Some found"
    by (auto simp: defined_iff)
  then show ?thesis
    using assms find_optional_found [where header = geometry]
    by (auto simp: parse_imports_def xex_constants split: option.split
        intro!: parse_import_descriptor_walk)
qed

section \<open>InspectXex\<close>

record xex_execution_info =
  exe_title_id :: u32
  exe_media_id :: u32
  exe_version :: u32
  exe_base_version :: u32
  exe_platform :: byte
  exe_executable_table :: byte
  exe_disc_number :: byte
  exe_disc_count :: byte
  exe_savegame_id :: u32

record xex_inspection =
  ins_loaded_image :: bytes
  ins_execution :: xex_execution_info
  ins_image :: pe_image_layout
  ins_imports :: "xex_import list"
  ins_helpers :: "guest_address list list"

text \<open>
  The Xenia loader, as far as the inspector sees it: whether its memory and processor start, and
  for a file it loads the module's base, size, mapped bytes from the base on (\<open>TranslateVirtual\<close>)
  and execution metadata. What the inspector asks of it is recorded: a module that was loaded must
  be unloaded on every path.
\<close>

record loaded_module =
  ldm_base_address :: u32
  ldm_image_size :: u32
  ldm_translated :: "bytes option"
  ldm_execution_info :: "xex_execution_info option"

record xenia_loader =
  xen_memory_initialize :: bool
  xen_processor_setup :: bool
  xen_load :: "bytes \<Rightarrow> loaded_module option"

datatype module_event = Module_Load | Module_Unload

type_synonym inspection_run = "((string + xex_inspection) \<times> module_event list) option"

definition before_load :: "string \<Rightarrow> inspection_run" where
  "before_load message = Some (Inl message, [])"

definition after_load :: "string + xex_inspection \<Rightarrow> inspection_run" where
  "after_load r = Some (r, [Module_Load, Module_Unload])"

definition copy_memory :: "bytes \<Rightarrow> nat \<Rightarrow> bytes option" where
  "copy_memory memory n = (if n \<le> length memory then Some (take n memory) else None)"

definition inspect_loaded ::
  "bytes \<Rightarrow> header_geometry \<Rightarrow> loaded_module \<Rightarrow> inspection_run" where
  "inspect_loaded xex header module =
     (let base = ldm_base_address module; image_size = ldm_image_size module in
      if base = 0 \<or> image_size = 0 \<or> \<not> has_bytes xex 0 (hdr_size header)
      then after_load (Inl ''Xenia produced invalid loaded image geometry'')
      else case ldm_translated module of
        None \<Rightarrow> after_load (Inl ''Xenia did not expose the loaded guest image'')
      | Some loaded \<Rightarrow> do {
        img \<leftarrow> copy_memory loaded (unat image_size);
        case ldm_execution_info module of
          None \<Rightarrow> after_load (Inl ''XEX has no execution metadata'')
        | Some execution \<Rightarrow> do {
          r \<leftarrow> parse_imports (take (hdr_size header) xex) img header
            \<lparr>bnd_base = base, bnd_size = length img\<rparr>;
          case r of Inl e \<Rightarrow> after_load (Inl e)
          | Inr (img, imports) \<Rightarrow> do {
            described \<leftarrow> describe_loaded_pe_image img;
            case described of
              Inl e \<Rightarrow> after_load (Inl (''loaded XEX image is not a supported Xbox 360 PE: '' @ e))
            | Inr layout \<Rightarrow> do {
              helpers \<leftarrow> scan_xex_helpers layout img (replicate 8 []);
              after_load (Inr \<lparr>ins_loaded_image = img, ins_execution = execution,
                ins_image = layout, ins_imports = imports, ins_helpers = helpers\<rparr>) } } } })"

definition inspect_xex :: "xenia_loader \<Rightarrow> bytes \<Rightarrow> inspection_run" where
  "inspect_xex xenia xex = do {
     validated \<leftarrow> validate_header xex;
     case validated of Inl e \<Rightarrow> before_load e
     | Inr (header, security_offset) \<Rightarrow>
       if \<not> xen_memory_initialize xenia
       then before_load ''Xenia refused its guest address-space mapping''
       else if \<not> xen_processor_setup xenia
       then before_load ''Xenia refused the host dynarec backend''
       else (case xen_load xenia xex of
           None \<Rightarrow> before_load ''Xenia rejected the XEX after checked header validation''
         | Some module \<Rightarrow> inspect_loaded xex header module) }"

text \<open>What the loader documents: the bytes it maps cover the image size it reports.\<close>

definition maps_whole_image :: "xenia_loader \<Rightarrow> bool" where
  "maps_whole_image xenia \<longleftrightarrow>
     (\<forall>xex module loaded. xen_load xenia xex = Some module \<longrightarrow> ldm_translated module = Some loaded \<longrightarrow>
        unat (ldm_image_size module) \<le> length loaded)"

text \<open>The contract of an inspection: its image is the loader's but for the import records and the
  function thunks, its imports are well placed in it, and its layout and helpers describe it.\<close>

definition inspection_of :: "loaded_module \<Rightarrow> xex_inspection \<Rightarrow> bool" where
  "inspection_of module ins \<longleftrightarrow>
     (let img = ins_loaded_image ins;
          bounds = \<lparr>bnd_base = ldm_base_address module, bnd_size = unat (ldm_image_size module)\<rparr> in
      length img = unat (ldm_image_size module)
      \<and> (\<exists>loaded. ldm_translated module = Some loaded
          \<and> (\<forall>i<length img. \<not> rewritten bounds (ins_imports ins) i \<longrightarrow> img ! i = loaded ! i))
      \<and> list_all (xex_import_ok bounds) (ins_imports ins)
      \<and> layout_of img (ins_image ins)
      \<and> ins_helpers ins = map (helper_addresses (ins_image ins) img) helper_patterns
      \<and> Some (ins_execution ins) = ldm_execution_info module)"

definition run_ok :: "loaded_module \<Rightarrow> inspection_run \<Rightarrow> bool" where
  "run_ok module run \<longleftrightarrow>
     (case run of None \<Rightarrow> False
      | Some (r, events) \<Rightarrow> events = [Module_Load, Module_Unload]
          \<and> (case r of Inl _ \<Rightarrow> True | Inr ins \<Rightarrow> inspection_of module ins))"

lemma run_ok_refused [simp]: "run_ok module (after_load (Inl e))"
  by (simp add: run_ok_def after_load_def)

lemma inspect_loaded_ok:
  assumes "\<And>loaded. ldm_translated module = Some loaded \<Longrightarrow>
    unat (ldm_image_size module) \<le> length loaded"
  shows "run_ok module (inspect_loaded xex header module)"
proof (cases "ldm_base_address module = 0 \<or> ldm_image_size module = 0
    \<or> \<not> has_bytes xex 0 (hdr_size header)
    \<or> ldm_translated module = None \<or> ldm_execution_info module = None")
  case True
  then show ?thesis
    using assms by (auto simp: inspect_loaded_def Let_def copy_memory_def split: option.split)
next
  case False
  then obtain loaded execution where some: "ldm_translated module = Some loaded"
      "ldm_execution_info module = Some execution" by auto
  let ?n = "unat (ldm_image_size module)" and ?header = "take (hdr_size header) xex"
  let ?bounds = "\<lparr>bnd_base = ldm_base_address module, bnd_size = ?n\<rparr>"
  define img0 where "img0 = take ?n loaded"
  have n: "?n \<le> length loaded" using assms some by simp
  then have img0: "copy_memory loaded ?n = Some img0" "length img0 = ?n"
      "\<And>i. i < ?n \<Longrightarrow> img0 ! i = loaded ! i"
    by (simp_all add: copy_memory_def img0_def)
  have walk: "imports_walk ?bounds img0 [] (parse_imports ?header img0 header ?bounds)"
    using False img0 by (intro parse_imports_walk) (simp_all add: has_bytes_iff)
  then obtain r where r: "parse_imports ?header img0 header ?bounds = Some r"
    by (auto simp: imports_walk_def defined_iff)
  note run = inspect_loaded_def Let_def some img0 r
  show ?thesis
  proof (cases r)
    case (Inl e)
    with False show ?thesis by (simp add: run)
  next
    case (Inr p)
    obtain img' imports' where p: "p = (img', imports')" by (cases p)
    with r Inr walk have step: "import_step ?bounds img0 [] img' imports'"
      by (simp add: imports_walk_def)
    obtain d where d: "describe_loaded_pe_image img' = Some d"
      using describe_defined [of img'] by (auto simp: defined_iff)
    show ?thesis
    proof (cases d)
      case (Inl e)
      with d Inr p False show ?thesis by (simp add: run)
    next
      case layout: (Inr layout)
      with d have "layout_of img' layout" by (simp add: describe_ok)
      with step have "inspection_of module \<lparr>ins_loaded_image = img', ins_execution = execution,
          ins_image = layout, ins_imports = imports',
          ins_helpers = map (helper_addresses layout img') helper_patterns\<rparr>"
        using some img0 by (simp add: inspection_of_def import_step_def)
      with layout d Inr p False show ?thesis
        by (simp add: run fresh_helpers run_ok_def after_load_def)
    qed
  qed
qed

lemma inspect_xex_ok:
  assumes "maps_whole_image xenia"
  shows "case inspect_xex xenia xex of
      None \<Rightarrow> False
    | Some (r, events) \<Rightarrow>
        (events = [] \<and> (\<exists>e. r = Inl e)) \<or> (\<exists>module. xen_load xenia xex = Some module
          \<and> run_ok module (Some (r, events)))"
proof -
  obtain v where v: "validate_header xex = Some v"
    using validate_header_defined [of xex] by (auto simp: defined_iff)
  show ?thesis
  proof (cases "(\<exists>e. v = Inl e) \<or> \<not> xen_memory_initialize xenia \<or> \<not> xen_processor_setup xenia
      \<or> xen_load xenia xex = None")
    case True
    with v show ?thesis by (auto simp: inspect_xex_def before_load_def split: sum.split)
  next
    case False
    then obtain header at module where load: "v = Inr (header, at)" "xen_load xenia xex = Some module"
      by (cases v) auto
    then have "run_ok module (inspect_loaded xex header module)"
      using assms by (intro inspect_loaded_ok) (auto simp: maps_whole_image_def)
    moreover have "inspect_xex xenia xex = inspect_loaded xex header module"
      using v load False by (simp add: inspect_xex_def)
    ultimately show ?thesis
      using load by (cases "inspect_loaded xex header module") (auto simp: run_ok_def)
  qed
qed

section \<open>Names of ordinals\<close>

lemma hex_digits_props: "length hex_digits = 16" "distinct hex_digits"
  by (simp_all add: hex_digits_def)

lemma and_15: "(w :: u32) AND 0xF = take_bit 4 w"
  by (simp add: take_bit_eq_mask mask_eq_exp_minus_1 and.commute)

lemma nibble_less: "unat (w AND 0xF :: u32) < 16"
  using take_bit_nat_less_exp [of 4 "unat w"] by (simp add: and_15 unsigned_take_bit_eq)

lemma nibble_digit:
  "hex_digits ! unat (v AND 0xF :: u32) = hex_digits ! unat (w AND 0xF :: u32) \<longleftrightarrow> v AND 0xF = w AND 0xF"
  using hex_digits_props nibble_less by (simp add: nth_eq_iff_index_eq word_unat_eq_iff)

lemma bit_nibble: "bit (drop_bit (4 * k) (v :: u32) AND 0xF) j \<longleftrightarrow> j < 4 \<and> bit v (4 * k + j)"
  by (auto simp: and_15 bit_simps)

lemma ordinal_name_inject: "ordinal_name v = ordinal_name w \<longleftrightarrow> v = w"
proof
  assume "ordinal_name v = ordinal_name w"
  then have eq: "drop_bit s v AND 0xF = drop_bit s w AND 0xF"
    if "s \<in> set [28, 24, 20, 16, 12, 8, 4, 0]" for s
    using that by (auto simp: ordinal_name_def nibble_digit)
  show "v = w"
  proof (rule bit_word_eqI)
    fix n assume "n < LENGTH(32)"
    then have "4 * (n div 4) \<in> set [28, 24, 20, 16, 12, 8, 4, 0]" by simp presburger
    then have "bit (drop_bit (4 * (n div 4)) v AND 0xF) (n mod 4) =
        bit (drop_bit (4 * (n div 4)) w AND 0xF) (n mod 4)" by (simp only: eq)
    then show "bit v n = bit w n" by (simp add: bit_nibble)
  qed
qed simp

section \<open>What an accepted header promises\<close>

definition header_contract :: "bytes \<Rightarrow> header_geometry \<Rightarrow> nat \<Rightarrow> bool" where
  "header_contract xex header at \<longleftrightarrow>
     read_u32_be xex 0 = Some k_xex2
     \<and> k_xex_header_prefix + 8 * unat (hdr_count header) \<le> hdr_size header
     \<and> hdr_size header < length xex \<and> at + k_security_prefix \<le> length xex
     \<and> (\<exists>size load. read_u32_be xex (at + 4) = Some size \<and> read_u32_be xex (at + 0x110) = Some load
          \<and> size \<noteq> 0 \<and> load \<noteq> 0 \<and> unat load + unat size \<le> 2 ^ 32)
     \<and> (\<exists>format. find_optional xex 0x3FF header = Some (Some format)
          \<and> opt_offset format + k_file_format_minimum \<le> hdr_size header)"

lemma validate_security_ok:
  assumes "validate_security xex at = Some (Inr u)"
  shows "at + k_security_prefix \<le> length xex
    \<and> (\<exists>size load. read_u32_be xex (at + 4) = Some size \<and> read_u32_be xex (at + 0x110) = Some load
        \<and> size \<noteq> 0 \<and> load \<noteq> 0 \<and> unat load + unat size \<le> 2 ^ 32)"
  using assms
  by (auto simp: validate_security_def xex_fail_def Let_def has_bytes_iff not_less
      split: if_splits elim!: bind_eq_SomeE)

lemma validate_file_format_ok:
  assumes "validate_file_format xex header = Some (Inr u)"
  shows "\<exists>format. find_optional xex 0x3FF header = Some (Some format)
    \<and> opt_offset format + k_file_format_minimum \<le> hdr_size header \<and> hdr_size header \<noteq> length xex"
proof -
  from assms obtain format and info :: u32 where format: "find_optional xex 0x3FF header = Some (Some format)"
      "\<not> opt_inline_value format" "k_file_format_minimum \<le> unat info"
      "unat info \<le> hdr_size header - opt_offset format" "hdr_size header \<noteq> length xex"
    by (auto simp: validate_file_format_def xex_fail_def Let_def not_less
        split: if_splits option.splits elim!: bind_eq_SomeE)
  with find_optional_found [OF format(1,2)] show ?thesis by auto
qed

lemma validate_header_contract:
  assumes "validate_header xex = Some (Inr (header, at))"
  shows "header_contract xex header at"
proof -
  from assms have "read_u32_be xex 0 = Some k_xex2" "k_xex_header_prefix \<le> hdr_size header"
      "hdr_size header \<le> length xex"
      "unat (hdr_count header) \<le> (hdr_size header - k_xex_header_prefix) div 8"
    and "\<exists>u. validate_security xex at = Some (Inr u)"
    and "\<exists>u. validate_file_format xex header = Some (Inr u)"
    by (auto simp: validate_header_def xex_fail_def Let_def not_less
        split: if_splits elim!: bind_eq_SomeE)
  then show ?thesis
    by (auto simp: header_contract_def dest!: validate_security_ok validate_file_format_ok)
qed

section \<open>A sample file\<close>

text \<open>One import of \<open>xam.xex\<close>, a variable record at \<open>0x82000010\<close> of the sample image.\<close>

definition sample_xex :: bytes where
  "sample_xex =
     [0x58, 0x45, 0x58, 0x32, 0, 0, 0, 0, 0, 0, 0x02, 0x04, 0, 0, 0, 0, 0, 0, 0, 0x80, 0, 0, 0, 2]
     @ [0, 0, 3, 0xFF, 0, 0, 0, 0x28] @ [0, 1, 3, 0xFF, 0, 0, 0, 0x3C]
     @ [0, 0, 0, 0x14, 0, 0, 0, 0] @ replicate 12 0
     @ [0, 0, 0, 0x40, 0, 0, 0, 8, 0, 0, 0, 1] @ [0x78, 0x61, 0x6D, 0x2E, 0x78, 0x65, 0x78, 0]
     @ [0, 0, 0, 0x2C] @ replicate 32 0 @ [0, 0, 0, 1] @ [0x82, 0, 0, 0x10]
     @ replicate 4 0
     @ [0, 0, 1, 0x84, 0, 0, 1, 0x70] @ replicate 264 0 @ [0x82, 0, 0, 0] @ replicate 112 0
     @ replicate 16 0"

definition sample_execution :: xex_execution_info where
  "sample_execution = \<lparr>exe_title_id = 0x4D530001, exe_media_id = 1, exe_version = 2,
     exe_base_version = 3, exe_platform = 0, exe_executable_table = 0, exe_disc_number = 1,
     exe_disc_count = 1, exe_savegame_id = 0\<rparr>"

definition sample_loader :: xenia_loader where
  "sample_loader = \<lparr>xen_memory_initialize = True, xen_processor_setup = True,
     xen_load = (\<lambda>_. Some \<lparr>ldm_base_address = 0x82000000, ldm_image_size = 368,
       ldm_translated = Some sample_pe, ldm_execution_info = Some sample_execution\<rparr>)\<rparr>"

definition sample_inspection :: xex_inspection where
  "sample_inspection =
     \<lparr>ins_loaded_image = sample_pe, ins_execution = sample_execution, ins_image = sample_layout,
      ins_imports = [\<lparr>xim_kind = Variable, xim_library = ''xam.xex'', xim_ordinal = 0,
        xim_name = ordinal_name 0, xim_address = 0x82000010, xim_record_address = 0x82000010\<rparr>],
      ins_helpers = map (helper_addresses sample_layout sample_pe) helper_patterns\<rparr>"

lemma sample_xex_reads:
  "length sample_xex = 532" "read_u32_be sample_xex 0 = Some 0x58455832"
  "read_u32_be sample_xex 8 = Some 516" "read_u32_be sample_xex 16 = Some 128"
  "read_u32_be sample_xex 20 = Some 2"
  "read_u32_be sample_xex 24 = Some 0x3FF" "read_u32_be sample_xex 28 = Some 40"
  "read_u32_be sample_xex 40 = Some 20" "read_u16_be sample_xex 44 = Some 0"
  "read_u16_be sample_xex 46 = Some 0"
  "read_u32_be sample_xex 128 = Some 388" "read_u32_be sample_xex 132 = Some 368"
  "read_u32_be sample_xex 400 = Some 0x82000000" "read_u32_be sample_xex 512 = Some 0"
  by code_simp+

lemma sample_header_reads:
  "read_u32_be (take 516 sample_xex) 24 = Some 0x3FF" "read_u32_be (take 516 sample_xex) 32 = Some 0x103FF"
  "read_u32_be (take 516 sample_xex) 36 = Some 60"
  "read_u32_be (take 516 sample_xex) 60 = Some 64" "read_u32_be (take 516 sample_xex) 64 = Some 8"
  "read_u32_be (take 516 sample_xex) 68 = Some 1"
  "read_c_string (take 516 sample_xex) 72 80 = Some ''xam.xex''"
  "base_library_name ''xam.xex'' = ''xam.xex''"
  "read_u32_be (take 516 sample_xex) 80 = Some 44" "read_u16_be (take 516 sample_xex) 116 = Some 0"
  "read_u16_be (take 516 sample_xex) 118 = Some 1" "read_u32_be (take 516 sample_xex) 120 = Some 0x82000010"
  "read_u32_be sample_pe 16 = Some 0" "write_u32_le sample_pe 16 0 = Some sample_pe"
  by code_simp+


lemma sample_names:
  "parse_import_library_names (take 516 sample_xex)
     \<lparr>tab_string_offset = 72, tab_string_size = 8, tab_library_count = 1\<rparr> = Some (Inr [''xam.xex''])"
  by (simp add: parse_import_library_names_def sample_header_reads)

lemma sample_header_valid:
  "validate_header sample_xex = Some (Inr (\<lparr>hdr_size = 516, hdr_count = 2\<rparr>, 128))"
proof -
  have "find_optional sample_xex 0x3FF \<lparr>hdr_size = 516, hdr_count = 2\<rparr> = Some (Some
      \<lparr>opt_key = 0x3FF, opt_value = 40, opt_offset = 40, opt_inline_value = False\<rparr>)"
    by (simp add: find_optional_def upt_rec sample_xex_reads has_bytes_iff xex_constants)
  then show ?thesis
    by (simp add: validate_header_def validate_security_def validate_file_format_def sample_xex_reads
        has_bytes_iff xex_constants k_xex2_def Let_def)
qed

lemma sample_imports:
  "parse_imports (take 516 sample_xex) sample_pe \<lparr>hdr_size = 516, hdr_count = 2\<rparr>
     \<lparr>bnd_base = 0x82000000, bnd_size = 368\<rparr>
   = Some (Inr (sample_pe, ins_imports sample_inspection))"
proof -
  have "find_optional (take 516 sample_xex) 0x103FF \<lparr>hdr_size = 516, hdr_count = 2\<rparr> = Some (Some
      \<lparr>opt_key = 0x103FF, opt_value = 60, opt_offset = 60, opt_inline_value = False\<rparr>)"
    by (simp add: find_optional_def upt_rec sample_xex_reads sample_header_reads has_bytes_iff
        xex_constants)
  then show ?thesis
    by (simp add: parse_imports_def parse_import_descriptor_def sample_header_reads sample_names
        sample_xex_reads has_bytes_iff xex_constants in_image_def image_offset_def
        sample_inspection_def variable_import_def Let_def)
qed

lemma sample_inspected:
  "inspect_xex sample_loader sample_xex = Some (Inr sample_inspection, [Module_Load, Module_Unload])"
proof -
  have "copy_memory sample_pe 368 = Some sample_pe"
    by (simp add: copy_memory_def sample_pe_reads)
  then show ?thesis
    by (simp add: inspect_xex_def sample_header_valid sample_loader_def inspect_loaded_def
        sample_xex_reads has_bytes_iff sample_imports sample_pe_reads sample_pe_described
        fresh_helpers after_load_def)
      (simp add: sample_inspection_def)
qed

section \<open>Properties\<close>

text \<open>C6: with a loader that maps the whole image it reports, \<open>InspectXex\<close> never reads or writes
  outside the file and the image, unloads every module it loaded, and what it returns keeps its
  contract: the image differs from the loader's only in import records and function thunks, every
  import's record and thunk lie aligned inside the image, the layout describes the image, and the
  helpers are the matches of the patterns.\<close>

theorem inspect_xex_sound:
  assumes "maps_whole_image xenia"
  shows "case inspect_xex xenia xex of
      None \<Rightarrow> False
    | Some (r, events) \<Rightarrow>
        (events = [] \<and> (\<exists>e. r = Inl e)) \<or> (\<exists>module. xen_load xenia xex = Some module
          \<and> run_ok module (Some (r, events)))"
  by (rule inspect_xex_ok [OF assms])

theorem inspect_xex_sound_witness:
  "\<exists>module. xen_load sample_loader sample_xex = Some module
     \<and> inspection_of module sample_inspection"
proof -
  have "maps_whole_image sample_loader"
    by (simp add: maps_whole_image_def sample_loader_def sample_pe_reads)
  from inspect_xex_sound [OF this, of sample_xex] show ?thesis
    by (simp add: sample_inspected run_ok_def)
qed

text \<open>The header checks read only inside the file, and an accepted header has its optional table
  and file-format descriptor inside the header, the header and the security header inside the file,
  a payload behind the header, and an image that fits the address space.\<close>

lemma validate_header_sound:
  "case validate_header xex of
     None \<Rightarrow> False
   | Some (Inl e) \<Rightarrow> True
   | Some (Inr (header, security_offset)) \<Rightarrow> header_contract xex header security_offset"
  using validate_header_defined [of xex]
  by (auto simp: defined_def validate_header_contract split: option.split sum.split)

text \<open>The synthetic name of an import identifies its ordinal.\<close>

lemma ordinal_names_distinct:
  "(ordinal_name v = ordinal_name w) = (v = w) \<and> length (ordinal_name v) = 16"
  by (simp add: ordinal_name_inject) (simp add: ordinal_name_def)

end
