(* ===== verification/Xex_Document.thy ===== *)
theory Xex_Document imports Xex_Inspect begin

text \<open>
  The inspection tool, \<open>tools/xex_inspect.cpp\<close>: the JSON document of an inspection and the command
  line around it. The file system is a parameter (\<open>tool_host\<close>): what a path reads as, whether it
  is a symlink, whether it can be created and written. A thrown exception is the left side of a sum.
\<close>

section \<open>Fixed-width numbers\<close>

definition hex32 :: "u32 \<Rightarrow> string" where
  "hex32 value = set_width 8 (hex_of (unat value))"

definition sha256_hex :: "sha256_digest \<Rightarrow> string" where
  "sha256_hex digest = concat (map (\<lambda>b. set_width 2 (hex_of (unat b))) digest)"

section \<open>JSON strings\<close>

definition json_char :: "char \<Rightarrow> string" where
  "json_char c =
     (if c = CHR 0x22 then [CHR 0x5C, CHR 0x22]
      else if c = CHR 0x5C then [CHR 0x5C, CHR 0x5C]
      else if c = CHR 0x0A then [CHR 0x5C, CHR ''n'']
      else if c = CHR 0x0D then [CHR 0x5C, CHR ''r'']
      else if c = CHR 0x09 then [CHR 0x5C, CHR ''t'']
      else if (of_char c :: nat) < 0x20
      then [CHR 0x5C, CHR ''u''] @ set_width 4 (hex_of (of_char c))
      else [c])"

definition json_string :: "string \<Rightarrow> string" where
  "json_string value = [CHR 0x22] @ concat (map json_char value) @ [CHR 0x22]"

section \<open>The document\<close>

definition json_key :: "string \<Rightarrow> string" where
  "json_key name = [CHR 0x22] @ name @ [CHR 0x22] @ '': ''"

definition new_line :: string where "new_line = [CHR 0x0A]"

text \<open>The separator a loop writes behind its element.\<close>

definition row_end :: "nat \<Rightarrow> nat \<Rightarrow> string" where
  "row_end index count = (if index + 1 = count then new_line else '','' @ new_line)"

definition execution_document :: "xex_execution_info \<Rightarrow> string" where
  "execution_document e =
     ''  '' @ json_key ''execution'' @ ''{'' @ new_line
     @ ''    '' @ json_key ''title_id'' @ json_string (hex32 (exe_title_id e)) @ '','' @ new_line
     @ ''    '' @ json_key ''media_id'' @ json_string (hex32 (exe_media_id e)) @ '','' @ new_line
     @ ''    '' @ json_key ''version'' @ json_string (hex32 (exe_version e)) @ '','' @ new_line
     @ ''    '' @ json_key ''base_version'' @ json_string (hex32 (exe_base_version e)) @ '','' @ new_line
     @ ''    '' @ json_key ''platform'' @ dec_of (unat (exe_platform e)) @ '','' @ new_line
     @ ''    '' @ json_key ''executable_table'' @ dec_of (unat (exe_executable_table e)) @ '','' @ new_line
     @ ''    '' @ json_key ''disc_number'' @ dec_of (unat (exe_disc_number e)) @ '','' @ new_line
     @ ''    '' @ json_key ''disc_count'' @ dec_of (unat (exe_disc_count e)) @ '','' @ new_line
     @ ''    '' @ json_key ''savegame_id'' @ json_string (hex32 (exe_savegame_id e)) @ new_line
     @ ''  },'' @ new_line"

definition section_document :: "pe_section \<Rightarrow> string" where
  "section_document s =
     ''    {'' @ json_key ''name'' @ json_string (sec_name s)
     @ '', '' @ json_key ''base'' @ json_string (hex32 (sec_base s))
     @ '', '' @ json_key ''size'' @ dec_of (unat (sec_size s))
     @ '', '' @ json_key ''code'' @ (if sec_code s then ''true'' else ''false'') @ ''}''"

definition import_document :: "xex_import \<Rightarrow> string" where
  "import_document i =
     ''    {'' @ json_key ''kind''
     @ json_string (if xim_kind i = Function then ''function'' else ''variable'')
     @ '', '' @ json_key ''library'' @ json_string (xim_library i)
     @ '', '' @ json_key ''ordinal'' @ dec_of (unat (xim_ordinal i))
     @ '', '' @ json_key ''name'' @ json_string (xim_name i)
     @ '', '' @ json_key ''address'' @ json_string (hex32 (xim_address i))
     @ '', '' @ json_key ''record_address'' @ json_string (hex32 (xim_record_address i)) @ ''}''"

definition helper_names :: "string list" where
  "helper_names = [''restgprlr_14'', ''savegprlr_14'', ''restfpr_14'', ''savefpr_14'',
     ''restvmx_14'', ''savevmx_14'', ''restvmx_64'', ''savevmx_64'']"

fun address_list :: "guest_address list \<Rightarrow> string" where
  "address_list [] = []"
| "address_list [a] = json_string (hex32 a)"
| "address_list (a # rest) = json_string (hex32 a) @ '', '' @ address_list rest"

definition rows :: "('a \<Rightarrow> string) \<Rightarrow> 'a list \<Rightarrow> string" where
  "rows print xs =
     concat (map (\<lambda>index. print (xs ! index) @ row_end index (length xs)) [0..<length xs])"

definition document :: "bytes \<Rightarrow> xex_inspection \<Rightarrow> string option" where
  "document xex ins = do {
     xex_digest \<leftarrow> hash_bytes xex;
     image_digest \<leftarrow> hash_bytes (ins_loaded_image ins);
     let layout = ins_image ins;
     Some (''{'' @ new_line
       @ ''  '' @ json_key ''schema'' @ ''1,'' @ new_line
       @ ''  '' @ json_key ''format'' @ json_string ''XEX2'' @ '','' @ new_line
       @ ''  '' @ json_key ''xex'' @ ''{'' @ json_key ''sha256'' @ json_string (sha256_hex xex_digest)
       @ '', '' @ json_key ''size'' @ dec_of (length xex) @ ''},'' @ new_line
       @ execution_document (ins_execution ins)
       @ ''  '' @ json_key ''image'' @ ''{'' @ json_key ''sha256''
       @ json_string (sha256_hex image_digest)
       @ '', '' @ json_key ''base'' @ json_string (hex32 (img_base (lay_identity layout)))
       @ '', '' @ json_key ''size'' @ dec_of (length (ins_loaded_image ins))
       @ '', '' @ json_key ''entry'' @ json_string (hex32 (img_entry_point (lay_identity layout)))
       @ ''},'' @ new_line
       @ ''  '' @ json_key ''sections'' @ ''['' @ new_line
       @ rows section_document (lay_sections layout)
       @ ''  ],'' @ new_line @ ''  '' @ json_key ''imports'' @ ''['' @ new_line
       @ rows import_document (ins_imports ins)
       @ ''  ],'' @ new_line @ ''  '' @ json_key ''helpers'' @ ''{'' @ new_line
       @ rows (\<lambda>index. ''    '' @ json_string (helper_names ! index) @ '': [''
           @ address_list (ins_helpers ins ! index) @ '']'') [0..<length helper_names]
       @ ''  }'' @ new_line @ ''}'' @ new_line) }"

section \<open>The command line\<close>

record tool_host =
  host_read :: "string \<Rightarrow> bytes option"
  host_is_symlink :: "string \<Rightarrow> bool"
  host_create :: "string \<Rightarrow> bool"
  host_write :: "string \<Rightarrow> bytes \<Rightarrow> bool"

datatype tool_event = Written string bytes | Stdout string | Stderr string

text \<open>A run of the tool: what it did in order, and its exit code or the exception it threw.\<close>

type_synonym tool_run = "(tool_event list \<times> (string + int)) option"

definition write_image :: "tool_host \<Rightarrow> string \<Rightarrow> bytes \<Rightarrow> tool_event list \<times> (string + unit)" where
  "write_image host path img =
     (if host_is_symlink host path
      then ([], Inl ''refusing to overwrite a symlink image output'')
      else if \<not> host_create host path
      then ([], Inl ''could not create image output'')
      else if \<not> host_write host path img
      then ([Written path img], Inl ''could not write image output'')
      else ([Written path img], Inr ()))"

definition usage :: string where
  "usage =
     ''usage: x360-xex-inspect <default.xex> [--image-out path]'' @ new_line
     @ ''  --image-out  the loaded image: the decompressed basefile as the loader'' @ new_line
     @ ''               leaves it at the image base, indexed by guest address'' @ new_line"

definition tool_run :: "tool_host \<Rightarrow> xenia_loader \<Rightarrow> string list \<Rightarrow> tool_run" where
  "tool_run host xenia argv =
     (let wants_image = length argv = 4 \<and> argv ! 2 = ''--image-out'' in
      if length argv \<noteq> 2 \<and> \<not> wants_image then Some ([Stderr usage], Inr 2)
      else (case host_read host (argv ! 1) of
        None \<Rightarrow> Some ([], Inl ''could not open XEX'')
      | Some xex \<Rightarrow> do {
        result \<leftarrow> inspect_xex xenia xex;
        case fst result of
          Inl e \<Rightarrow> Some ([Stderr (''x360-xex-inspect: refusing: '' @ e @ new_line)], Inr 1)
        | Inr ins \<Rightarrow> do {
          let image_out = (if wants_image then write_image host (argv ! 3) (ins_loaded_image ins)
            else ([], Inr ()));
          case snd image_out of
            Inl e \<Rightarrow> Some (fst image_out, Inl e)
          | Inr _ \<Rightarrow> do {
            text \<leftarrow> document xex ins;
            Some (fst image_out @ [Stdout text], Inr 0) } } }))"

definition tool_main :: "tool_host \<Rightarrow> xenia_loader \<Rightarrow> string list \<Rightarrow> (tool_event list \<times> int) option" where
  "tool_main host xenia argv = do {
     run \<leftarrow> tool_run host xenia argv;
     Some (case snd run of
         Inr code \<Rightarrow> (fst run, code)
       | Inl e \<Rightarrow> (fst run @ [Stderr (''x360-xex-inspect: refusing: '' @ e @ new_line)], 1)) }"

section \<open>Reading a JSON string back\<close>

definition hex_value :: "char \<Rightarrow> nat" where
  "hex_value c = length (takeWhile (\<lambda>d. d \<noteq> c) hex_digits)"

fun unescape :: "string \<Rightarrow> string option" where
  "unescape [] = None"
| "unescape (c # cs) =
     (if c = CHR 0x22 then if cs = [] then Some [] else None
      else if c \<noteq> CHR 0x5C then map_option ((#) c) (unescape cs)
      else case cs of
        [] \<Rightarrow> None
      | d # ds \<Rightarrow>
          if d = CHR ''n'' then map_option ((#) (CHR 0x0A)) (unescape ds)
          else if d = CHR ''r'' then map_option ((#) (CHR 0x0D)) (unescape ds)
          else if d = CHR ''t'' then map_option ((#) (CHR 0x09)) (unescape ds)
          else if d = CHR ''u'' then map_option
            ((#) (char_of (hex_value (ds ! 2) * 16 + hex_value (ds ! 3)))) (unescape (drop 4 ds))
          else map_option ((#) d) (unescape ds))"

definition json_unquote :: "string \<Rightarrow> string option" where
  "json_unquote s = (case s of [] \<Rightarrow> None | c # cs \<Rightarrow> if c = CHR 0x22 then unescape cs else None)"

lemma control_escapes:
  "list_all (\<lambda>n. let s = set_width 4 (hex_of n) in
     length s = 4 \<and> hex_value (s ! 2) * 16 + hex_value (s ! 3) = n) [0..<32]"
  by code_simp

lemma control_escape:
  assumes "n < 32"
  obtains a b c d where "set_width 4 (hex_of n) = [a, b, c, d]" and "hex_value c * 16 + hex_value d = n"
proof -
  let ?s = "set_width 4 (hex_of n)"
  have s: "length ?s = 4 \<and> hex_value (?s ! 2) * 16 + hex_value (?s ! 3) = n"
    using control_escapes assms by (simp add: list_all_iff Let_def)
  then obtain a b c d where "?s = [a, b, c, d]"
    by (auto simp: numeral_eq_Suc length_Suc_conv)
  with s that show ?thesis by (simp add: numeral_eq_Suc)
qed

lemma unescape_json_char:
  "unescape (json_char c @ rest) = map_option ((#) c) (unescape rest)"
proof (cases "(of_char c :: nat) < 0x20")
  case True
  then obtain a b d e where "set_width 4 (hex_of (of_char c)) = [a, b, d, e]"
      and "hex_value d * 16 + hex_value e = of_char c"
    by (rule control_escape)
  then show ?thesis by (simp add: json_char_def numeral_eq_Suc)
next
  case False
  then show ?thesis by (auto simp: json_char_def)
qed

lemma unescape_json_chars:
  "unescape (concat (map json_char value) @ [CHR 0x22]) = Some value"
  by (induction "value") (simp_all add: unescape_json_char)

lemma json_string_readable: "json_unquote (json_string s) = Some s"
  by (simp add: json_unquote_def json_string_def unescape_json_chars)

lemma hex_of_printable: "c \<in> set (hex_of n) \<Longrightarrow> c \<in> set hex_digits"
proof (induction n rule: hex_of.induct)
  case (1 n)
  have "hex_digits ! (m mod 16) \<in> set hex_digits" for m by (rule nth_mem) (simp add: hex_digits_def)
  with 1 show ?case by (subst (asm) hex_of.simps) (auto split: if_splits, metis mod_less)
qed

text \<open>No control character is left raw inside the quotes.\<close>

lemma json_string_printable:
  assumes "c \<in> set (json_string s)"
  shows "0x20 \<le> (of_char c :: nat)"
proof -
  have "0x20 \<le> (of_char d :: nat)" if "d \<in> set hex_digits" for d
    using that by (auto simp: hex_digits_def)
  then have "0x20 \<le> (of_char d :: nat)" if "d \<in> set (json_char e)" for d e
    using that by (auto simp: json_char_def set_width_def dest: hex_of_printable split: if_splits)
  with assms show ?thesis by (auto simp: json_string_def)
qed

section \<open>What the tool does\<close>

lemma document_defined: "defined (document xex ins)"
  by (simp add: document_def hash_bytes_eq Let_def)

lemma tool_run_events:
  assumes "tool_run host xenia argv = Some (events, r)"
  shows "(\<forall>path img. Written path img \<in> set events \<longrightarrow>
      \<not> host_is_symlink host path \<and> length argv = 4 \<and> path = argv ! 3 \<and> argv ! 2 = ''--image-out'')
    \<and> ((\<exists>text. Stdout text \<in> set events) \<longleftrightarrow> r = Inr 0)"
  using assms
  by (auto simp: tool_run_def Let_def write_image_def
      split: if_splits option.splits sum.splits elim!: bind_eq_SomeE)

lemma tool_main_events:
  assumes "tool_main host xenia argv = Some (events, code)"
  shows "(\<forall>path img. Written path img \<in> set events \<longrightarrow>
      \<not> host_is_symlink host path \<and> length argv = 4 \<and> path = argv ! 3 \<and> argv ! 2 = ''--image-out'')
    \<and> ((\<exists>text. Stdout text \<in> set events) \<longleftrightarrow> code = 0)"
proof -
  obtain evs r where run: "tool_run host xenia argv = Some (evs, r)"
      "(events, code) = (case r of Inr code \<Rightarrow> (evs, code)
       | Inl e \<Rightarrow> (evs @ [Stderr (''x360-xex-inspect: refusing: '' @ e @ new_line)], 1))"
    using assms unfolding tool_main_def
    by (elim bind_eq_SomeE) (metis fst_conv option.inject prod.collapse snd_conv)
  from tool_run_events [OF run(1)] run(2) show ?thesis
    by (cases r) auto
qed

section \<open>Properties\<close>

text \<open>A JSON string the tool writes reads back as the bytes it was given, whatever they are, and
  holds no raw control character.\<close>

lemma json_string_roundtrip:
  "json_unquote (json_string s) = Some s \<and> list_all (\<lambda>c. 0x20 \<le> (of_char c :: nat)) (json_string s)"
  using json_string_printable by (auto simp: json_string_readable list_all_iff)

text \<open>The tool writes an image only where the command line asks for it and never over a symlink,
  and it prints a document exactly when it exits with 0: a refused or failed inspection, or an image
  that could not be written, prints none.\<close>

lemma tool_main_writes_and_prints:
  assumes "tool_main host xenia argv = Some (events, code)"
  shows "(\<forall>path img. Written path img \<in> set events \<longrightarrow>
      \<not> host_is_symlink host path \<and> length argv = 4 \<and> path = argv ! 3 \<and> argv ! 2 = ''--image-out'')
    \<and> ((\<exists>text. Stdout text \<in> set events) \<longleftrightarrow> code = 0)"
  by (rule tool_main_events [OF assms])

definition refusing_host :: tool_host where
  "refusing_host = \<lparr>host_read = (\<lambda>_. Some []), host_is_symlink = (\<lambda>_. True),
     host_create = (\<lambda>_. True), host_write = (\<lambda>_ _. True)\<rparr>"

definition refusing_loader :: xenia_loader where
  "refusing_loader = \<lparr>xen_memory_initialize = True, xen_processor_setup = True, xen_load = (\<lambda>_. None)\<rparr>"

theorem tool_main_writes_and_prints_witness:
  "\<exists>events. tool_main refusing_host refusing_loader [''x360-xex-inspect'', ''a.xex''] = Some (events, 1)
     \<and> (\<forall>text. Stdout text \<notin> set events)"
proof -
  have run: "tool_main refusing_host refusing_loader [''x360-xex-inspect'', ''a.xex''] = Some
      ([Stderr (''x360-xex-inspect: refusing: '' @ ''XEX is shorter than its fixed header'' @ new_line)], 1)"
    by (simp add: tool_main_def tool_run_def refusing_host_def inspect_xex_def validate_header_def
        has_bytes_def xex_constants xex_fail_def before_load_def)
  from tool_main_writes_and_prints [OF run] run show ?thesis by auto
qed

end
