(* ===== verification/Xenia_Memory.thy ===== *)
theory Xenia_Memory imports Prelude begin

text \<open>
  Xenia's guest memory, as the code calls it: an external component, so a parameter
  (\<open>xenia_memory\<close>) over an opaque state. A heap is identified by a number; which heap an address
  belongs to is decided by the address alone (\<open>guest_virtual_memory.cpp\<close> says so). What the code
  relies on is stated as named hypotheses: \<open>system_heap\<close> (an allocated block overlaps no live one)
  and \<open>heap_bytes\<close> (the bytes of one heap read back as they were stored). \<open>toy_memory\<close> is a small
  concrete memory for which both hold; the witnesses use it.

  The locale \<open>guest_accessor\<close> is the contract of every pair of byte accessors of the library: an
  accessible range is copied whole, any other access changes nothing.
\<close>

section \<open>The interface\<close>

text \<open>\<open>xm_read_only\<close> and \<open>xm_read_write\<close> are the values of \<open>PageAccess::kReadOnly\<close> and \<open>kReadWrite\<close>.\<close>

record 'x xenia_memory =
  xm_system_alloc :: "u32 \<Rightarrow> 'x \<Rightarrow> guest_address \<times> 'x"
  xm_system_free :: "guest_address \<Rightarrow> 'x \<Rightarrow> 'x"
  xm_lookup_heap :: "guest_address \<Rightarrow> nat option"
  xm_read_only :: u32
  xm_read_write :: u32
  xm_range_access :: "nat \<Rightarrow> guest_address \<Rightarrow> guest_address \<Rightarrow> 'x \<Rightarrow> u32"
  xm_device_overlap :: "guest_address \<Rightarrow> guest_address \<Rightarrow> 'x \<Rightarrow> bool"
  xm_load :: "guest_address \<Rightarrow> nat \<Rightarrow> 'x \<Rightarrow> bytes"
  xm_store :: "guest_address \<Rightarrow> bytes \<Rightarrow> 'x \<Rightarrow> 'x"

text \<open>The bytes \<open>[a, a + n)\<close>, as numbers.\<close>

definition span_of :: "guest_address \<Rightarrow> nat \<Rightarrow> nat set" where
  "span_of a n = {unat a ..< unat a + n}"

definition fits :: "guest_address \<Rightarrow> nat \<Rightarrow> bool" where
  "fits a n \<longleftrightarrow> unat a + n \<le> 2 ^ 32"

section \<open>What the code relies on\<close>

type_synonym live_blocks = "guest_address \<Rightarrow> u32 option"

definition apart :: "guest_address \<Rightarrow> u32 \<Rightarrow> guest_address \<Rightarrow> u32 \<Rightarrow> bool" where
  "apart a n b m \<longleftrightarrow> unat a + unat n \<le> unat b \<or> unat b + unat m \<le> unat a"

definition system_heap :: "'x xenia_memory \<Rightarrow> ('x \<Rightarrow> live_blocks) \<Rightarrow> bool" where
  "system_heap xm live \<longleftrightarrow>
     (\<forall>n x a x'. n \<noteq> 0 \<and> xm_system_alloc xm n x = (a, x') \<longrightarrow>
        (if a = 0 then live x' = live x
         else live x' = (live x)(a \<mapsto> n) \<and> fits a (unat n) \<and>
           (\<forall>b m. live x b = Some m \<longrightarrow> apart a n b m)))
     \<and> (\<forall>a x. live (xm_system_free xm a x) = (live x)(a := None))
     \<and> (\<forall>a bs x. live (xm_store xm a bs x) = live x)"

definition heap_bytes :: "'x xenia_memory \<Rightarrow> bool" where
  "heap_bytes xm \<longleftrightarrow>
     (\<forall>a n x. length (xm_load xm a n x) = n)
     \<and> (\<forall>a bs b n x i. i < n \<and> fits a (length bs) \<and> fits b n \<and>
          xm_lookup_heap xm a \<noteq> None \<and> xm_lookup_heap xm b = xm_lookup_heap xm a \<longrightarrow>
          xm_load xm b n (xm_store xm a bs x) ! i =
            (if unat b + i \<in> span_of a (length bs) then bs ! (unat b + i - unat a)
             else xm_load xm b n x ! i))"

lemma apart_disjoint: "apart a n b m \<Longrightarrow> span_of a (unat n) \<inter> span_of b (unat m) = {}"
  by (auto simp: apart_def span_of_def)

lemma heap_bytes_length [simp]: "heap_bytes xm \<Longrightarrow> length (xm_load xm a n x) = n"
  by (simp add: heap_bytes_def)

lemma heap_bytes_nth:
  assumes "heap_bytes xm" "i < n" "fits a (length bs)" "fits b n"
    and "xm_lookup_heap xm a \<noteq> None" "xm_lookup_heap xm b = xm_lookup_heap xm a"
  shows "xm_load xm b n (xm_store xm a bs x) ! i =
    (if unat b + i \<in> span_of a (length bs) then bs ! (unat b + i - unat a)
     else xm_load xm b n x ! i)"
  using assms unfolding heap_bytes_def by blast

lemma heap_bytes_load_store:
  assumes "heap_bytes xm" "fits a (length bs)" "xm_lookup_heap xm a \<noteq> None"
  shows "xm_load xm a (length bs) (xm_store xm a bs x) = bs"
proof (rule nth_equalityI)
  show "xm_load xm a (length bs) (xm_store xm a bs x) ! i = bs ! i"
    if "i < length (xm_load xm a (length bs) (xm_store xm a bs x))" for i
    using that heap_bytes_nth [OF assms(1) _ assms(2,2,3) refl, of i x] assms(1)
    by (simp add: span_of_def)
qed (use assms(1) in simp)

lemma heap_bytes_load_other:
  assumes "heap_bytes xm" "fits a (length bs)" "fits b n" "xm_lookup_heap xm a \<noteq> None"
    and "xm_lookup_heap xm b = xm_lookup_heap xm a"
    and "span_of a (length bs) \<inter> span_of b n = {}"
  shows "xm_load xm b n (xm_store xm a bs x) = xm_load xm b n x"
proof (rule nth_equalityI)
  show "xm_load xm b n (xm_store xm a bs x) ! i = xm_load xm b n x ! i"
    if "i < length (xm_load xm b n (xm_store xm a bs x))" for i
  proof -
    from that assms(1) have i: "i < n" by simp
    then have "unat b + i \<in> span_of b n" by (simp add: span_of_def)
    with assms(6) have "unat b + i \<notin> span_of a (length bs)" by blast
    then show ?thesis using heap_bytes_nth [OF assms(1) i assms(2-5), of x] by simp
  qed
qed (use assms(1) in simp)

section \<open>The contract of the byte accessors\<close>

locale guest_accessor =
  fixes xm :: "'x xenia_memory"
    and accessible :: "bool \<Rightarrow> guest_address \<Rightarrow> nat \<Rightarrow> 'x \<Rightarrow> bool"
    and get :: "guest_address \<Rightarrow> bytes \<Rightarrow> 'x \<Rightarrow> 'f \<times> bytes"
    and put :: "guest_address \<Rightarrow> bytes \<Rightarrow> 'x \<Rightarrow> 'f \<times> 'x"
    and accepted :: "'f \<Rightarrow> bool"
  assumes accepted_read: "accepted (fst (get a dst x)) \<longleftrightarrow> accessible False a (length dst) x"
    and accepted_write: "accepted (fst (put a bs x)) \<longleftrightarrow> accessible True a (length bs) x"
    and read_bytes: "snd (get a dst x) =
      (if accessible False a (length dst) x \<and> dst \<noteq> [] then xm_load xm a (length dst) x else dst)"
    and write_bytes: "snd (put a bs x) =
      (if accessible True a (length bs) x \<and> bs \<noteq> [] then xm_store xm a bs x else x)"
begin

text \<open>A sequence of writes, each checked on its own.\<close>

fun write_all :: "(guest_address \<times> bytes) list \<Rightarrow> 'x \<Rightarrow> 'x" where
  "write_all [] x = x"
| "write_all ((a, bs) # ws) x = write_all ws (snd (put a bs x))"

lemma refused_write_keeps: "\<not> accepted (fst (put a bs x)) \<Longrightarrow> snd (put a bs x) = x"
  by (simp add: accepted_write write_bytes)

lemma refused_read_keeps: "\<not> accepted (fst (get a dst x)) \<Longrightarrow> snd (get a dst x) = dst"
  by (simp add: accepted_read read_bytes)

lemma read_back:
  assumes "heap_bytes xm" "accepted (fst (put a bs x))" "fits a (length bs)"
    and "xm_lookup_heap xm a \<noteq> None"
    and "accepted (fst (get a dst (snd (put a bs x))))" "length dst = length bs"
  shows "snd (get a dst (snd (put a bs x))) = bs"
  using assms
  by (cases "bs = []")
    (auto simp: accepted_read accepted_write read_bytes write_bytes heap_bytes_load_store)

text \<open>What is read after a write, byte by byte.\<close>

lemma read_after_write:
  assumes "heap_bytes xm" "accepted (fst (put a bs x))" "accepted (fst (get b dst (snd (put a bs x))))"
    and "fits a (length bs)" "fits b (length dst)" "i < length dst"
    and "xm_lookup_heap xm a = Some h" "xm_lookup_heap xm b = Some h"
  shows "snd (get b dst (snd (put a bs x))) ! i =
    (if unat b + i \<in> span_of a (length bs) then bs ! (unat b + i - unat a)
     else xm_load xm b (length dst) x ! i)"
  using assms heap_bytes_nth [OF assms(1,6,4,5), of x]
  by (cases "bs = []"; cases "dst = []")
    (simp_all add: accepted_read accepted_write read_bytes write_bytes span_of_def)

text \<open>Writes outside a range leave what is get from it, whatever they are and however many.\<close>

lemma read_undisturbed:
  assumes "heap_bytes xm" "fits b n" "xm_lookup_heap xm b = Some h"
    and "\<forall>(a, bs)\<in>set ws. fits a (length bs) \<and> xm_lookup_heap xm a = Some h \<and>
      span_of a (length bs) \<inter> span_of b n = {}"
  shows "xm_load xm b n (write_all ws x) = xm_load xm b n x"
  using assms(4)
proof (induction ws arbitrary: x)
  case (Cons w ws)
  obtain a bs where w: "w = (a, bs)" by (cases w)
  have "xm_load xm b n (snd (put a bs x)) = xm_load xm b n x"
    using Cons.prems assms(1-3) w by (simp add: write_bytes heap_bytes_load_other)
  with Cons w show ?case by simp
qed simp

end

section \<open>A concrete memory\<close>

text \<open>
  One heap below \<open>0x80000000\<close>, all of it accessible except what a device covers; the allocator
  offers one candidate after the newest block and refuses when it does not fit.
\<close>

record toy_state =
  toy_bytes :: "u32 \<Rightarrow> byte"
  toy_blocks :: "(u32 \<times> u32) list"
  toy_devices :: "(u32 \<times> u32) list"
  toy_access :: u32
  toy_variable :: u32

definition toy_live :: "toy_state \<Rightarrow> live_blocks" where
  "toy_live x = map_of (toy_blocks x)"

definition toy_candidate :: "toy_state \<Rightarrow> u32" where
  "toy_candidate x = (case toy_blocks x of [] \<Rightarrow> 0x1000 | (a, n) # _ \<Rightarrow> a + n)"

definition toy_memory :: "toy_state xenia_memory" where
  "toy_memory = \<lparr>
     xm_system_alloc = (\<lambda>n x. let a = toy_candidate x in
       if a \<noteq> 0 \<and> unat a + unat n \<le> 0x80000000 \<and> (\<forall>(b, m)\<in>set (toy_blocks x). apart a n b m)
       then (a, x\<lparr>toy_blocks := (a, n) # toy_blocks x\<rparr>) else (0, x)),
     xm_system_free = (\<lambda>a x. x\<lparr>toy_blocks := filter (\<lambda>e. fst e \<noteq> a) (toy_blocks x)\<rparr>),
     xm_lookup_heap = (\<lambda>a. if a < 0x80000000 then Some 0 else None),
     xm_read_only = 1,
     xm_read_write = 3,
     xm_range_access = (\<lambda>h a b x. toy_access x),
     xm_device_overlap = (\<lambda>a b x. \<exists>(d, n)\<in>set (toy_devices x). \<not> (unat b < unat d \<or> unat d + unat n \<le> unat a)),
     xm_load = (\<lambda>a n x. map (\<lambda>i. toy_bytes x (a + word_of_nat i)) [0..<n]),
     xm_store = (\<lambda>a bs x. x\<lparr>toy_bytes := (\<lambda>b. if unat b \<in> span_of a (length bs) then bs ! (unat b - unat a)
       else toy_bytes x b)\<rparr>)\<rparr>"

definition toy_start :: toy_state where
  "toy_start = \<lparr>toy_bytes = (\<lambda>_. 0), toy_blocks = [], toy_devices = [], toy_access = 3,
     toy_variable = 0\<rparr>"

lemma unat_offset: "fits b n \<Longrightarrow> i < n \<Longrightarrow> unat (b + word_of_nat i :: u32) = unat b + i"
  by (simp add: fits_def unat_word_ariths unat_word_of_nat_u32)

lemma toy_heap_bytes: "heap_bytes toy_memory"
  by (auto simp: heap_bytes_def toy_memory_def unat_offset)

lemma map_of_filter_key: "map_of (filter (\<lambda>e. fst e \<noteq> a) xs) = (map_of xs)(a := None)"
  by (induction xs) auto

lemma toy_system_heap: "system_heap toy_memory toy_live"
  by (auto simp: system_heap_def toy_memory_def toy_live_def Let_def map_of_filter_key fits_def
      dest!: map_of_SomeD split: if_splits)

end
