(* ===== verification/Runtime_Failure.thy ===== *)
theory Runtime_Failure imports Module_Contract begin

text \<open>
  What the runtime's operations return when they refuse: \<open>RuntimeFailure\<close> of
  \<open>include/x360port/runtime_failure.hpp\<close>, with the descriptions of \<open>src/runtime_errors.cpp\<close>. A
  failure without error is success. The list of all errors gives the type its enumeration.
\<close>

datatype runtime_error =
  NoRuntimeError | InstanceAlreadyActive | MemoryInitializationFailed
| BackendInitializationFailed | StackAllocationFailed | ModuleAlreadyLoaded
| ModuleValidationFailed | ImportValidationFailed | VariableResolutionFailed
| ImportAttachmentFailed | LoadStateInvalid | ImageAllocationFailed | ModuleRegistrationFailed
| EntryOutsideCode | TranslationFailed | InterpreterFallbackUnsupported
| InterpreterFallbackMemoryInvalid | InterpreterFallbackBudgetExceeded | ExecutionBudgetInvalid
| ExecutionBudgetExceeded | ExecutionInvalidated | GuestAccessViolation | ImportServiceRefused
| ExecutionFailed | OverrideInvalid | OverrideAlreadyInstalled | OverrideNotInstalled
| OverrideDispatchFailed | DeviceRangeInvalid | DeviceRangeRegistrationFailed
| ExecutableRangeInvalid | ExecutableWatchRegistrationFailed | ExecutableWatchRearmFailed
| GuestMemoryAllocationFailed | GuestMemoryRangeInvalid

record runtime_failure =
  fail_error :: runtime_error
  fail_detail :: string

definition fails :: "runtime_failure \<Rightarrow> bool" where
  "fails f \<longleftrightarrow> fail_error f \<noteq> NoRuntimeError"

definition no_failure :: runtime_failure where
  "no_failure = \<lparr>fail_error = NoRuntimeError, fail_detail = []\<rparr>"

definition failure :: "runtime_error \<Rightarrow> string \<Rightarrow> runtime_failure" where
  "failure error detail = \<lparr>fail_error = error, fail_detail = detail\<rparr>"

fun runtime_error_name :: "runtime_error \<Rightarrow> string" where
  "runtime_error_name NoRuntimeError = ''none''"
| "runtime_error_name InstanceAlreadyActive = ''instance already active''"
| "runtime_error_name MemoryInitializationFailed = ''memory initialization failed''"
| "runtime_error_name BackendInitializationFailed = ''dynarec backend initialization failed''"
| "runtime_error_name StackAllocationFailed = ''guest stack allocation failed''"
| "runtime_error_name ModuleAlreadyLoaded = ''module already loaded''"
| "runtime_error_name ModuleValidationFailed = ''module validation failed''"
| "runtime_error_name ImportValidationFailed = ''import validation failed''"
| "runtime_error_name VariableResolutionFailed = ''variable import resolution failed''"
| "runtime_error_name ImportAttachmentFailed = ''Xenia import attachment failed''"
| "runtime_error_name LoadStateInvalid = ''runtime load state invalid''"
| "runtime_error_name ImageAllocationFailed = ''guest image allocation failed''"
| "runtime_error_name ModuleRegistrationFailed = ''RawModule registration failed''"
| "runtime_error_name EntryOutsideCode = ''entry outside code''"
| "runtime_error_name TranslationFailed = ''translation failed''"
| "runtime_error_name InterpreterFallbackUnsupported = ''interpreter fallback unsupported''"
| "runtime_error_name InterpreterFallbackMemoryInvalid = ''interpreter fallback memory invalid''"
| "runtime_error_name InterpreterFallbackBudgetExceeded = ''interpreter fallback budget exceeded''"
| "runtime_error_name ExecutionBudgetInvalid = ''invalid guest execution block budget''"
| "runtime_error_name ExecutionBudgetExceeded = ''guest execution block budget exceeded''"
| "runtime_error_name ExecutionInvalidated = ''guest execution invalidated by executable write''"
| "runtime_error_name GuestAccessViolation = ''guest execution faulted on inaccessible guest memory''"
| "runtime_error_name ImportServiceRefused = ''host import service refused guest execution''"
| "runtime_error_name ExecutionFailed = ''execution failed''"
| "runtime_error_name OverrideInvalid = ''invalid native override''"
| "runtime_error_name OverrideAlreadyInstalled = ''native override already installed''"
| "runtime_error_name OverrideNotInstalled = ''native override not installed''"
| "runtime_error_name OverrideDispatchFailed = ''native override guest-call dispatch failed''"
| "runtime_error_name DeviceRangeInvalid = ''invalid device-memory range''"
| "runtime_error_name DeviceRangeRegistrationFailed = ''device-memory range registration failed''"
| "runtime_error_name ExecutableRangeInvalid = ''invalid executable write range''"
| "runtime_error_name ExecutableWatchRegistrationFailed = ''executable-write observation registration failed''"
| "runtime_error_name ExecutableWatchRearmFailed = ''executable-write observation rearm failed''"
| "runtime_error_name GuestMemoryAllocationFailed = ''guest memory allocation failed''"
| "runtime_error_name GuestMemoryRangeInvalid = ''invalid guest memory range''"

definition runtime_errors :: "runtime_error list" where
  "runtime_errors = [NoRuntimeError, InstanceAlreadyActive, MemoryInitializationFailed,
     BackendInitializationFailed, StackAllocationFailed, ModuleAlreadyLoaded,
     ModuleValidationFailed, ImportValidationFailed, VariableResolutionFailed,
     ImportAttachmentFailed, LoadStateInvalid, ImageAllocationFailed, ModuleRegistrationFailed,
     EntryOutsideCode, TranslationFailed, InterpreterFallbackUnsupported,
     InterpreterFallbackMemoryInvalid, InterpreterFallbackBudgetExceeded, ExecutionBudgetInvalid,
     ExecutionBudgetExceeded, ExecutionInvalidated, GuestAccessViolation, ImportServiceRefused,
     ExecutionFailed, OverrideInvalid, OverrideAlreadyInstalled, OverrideNotInstalled,
     OverrideDispatchFailed, DeviceRangeInvalid, DeviceRangeRegistrationFailed,
     ExecutableRangeInvalid, ExecutableWatchRegistrationFailed, ExecutableWatchRearmFailed,
     GuestMemoryAllocationFailed, GuestMemoryRangeInvalid]"

lemma fails_no_failure [simp]: "\<not> fails no_failure"
  by (simp add: fails_def no_failure_def)

lemma fails_failure [simp]: "fails (failure error detail) \<longleftrightarrow> error \<noteq> NoRuntimeError"
  by (simp add: fails_def failure_def)

lemma fail_error_failure [simp]: "fail_error (failure error detail) = error"
  by (simp add: failure_def)

lemma runtime_errors_all: "set runtime_errors = UNIV"
proof -
  have "e \<in> set runtime_errors" for e by (cases e) (simp_all add: runtime_errors_def)
  then show ?thesis by blast
qed

lemma runtime_error_names_distinct: "distinct (map runtime_error_name runtime_errors)"
  by (simp add: runtime_errors_def)

instantiation runtime_error :: enum
begin

definition enum_runtime_error :: "runtime_error list" where
  "enum_runtime_error = runtime_errors"

definition enum_all_runtime_error :: "(runtime_error \<Rightarrow> bool) \<Rightarrow> bool" where
  "enum_all_runtime_error P \<longleftrightarrow> list_all P runtime_errors"

definition enum_ex_runtime_error :: "(runtime_error \<Rightarrow> bool) \<Rightarrow> bool" where
  "enum_ex_runtime_error P \<longleftrightarrow> list_ex P runtime_errors"

instance
proof
  show "(UNIV :: runtime_error set) = set enum_class.enum"
    by (simp add: enum_runtime_error_def runtime_errors_all)
  show "distinct (enum_class.enum :: runtime_error list)"
    using runtime_error_names_distinct by (simp add: enum_runtime_error_def distinct_map)
  show "enum_class.enum_all P \<longleftrightarrow> Ball (UNIV :: runtime_error set) P" for P
    by (simp add: enum_all_runtime_error_def list_all_iff runtime_errors_all)
  show "enum_class.enum_ex P \<longleftrightarrow> Bex (UNIV :: runtime_error set) P" for P
    by (simp add: enum_ex_runtime_error_def list_ex_iff runtime_errors_all)
qed

end

section \<open>Statistics\<close>

text \<open>The counters of \<open>JitStatistics\<close>, which the runtime's parts share; each wraps at 64 bits.\<close>

record jit_statistics =
  st_translated_functions :: u64
  st_emitted_host_bytes :: u64
  st_translation_failures :: u64
  st_execution_calls :: u64
  st_execution_budget_exhaustions :: u64
  st_execution_invalidations :: u64
  st_import_service_refusals :: u64
  st_native_override_calls :: u64
  st_original_calls :: u64
  st_translation_invalidations :: u64
  st_observed_executable_writes :: u64
  st_device_read_calls :: u64
  st_device_write_calls :: u64
  st_interpreter_fallback_entries :: u64
  st_interpreter_fallback_instructions :: u64
  st_interpreter_fallback_unsupported :: u64
  st_interpreter_fallback_memory_failures :: u64
  st_interpreter_fallback_budget_exhaustions :: u64
  st_guest_access_violations :: u64

definition no_statistics :: jit_statistics where
  "no_statistics = \<lparr>st_translated_functions = 0, st_emitted_host_bytes = 0,
     st_translation_failures = 0, st_execution_calls = 0, st_execution_budget_exhaustions = 0,
     st_execution_invalidations = 0, st_import_service_refusals = 0, st_native_override_calls = 0,
     st_original_calls = 0, st_translation_invalidations = 0, st_observed_executable_writes = 0,
     st_device_read_calls = 0, st_device_write_calls = 0, st_interpreter_fallback_entries = 0,
     st_interpreter_fallback_instructions = 0, st_interpreter_fallback_unsupported = 0,
     st_interpreter_fallback_memory_failures = 0, st_interpreter_fallback_budget_exhaustions = 0,
     st_guest_access_violations = 0\<rparr>"

section \<open>Properties\<close>

text \<open>Every runtime error has its own description, and none is the fallback text.\<close>

lemma runtime_error_names_inject:
  "(runtime_error_name a = runtime_error_name b) = (a = b)
   \<and> runtime_error_name a \<noteq> ''unknown runtime error''"
proof
  have "inj_on runtime_error_name UNIV"
    using runtime_error_names_distinct by (simp add: distinct_map runtime_errors_all)
  then show "(runtime_error_name a = runtime_error_name b) = (a = b)" by (simp add: inj_eq)
  show "runtime_error_name a \<noteq> ''unknown runtime error''" by (cases a) simp_all
qed

end
