(* ===== verification/Guest_Execution.thy ===== *)
theory Guest_Execution imports Runtime_Failure begin

text \<open>
  One bounded guest call: \<open>src/guest_execution_budget.hpp\<close>, \<open>src/guest_call_frame.hpp\<close>,
  \<open>src/guest_execution.cpp\<close> and \<open>src/guest_fault_guard.cpp\<close>.

  A call owns three objects (its budget, an import refusal and an override failure) and three
  thread-local pointers select the objects of the innermost call. Objects live in a store, a pointer
  is an index into it, so nested calls and what they restore are visible. The translated code
  (\<open>Function::Call\<close>) is a parameter: any function of the thread state, \<open>None\<close> when the process
  ends. Handlers report through the \<open>Mark\<close> functions; the first report of a call wins.
\<close>

section \<open>State\<close>

datatype exit_reason =
  Exit_None | Block_Budget_Exceeded | Executable_Write_Observed | Host_Service_Refused
| Native_Override_Failed | Guest_Access_Violated | Exit_Other nat

datatype import_refusal_reason =
  UnsupportedService | InvalidGuestMemory | InvalidArguments | HostUnavailable

record execution_budget =
  bud_blocks :: u64
  bud_exit_reason :: exit_reason
  bud_fault_guest_address :: u32
  bud_fault_was_write :: bool

record guest_import_refusal =
  rfs_library :: string
  rfs_ordinal :: u32
  rfs_reason :: import_refusal_reason

record call_objects =
  obj_budget :: execution_budget
  obj_refusal :: guest_import_refusal
  obj_failure :: runtime_failure

record ppc_context =
  ppc_r :: "nat \<Rightarrow> u64"
  ppc_lr :: u64
  ppc_execution_budget :: "nat option"

record 'world thread_state =
  thr_context :: ppc_context
  thr_active_budget :: "nat option"
  thr_active_refusal :: "nat option"
  thr_active_failure :: "nat option"
  thr_objects :: "call_objects list"
  thr_world :: 'world

record execution_limits =
  lim_max_guest_blocks :: u64
  lim_max_interpreter_instructions :: u64

record execution_result =
  exr_failure :: runtime_failure
  exr_value :: u64

definition succeeds :: "execution_result \<Rightarrow> bool" where
  "succeeds r \<longleftrightarrow> \<not> fails (exr_failure r)"

definition refused_call :: "runtime_failure \<Rightarrow> execution_result" where
  "refused_call f = \<lparr>exr_failure = f, exr_value = 0\<rparr>"

section \<open>The Mark functions\<close>

definition exit_reason_of :: "'w thread_state \<Rightarrow> nat \<Rightarrow> exit_reason" where
  "exit_reason_of t b = bud_exit_reason (obj_budget (thr_objects t ! b))"

definition update_object ::
  "nat \<Rightarrow> (call_objects \<Rightarrow> call_objects) \<Rightarrow> 'w thread_state \<Rightarrow> 'w thread_state" where
  "update_object i f t = t\<lparr>thr_objects := (thr_objects t)[i := f (thr_objects t ! i)]\<rparr>"

definition set_exit_reason :: "exit_reason \<Rightarrow> call_objects \<Rightarrow> call_objects" where
  "set_exit_reason reason c = c\<lparr>obj_budget := (obj_budget c)\<lparr>bud_exit_reason := reason\<rparr>\<rparr>"

text \<open>\<open>std::terminate\<close> is \<open>None\<close>.\<close>

definition mark_guest_override_failed ::
  "runtime_failure \<Rightarrow> 'w thread_state \<Rightarrow> 'w thread_state option" where
  "mark_guest_override_failed f t =
     (case (thr_active_budget t, thr_active_failure t) of
        (Some b, Some i) \<Rightarrow>
          Some (if exit_reason_of t b = Exit_None
            then update_object b (set_exit_reason Native_Override_Failed)
              (update_object i (obj_failure_update (\<lambda>_. f)) t)
            else t)
      | _ \<Rightarrow> None)"

definition mark_guest_import_refused ::
  "string \<Rightarrow> u32 \<Rightarrow> import_refusal_reason \<Rightarrow> 'w thread_state \<Rightarrow> 'w thread_state option" where
  "mark_guest_import_refused library ordinal reason t =
     (case (thr_active_budget t, thr_active_refusal t) of
        (Some b, Some i) \<Rightarrow>
          Some (if exit_reason_of t b = Exit_None
            then update_object b (set_exit_reason Host_Service_Refused)
              (update_object i (obj_refusal_update
                (\<lambda>_. \<lparr>rfs_library = library, rfs_ordinal = ordinal, rfs_reason = reason\<rparr>)) t)
            else t)
      | _ \<Rightarrow> None)"

definition mark_guest_executable_write_observed :: "'w thread_state \<Rightarrow> 'w thread_state" where
  "mark_guest_executable_write_observed t =
     (case thr_active_budget t of
        Some b \<Rightarrow> if exit_reason_of t b = Exit_None
          then update_object b (set_exit_reason Executable_Write_Observed) t else t
      | None \<Rightarrow> t)"

section \<open>The scopes\<close>

text \<open>\<open>GuestExecutionBudgetScope\<close>: entering returns the pointers it will restore.\<close>

record saved_pointers =
  sav_context_budget :: "nat option"
  sav_active_budget :: "nat option"
  sav_active_refusal :: "nat option"
  sav_active_failure :: "nat option"

definition enter_budget_scope ::
  "execution_budget \<Rightarrow> 'w thread_state \<Rightarrow> saved_pointers \<times> nat \<times> 'w thread_state" where
  "enter_budget_scope budget t =
     (let self = length (thr_objects t);
          objects = \<lparr>obj_budget = budget,
            obj_refusal = \<lparr>rfs_library = [], rfs_ordinal = 0, rfs_reason = UnsupportedService\<rparr>,
            obj_failure = no_failure\<rparr> in
      (\<lparr>sav_context_budget = ppc_execution_budget (thr_context t),
         sav_active_budget = thr_active_budget t, sav_active_refusal = thr_active_refusal t,
         sav_active_failure = thr_active_failure t\<rparr>,
       self,
       t\<lparr>thr_objects := thr_objects t @ [objects],
         thr_context := (thr_context t)\<lparr>ppc_execution_budget := Some self\<rparr>,
         thr_active_budget := Some self, thr_active_refusal := Some self,
         thr_active_failure := Some self\<rparr>))"

definition leave_budget_scope :: "saved_pointers \<Rightarrow> 'w thread_state \<Rightarrow> 'w thread_state" where
  "leave_budget_scope saved t =
     t\<lparr>thr_active_refusal := sav_active_refusal saved,
       thr_active_failure := sav_active_failure saved,
       thr_active_budget := sav_active_budget saved,
       thr_context := (thr_context t)\<lparr>ppc_execution_budget := sav_context_budget saved\<rparr>\<rparr>"

text \<open>\<open>GuestCallFrame\<close>: a frame below the stack pointer, and the return address.\<close>

definition enter_call_frame :: "u64 \<Rightarrow> 'w thread_state \<Rightarrow> (u64 \<times> u64) \<times> 'w thread_state" where
  "enter_call_frame return_address t =
     (let c = thr_context t in
      ((ppc_r c 1, ppc_lr c),
       t\<lparr>thr_context := c\<lparr>ppc_r := (ppc_r c)(1 := ppc_r c 1 - (64 + 112)), ppc_lr := return_address\<rparr>\<rparr>))"

definition leave_call_frame :: "u64 \<times> u64 \<Rightarrow> 'w thread_state \<Rightarrow> 'w thread_state" where
  "leave_call_frame saved t =
     (let c = thr_context t in
      t\<lparr>thr_context := c\<lparr>ppc_r := (ppc_r c)(1 := fst saved), ppc_lr := snd saved\<rparr>\<rparr>)"

section \<open>ExecuteGuestFunction\<close>

definition k_return_address :: u64 where "k_return_address = 0xBCBCBCBC"
definition k_register_argument_count :: nat where "k_register_argument_count = 8"

definition upper_digits :: string where "upper_digits = ''0123456789ABCDEF''"

definition format_guest_address :: "u32 \<Rightarrow> string" where
  "format_guest_address address =
     fold (\<lambda>index text.
         text[length text - index - 1 := upper_digits ! unat (drop_bit (index * 4) address AND 0xF)])
       [0..<8] (replicate 8 (CHR ''0''))"

fun refusal_reason_text :: "import_refusal_reason \<Rightarrow> string" where
  "refusal_reason_text UnsupportedService = ''unsupported service''"
| "refusal_reason_text InvalidGuestMemory = ''invalid guest memory''"
| "refusal_reason_text InvalidArguments = ''invalid arguments''"
| "refusal_reason_text HostUnavailable = ''host service unavailable''"

definition prepare_guest_arguments ::
  "u64 list \<Rightarrow> 'w thread_state \<Rightarrow> runtime_failure \<times> 'w thread_state" where
  "prepare_guest_arguments arguments t =
     (if length arguments > k_register_argument_count
      then (failure ExecutionFailed
        ''this bounded call contract accepts at most eight register arguments'', t)
      else (no_failure,
        fold (\<lambda>index t. t\<lparr>thr_context := (thr_context t)
            \<lparr>ppc_r := (ppc_r (thr_context t))(3 + index := arguments ! index)\<rparr>\<rparr>)
          [0..<length arguments] t))"

text \<open>What a call that stopped with an exit reason returns.\<close>

definition exit_failure :: "call_objects \<Rightarrow> runtime_failure" where
  "exit_failure objects =
     (let budget = obj_budget objects; refusal = obj_refusal objects in
      case bud_exit_reason budget of
        Executable_Write_Observed \<Rightarrow> failure ExecutionInvalidated
          ''Xenia stopped the guest call after observing an executable write''
      | Host_Service_Refused \<Rightarrow> failure ImportServiceRefused
          (''host import '' @ rfs_library refusal @ '' ordinal '' @ dec_of (unat (rfs_ordinal refusal))
             @ '' refused: '' @ refusal_reason_text (rfs_reason refusal))
      | Native_Override_Failed \<Rightarrow> obj_failure objects
      | Guest_Access_Violated \<Rightarrow> failure GuestAccessViolation
          (''guest execution faulted '' @ (if bud_fault_was_write budget then ''writing'' else ''reading'')
             @ '' guest address 0x'' @ format_guest_address (bud_fault_guest_address budget))
      | Block_Budget_Exceeded \<Rightarrow> failure ExecutionBudgetExceeded
          ''Xenia stopped the guest call after exhausting its translated-block budget''
      | _ \<Rightarrow> failure ExecutionFailed ''Xenia stopped the guest call with an unknown exit reason'')"

type_synonym 'w guest_code = "'w thread_state \<Rightarrow> (bool \<times> 'w thread_state) option"

definition execute_guest_function ::
  "'w guest_code \<Rightarrow> u64 list \<Rightarrow> execution_limits \<Rightarrow> 'w thread_state \<Rightarrow>
   (execution_result \<times> 'w thread_state) option" where
  "execute_guest_function call arguments limits t =
     (case prepare_guest_arguments arguments t of (f, t) \<Rightarrow>
      if fails f then Some (refused_call f, t)
      else if lim_max_guest_blocks limits = 0
      then Some (refused_call (failure ExecutionBudgetInvalid
        ''guest execution requires a non-zero translated-block budget''), t)
      else (case enter_budget_scope \<lparr>bud_blocks = lim_max_guest_blocks limits,
          bud_exit_reason = Exit_None, bud_fault_guest_address = 0, bud_fault_was_write = False\<rparr> t of
        (saved, self, t) \<Rightarrow>
      (case enter_call_frame k_return_address t of (frame, t) \<Rightarrow> do {
        r \<leftarrow> call t;
        (let executed = fst r; t = snd r; objects = thr_objects t ! self;
            result =
              (if bud_exit_reason (obj_budget objects) \<noteq> Exit_None then refused_call (exit_failure objects)
              else if \<not> executed then refused_call (failure ExecutionFailed
                ''Xenia's translated guest function refused execution'')
              else \<lparr>exr_failure = no_failure, exr_value = ppc_r (thr_context t) 3\<rparr>);
            t = leave_budget_scope saved (leave_call_frame frame t)
         in Some (result, t)) })))"

lemmas thread_defs = enter_budget_scope_def leave_budget_scope_def enter_call_frame_def
  leave_call_frame_def Let_def

section \<open>What a call restores\<close>

definition same_scope :: "'w thread_state \<Rightarrow> 'w thread_state \<Rightarrow> bool" where
  "same_scope t t' \<longleftrightarrow>
     thr_active_budget t' = thr_active_budget t \<and> thr_active_refusal t' = thr_active_refusal t
     \<and> thr_active_failure t' = thr_active_failure t
     \<and> ppc_execution_budget (thr_context t') = ppc_execution_budget (thr_context t)
     \<and> ppc_r (thr_context t') 1 = ppc_r (thr_context t) 1 \<and> ppc_lr (thr_context t') = ppc_lr (thr_context t)"

lemma prepare_arguments_fold:
  "n \<le> length arguments \<Longrightarrow>
   fold (\<lambda>index t. t\<lparr>thr_context := (thr_context t)
       \<lparr>ppc_r := (ppc_r (thr_context t))(3 + index := arguments ! index)\<rparr>\<rparr>) [0..<n] t =
   t\<lparr>thr_context := (thr_context t)
     \<lparr>ppc_r := (\<lambda>i. if 3 \<le> i \<and> i < 3 + n then arguments ! (i - 3) else ppc_r (thr_context t) i)\<rparr>\<rparr>"
  by (induction n) (auto simp: fun_eq_iff intro!: thread_state.equality ppc_context.equality)

definition with_arguments :: "u64 list \<Rightarrow> 'w thread_state \<Rightarrow> 'w thread_state" where
  "with_arguments arguments t = t\<lparr>thr_context := (thr_context t)\<lparr>ppc_r := (\<lambda>i.
     if 3 \<le> i \<and> i < 3 + length arguments then arguments ! (i - 3) else ppc_r (thr_context t) i)\<rparr>\<rparr>"

lemma prepare_guest_arguments_eq:
  "prepare_guest_arguments arguments t =
     (if length arguments > 8
      then (failure ExecutionFailed
        ''this bounded call contract accepts at most eight register arguments'', t)
      else (no_failure, with_arguments arguments t))"
  by (simp add: prepare_guest_arguments_def k_register_argument_count_def prepare_arguments_fold
      with_arguments_def)

lemma same_scope_with_arguments [simp]: "same_scope t (with_arguments arguments t)"
  by (simp add: same_scope_def with_arguments_def)

lemma execute_restores:
  assumes "execute_guest_function call arguments limits t = Some (r, t')"
  shows "same_scope t t'"
  using assms same_scope_with_arguments [of t arguments]
  by (auto simp: execute_guest_function_def prepare_guest_arguments_eq thread_defs same_scope_def
      split: if_splits elim!: bind_eq_SomeE)

section \<open>The first report of a call wins\<close>

datatype guest_report =
  Report_Override runtime_failure
| Report_Import string u32 import_refusal_reason
| Report_Write

fun run_report :: "guest_report \<Rightarrow> 'w thread_state \<Rightarrow> 'w thread_state option" where
  "run_report (Report_Override f) t = mark_guest_override_failed f t"
| "run_report (Report_Import library ordinal reason) t =
     mark_guest_import_refused library ordinal reason t"
| "run_report Report_Write t = Some (mark_guest_executable_write_observed t)"

text \<open>What the code of a guest call does, as far as the budget sees it: it reports, and it calls.\<close>

datatype guest_action = Report guest_report | Nested "guest_action list" execution_limits

fun run_actions :: "guest_action list \<Rightarrow> 'w thread_state \<Rightarrow> 'w thread_state option" where
  "run_actions [] t = Some t"
| "run_actions (Report report # rest) t = do { t \<leftarrow> run_report report t; run_actions rest t }"
| "run_actions (Nested inner limits # rest) t = do {
     r \<leftarrow> execute_guest_function (\<lambda>t. map_option (Pair True) (run_actions inner t)) [] limits t;
     run_actions rest (snd r) }"

fun first_report :: "guest_action list \<Rightarrow> guest_report option" where
  "first_report [] = None"
| "first_report (Report report # rest) = Some report"
| "first_report (Nested inner limits # rest) = first_report rest"

fun report_failure :: "guest_report \<Rightarrow> runtime_failure" where
  "report_failure (Report_Override f) = f"
| "report_failure (Report_Import library ordinal reason) = failure ImportServiceRefused
     (''host import '' @ library @ '' ordinal '' @ dec_of (unat ordinal)
        @ '' refused: '' @ refusal_reason_text reason)"
| "report_failure Report_Write = failure ExecutionInvalidated
     ''Xenia stopped the guest call after observing an executable write''"

text \<open>The scope of a running call: all three pointers select its objects.\<close>

definition in_call :: "nat \<Rightarrow> 'w thread_state \<Rightarrow> bool" where
  "in_call self t \<longleftrightarrow> thr_active_budget t = Some self \<and> thr_active_refusal t = Some self
     \<and> thr_active_failure t = Some self \<and> self < length (thr_objects t)"

definition keeps :: "nat \<Rightarrow> 'w thread_state \<Rightarrow> 'w thread_state \<Rightarrow> bool" where
  "keeps self t t' \<longleftrightarrow>
     in_call self t' \<and> thr_context t' = thr_context t \<and> length (thr_objects t) \<le> length (thr_objects t')
     \<and> (\<forall>j<length (thr_objects t). j \<noteq> self \<longrightarrow> thr_objects t' ! j = thr_objects t ! j)"

definition settled :: "call_objects \<Rightarrow> guest_action list \<Rightarrow> call_objects \<Rightarrow> bool" where
  "settled before actions after \<longleftrightarrow>
     (if bud_exit_reason (obj_budget before) \<noteq> Exit_None then after = before
      else case first_report actions of
        None \<Rightarrow> after = before
      | Some report \<Rightarrow> bud_exit_reason (obj_budget after) \<noteq> Exit_None
          \<and> exit_failure after = report_failure report)"

lemma run_report_in_call:
  assumes "in_call self t"
  shows "\<exists>t'. run_report report t = Some t' \<and> keeps self t t' \<and> length (thr_objects t') = length (thr_objects t)
    \<and> settled (thr_objects t ! self) [Report report] (thr_objects t' ! self)"
  using assms
  by (cases report)
    (auto simp: mark_guest_override_failed_def mark_guest_import_refused_def
      mark_guest_executable_write_observed_def in_call_def keeps_def settled_def exit_reason_of_def
      update_object_def set_exit_reason_def exit_failure_def Let_def)

lemma settled_trans:
  "settled a [Report report] b \<Longrightarrow> settled b rest c \<Longrightarrow> settled a (Report report # rest) c"
  by (auto simp: settled_def split: if_splits)

lemma keeps_trans: "keeps self t t' \<Longrightarrow> keeps self t' t'' \<Longrightarrow> keeps self t t''"
  by (auto simp: keeps_def)

text \<open>A nested call with its own objects touches nothing of the caller but the store's end.\<close>

lemma with_no_arguments [simp]: "with_arguments [] t = t"
proof -
  have "(\<lambda>i. if 3 \<le> i \<and> i < 3 + length [] then [] ! (i - 3) else ppc_r c i) = ppc_r c"
    for c :: ppc_context by (rule ext) auto
  then show ?thesis by (simp add: with_arguments_def)
qed

definition call_state :: "execution_limits \<Rightarrow> 'w thread_state \<Rightarrow> 'w thread_state" where
  "call_state limits t = snd (enter_call_frame k_return_address (snd (snd (enter_budget_scope
     \<lparr>bud_blocks = lim_max_guest_blocks limits, bud_exit_reason = Exit_None,
      bud_fault_guest_address = 0, bud_fault_was_write = False\<rparr> t))))"

lemma call_state_in_call:
  "in_call (length (thr_objects t)) (call_state limits t)"
  "bud_exit_reason (obj_budget (thr_objects (call_state limits t) ! length (thr_objects t))) = Exit_None"
  by (simp_all add: call_state_def thread_defs in_call_def)

text \<open>A call whose code keeps its scope: what it returns and what is left of the caller's state.\<close>

lemma execute_call:
  assumes "length arguments \<le> 8" and "lim_max_guest_blocks limits \<noteq> 0"
    and "call (call_state limits (with_arguments arguments t)) = Some (executed, t2)"
    and "keeps (length (thr_objects t)) (call_state limits (with_arguments arguments t)) t2"
  shows "\<exists>t'. execute_guest_function call arguments limits t = Some
      ((let objects = thr_objects t2 ! length (thr_objects t) in
        if bud_exit_reason (obj_budget objects) \<noteq> Exit_None then refused_call (exit_failure objects)
        else if \<not> executed then refused_call (failure ExecutionFailed
          ''Xenia's translated guest function refused execution'')
        else \<lparr>exr_failure = no_failure, exr_value = ppc_r (thr_context (with_arguments arguments t)) 3\<rparr>), t')
    \<and> thr_context t' = thr_context (with_arguments arguments t)
    \<and> thr_active_budget t' = thr_active_budget t \<and> thr_active_refusal t' = thr_active_refusal t
    \<and> thr_active_failure t' = thr_active_failure t
    \<and> length (thr_objects t) \<le> length (thr_objects t')
    \<and> (\<forall>j<length (thr_objects t). thr_objects t' ! j = thr_objects t ! j)"
proof -
  have c: "thr_context t2 = thr_context (call_state limits (with_arguments arguments t))"
    "length (thr_objects t) < length (thr_objects t2)"
    "\<And>j. j < length (thr_objects t) \<Longrightarrow> thr_objects t2 ! j = thr_objects t ! j"
    using assms(4)
    by (auto simp: keeps_def call_state_def thread_defs with_arguments_def nth_append)
  show ?thesis
    using assms(1-3) c unfolding call_state_def
    by (simp add: execute_guest_function_def prepare_guest_arguments_eq thread_defs)
      (simp add: with_arguments_def)
qed

lemma nested_call_keeps:
  assumes "in_call self t"
    and "\<And>self t. in_call self t \<Longrightarrow> \<exists>t'. call t = Some (True, t') \<and> keeps self t t'"
  shows "\<exists>r t'. execute_guest_function call [] limits t = Some (r, t') \<and> keeps self t t'
    \<and> thr_objects t' ! self = thr_objects t ! self"
proof (cases "lim_max_guest_blocks limits = 0")
  case True
  then show ?thesis using assms(1)
    by (simp add: execute_guest_function_def prepare_guest_arguments_eq keeps_def)
next
  case False
  obtain t2 where "call (call_state limits t) = Some (True, t2)"
      "keeps (length (thr_objects t)) (call_state limits t) t2"
    using assms(2) [OF call_state_in_call(1)] by blast
  from execute_call [of "[]" limits call t True t2] this False assms(1) show ?thesis
    by (fastforce simp: keeps_def in_call_def)
qed

lemma run_actions_in_call:
  assumes "in_call self t"
  shows "\<exists>t'. run_actions actions t = Some t' \<and> keeps self t t'
    \<and> settled (thr_objects t ! self) actions (thr_objects t' ! self)"
  using assms
proof (induction actions t arbitrary: self rule: run_actions.induct)
  case (1 t)
  then show ?case by (simp add: keeps_def settled_def)
next
  case (2 report rest t)
  obtain t1 where t1: "run_report report t = Some t1" "keeps self t t1"
      "settled (thr_objects t ! self) [Report report] (thr_objects t1 ! self)"
    using run_report_in_call [OF 2(2)] by blast
  moreover from t1(2) have "in_call self t1" by (simp add: keeps_def)
  from 2(1) [OF t1(1) this] obtain t2 where "run_actions rest t1 = Some t2" "keeps self t1 t2"
      "settled (thr_objects t1 ! self) rest (thr_objects t2 ! self)" by blast
  ultimately show ?case by (auto intro: keeps_trans settled_trans)
next
  case (3 inner limits rest t)
  have "\<exists>t'. map_option (Pair True) (run_actions inner t) = Some (True, t') \<and> keeps self t t'"
    if "in_call self t" for self and t :: "'a thread_state"
    using 3(1) [OF that] by auto
  from nested_call_keeps [OF 3(3) this] obtain r t1 where
      t1: "execute_guest_function (\<lambda>t. map_option (Pair True) (run_actions inner t)) [] limits t = Some (r, t1)"
      "keeps self t t1" "thr_objects t1 ! self = thr_objects t ! self" by blast
  moreover from t1(2) have "in_call self (snd (r, t1))" by (simp add: keeps_def)
  from 3(2) [OF t1(1) this] obtain t2 where "run_actions rest t1 = Some t2" "keeps self t1 t2"
      "settled (thr_objects t1 ! self) rest (thr_objects t2 ! self)" by auto
  ultimately show ?case by (auto simp: settled_def intro: keeps_trans)
qed

lemma execute_actions:
  assumes "length arguments \<le> 8" and "lim_max_guest_blocks limits \<noteq> 0"
  shows "\<exists>t'. execute_guest_function (\<lambda>t. map_option (Pair executed) (run_actions actions t))
      arguments limits t = Some
      (case first_report actions of
         Some report \<Rightarrow> refused_call (report_failure report)
       | None \<Rightarrow> if executed
           then \<lparr>exr_failure = no_failure, exr_value = ppc_r (thr_context (with_arguments arguments t)) 3\<rparr>
           else refused_call (failure ExecutionFailed
             ''Xenia's translated guest function refused execution''), t')
    \<and> thr_context t' = thr_context (with_arguments arguments t)
    \<and> (\<forall>j<length (thr_objects t). thr_objects t' ! j = thr_objects t ! j)"
proof -
  let ?t = "with_arguments arguments t"
  have n: "length (thr_objects ?t) = length (thr_objects t)" by (simp add: with_arguments_def)
  obtain t2 where t2: "run_actions actions (call_state limits ?t) = Some t2"
      "keeps (length (thr_objects t)) (call_state limits ?t) t2"
      "settled (thr_objects (call_state limits ?t) ! length (thr_objects t)) actions
        (thr_objects t2 ! length (thr_objects t))"
    using run_actions_in_call [OF call_state_in_call(1) [of ?t limits], of actions] n by auto
  have "map_option (Pair executed) (run_actions actions (call_state limits ?t)) = Some (executed, t2)"
    using t2(1) by simp
  from execute_call [where call = "\<lambda>t. map_option (Pair executed) (run_actions actions t)",
      OF assms this t2(2)] t2(3) call_state_in_call(2) [of limits ?t] n show ?thesis
    by (fastforce simp: settled_def Let_def split: option.split)
qed

section \<open>The fault guard\<close>

text \<open>
  \<open>GuestFaultGuard\<close>: an exception on a guest call's thread becomes an exit reason of that call when
  it is an access violation inside generated code. The code cache and the memory map are Xenia's.
\<close>

record host_function =
  hfn_machine_code :: "u64 option"
  hfn_machine_code_length :: nat
  hfn_epilog_offset :: nat

record code_cache =
  cch_execute_base :: u64
  cch_total_size :: u64
  cch_lookup_function :: "u64 \<Rightarrow> host_function option"

record memory_map =
  mem_virtual_membase :: u64
  mem_host_to_guest_virtual :: "u64 \<Rightarrow> u32"

record host_exception =
  exc_access_violation :: bool
  exc_pc :: u64
  exc_fault_address :: u64
  exc_is_write :: bool
  exc_resume_pc :: "u64 option"

definition in_generated_code :: "code_cache \<Rightarrow> u64 \<Rightarrow> bool" where
  "in_generated_code cache host_pc \<longleftrightarrow>
     host_pc \<ge> cch_execute_base cache \<and> host_pc < cch_execute_base cache + cch_total_size cache"

definition claim_fault ::
  "code_cache \<Rightarrow> memory_map \<Rightarrow> host_exception \<Rightarrow> 'w thread_state \<Rightarrow>
   bool \<times> host_exception \<times> 'w thread_state" where
  "claim_fault cache memory e t =
     (if \<not> exc_access_violation e then (False, e, t)
      else (case thr_active_budget t of
        None \<Rightarrow> (False, e, t)
      | Some b \<Rightarrow>
        if exit_reason_of t b \<noteq> Exit_None then (False, e, t)
        else if \<not> in_generated_code cache (exc_pc e) then (False, e, t)
        else (case cch_lookup_function cache (exc_pc e) of
          None \<Rightarrow> (False, e, t)
        | Some fn \<Rightarrow>
          (case hfn_machine_code fn of
            None \<Rightarrow> (False, e, t)
          | Some machine_code \<Rightarrow>
            if hfn_epilog_offset fn = 0 \<or> hfn_epilog_offset fn \<ge> hfn_machine_code_length fn
            then (False, e, t)
            else
              let address = (if exc_fault_address e \<ge> mem_virtual_membase memory
                    then (\<lambda>_. mem_host_to_guest_virtual memory
                      (mem_virtual_membase memory + (exc_fault_address e - mem_virtual_membase memory)))
                    else id);
                  budget = (\<lambda>budget. budget
                    \<lparr>bud_fault_guest_address := address (bud_fault_guest_address budget),
                     bud_fault_was_write := exc_is_write e,
                     bud_exit_reason := Guest_Access_Violated\<rparr>)
              in (True,
                  e\<lparr>exc_resume_pc := Some (machine_code + word_of_nat (hfn_epilog_offset fn))\<rparr>,
                  update_object b (obj_budget_update budget) t)))))"

definition dispatch_fault ::
  "(code_cache \<times> memory_map) option \<Rightarrow> host_exception option \<Rightarrow> 'w thread_state \<Rightarrow>
   bool \<times> host_exception option \<times> 'w thread_state" where
  "dispatch_fault guard exception t =
     (case (exception, guard) of
        (Some e, Some (cache, memory)) \<Rightarrow>
          (case claim_fault cache memory e t of (claimed, e, t) \<Rightarrow> (claimed, Some e, t))
      | _ \<Rightarrow> (False, exception, t))"

lemma claim_fault_declined:
  "fst (claim_fault cache memory e t) = False \<Longrightarrow> claim_fault cache memory e t = (False, e, t)"
  by (auto simp: claim_fault_def Let_def split: if_splits option.splits)

lemma claim_fault_claimed:
  assumes "claim_fault cache memory e t = (True, e', t')"
  shows "exc_access_violation e \<and> in_generated_code cache (exc_pc e)
    \<and> (\<exists>b fn code. thr_active_budget t = Some b \<and> exit_reason_of t b = Exit_None
      \<and> cch_lookup_function cache (exc_pc e) = Some fn \<and> hfn_machine_code fn = Some code
      \<and> 0 < hfn_epilog_offset fn \<and> hfn_epilog_offset fn < hfn_machine_code_length fn
      \<and> e' = e\<lparr>exc_resume_pc := Some (code + word_of_nat (hfn_epilog_offset fn))\<rparr>
      \<and> (\<exists>f. t' = update_object b f t)
      \<and> (b < length (thr_objects t) \<longrightarrow>
          fail_error (exit_failure (thr_objects t' ! b)) = GuestAccessViolation))"
  using assms
  by (auto simp: claim_fault_def Let_def update_object_def exit_failure_def
      split: if_splits option.splits)

section \<open>Properties\<close>

text \<open>Whatever the code of a guest call does, \<open>ExecuteGuestFunction\<close> leaves the thread's active
  call pointers, the context's budget, the stack pointer and the link register as it found them, on
  every path.\<close>

lemma execute_guest_function_restores:
  assumes "execute_guest_function call arguments limits t = Some (r, t')"
  shows "same_scope t t'"
  by (rule execute_restores [OF assms])

definition idle_thread :: "unit thread_state" where
  "idle_thread = \<lparr>thr_context = \<lparr>ppc_r = (\<lambda>_. 0), ppc_lr = 0, ppc_execution_budget = None\<rparr>,
     thr_active_budget = None, thr_active_refusal = None, thr_active_failure = None,
     thr_objects = [], thr_world = ()\<rparr>"

definition clobbering_code :: "unit guest_code" where
  "clobbering_code t = Some (True, t\<lparr>thr_active_budget := Some 7,
     thr_context := \<lparr>ppc_r = (\<lambda>_. 5), ppc_lr = 9, ppc_execution_budget = Some 3\<rparr>\<rparr>)"

theorem execute_guest_function_restores_witness:
  "\<exists>t'. execute_guest_function clobbering_code [1, 2] \<lparr>lim_max_guest_blocks = 10,
      lim_max_interpreter_instructions = 0\<rparr> idle_thread
      = Some (\<lparr>exr_failure = no_failure, exr_value = 5\<rparr>, t') \<and> same_scope idle_thread t'"
proof -
  obtain t' where run: "execute_guest_function clobbering_code [1, 2] \<lparr>lim_max_guest_blocks = 10,
      lim_max_interpreter_instructions = 0\<rparr> idle_thread
      = Some (\<lparr>exr_failure = no_failure, exr_value = 5\<rparr>, t')"
    by (simp add: execute_guest_function_def prepare_guest_arguments_eq thread_defs
        clobbering_code_def with_arguments_def idle_thread_def)
  from execute_guest_function_restores [OF run] run show ?thesis by blast
qed

text \<open>C9: a bounded call of code that reports and makes nested bounded calls ends with what its own
  first report says: an override's failure, an import refusal, an executable write, and without a
  report with the value left in \<open>r3\<close>. Later reports and everything that happens in nested calls
  change nothing, and no object of an outer call is touched.\<close>

theorem first_report_decides_call:
  assumes "length arguments \<le> 8" and "lim_max_guest_blocks limits \<noteq> 0"
  shows "\<exists>t'. execute_guest_function (\<lambda>t. map_option (Pair executed) (run_actions actions t))
      arguments limits t = Some
      (case first_report actions of
         Some report \<Rightarrow> refused_call (report_failure report)
       | None \<Rightarrow> if executed
           then \<lparr>exr_failure = no_failure, exr_value = ppc_r (thr_context (with_arguments arguments t)) 3\<rparr>
           else refused_call (failure ExecutionFailed
             ''Xenia's translated guest function refused execution''), t')
    \<and> thr_context t' = thr_context (with_arguments arguments t)
    \<and> (\<forall>j<length (thr_objects t). thr_objects t' ! j = thr_objects t ! j)"
  by (rule execute_actions [OF assms])

definition sample_limits :: execution_limits where
  "sample_limits = \<lparr>lim_max_guest_blocks = 10, lim_max_interpreter_instructions = 0\<rparr>"

theorem first_report_decides_call_witness:
  "\<exists>t'. execute_guest_function (\<lambda>t. map_option (Pair True) (run_actions
      [Nested [Report (Report_Import ''xam.xex'' 3 HostUnavailable)] sample_limits, Report Report_Write,
       Report (Report_Override no_failure)] t)) [7] sample_limits idle_thread
    = Some (refused_call (report_failure Report_Write), t')"
  using first_report_decides_call [of "[7]" sample_limits True "[Nested [Report (Report_Import
    ''xam.xex'' 3 HostUnavailable)] sample_limits, Report Report_Write, Report (Report_Override no_failure)]"
    idle_thread]
  by (auto simp: sample_limits_def)

text \<open>The fault guard claims an exception only when it is an access violation in generated code of
  a running call that has no exit reason yet. It then resumes inside that function's machine code,
  at its epilogue, and the call reports a guest access violation; a fault it does not claim changes
  nothing.\<close>

lemma fault_guard_claims_only_guest_faults:
  "case claim_fault cache memory e t of (claimed, e', t') \<Rightarrow>
     if claimed
     then exc_access_violation e \<and> in_generated_code cache (exc_pc e)
       \<and> (\<exists>b fn code. thr_active_budget t = Some b \<and> exit_reason_of t b = Exit_None
         \<and> cch_lookup_function cache (exc_pc e) = Some fn \<and> hfn_machine_code fn = Some code
         \<and> 0 < hfn_epilog_offset fn \<and> hfn_epilog_offset fn < hfn_machine_code_length fn
         \<and> e' = e\<lparr>exc_resume_pc := Some (code + word_of_nat (hfn_epilog_offset fn))\<rparr>
         \<and> (\<exists>f. t' = update_object b f t)
         \<and> (if b < length (thr_objects t)
            then fail_error (exit_failure (thr_objects t' ! b)) = GuestAccessViolation else True))
     else e' = e \<and> t' = t"
proof (cases "claim_fault cache memory e t")
  case (fields claimed e' t')
  show ?thesis
  proof (cases claimed)
    case True
    with fields claim_fault_claimed [of cache memory e t e' t'] show ?thesis by auto
  next
    case False
    with fields claim_fault_declined [of cache memory e t] show ?thesis by auto
  qed
qed

end
