(* ===== verification/Guest_Import.thy ===== *)
theory Guest_Import imports Xenia_Memory Guest_Execution Guest_Endian begin

text \<open>
  What an import handler sees: \<open>GuestImportContext\<close> of \<open>include/x360port/validation.hpp\<close> with the
  memory accesses and \<open>DispatchFunction\<close> of \<open>src/runtime_imports.cpp\<close>. A handler is host code the
  embedder supplies, so it is a function of the context and of the world; its effects on the guest
  go through the context.

  The import context is the third instance of \<open>guest_accessor\<close>. Unlike the mapped accesses it accepts
  an empty range, and tests the access by comparing it with two of Xenia's constants.
\<close>

section \<open>The context\<close>

text \<open>\<open>ic_memory\<close> is whether the memory pointer is set.\<close>

record import_context =
  ic_arguments :: "u64 list"
  ic_return_value :: u64
  ic_memory :: bool
  ic_refusal :: "import_refusal_reason option"

definition argument_count :: nat where "argument_count = 8"

definition new_import_context :: "u64 list \<Rightarrow> bool \<Rightarrow> import_context" where
  "new_import_context arguments memory =
     \<lparr>ic_arguments = arguments, ic_return_value = arguments ! 0, ic_memory = memory, ic_refusal = None\<rparr>"

definition argument :: "import_context \<Rightarrow> nat \<Rightarrow> u64" where
  "argument ic index = (if index < length (ic_arguments ic) then ic_arguments ic ! index else 0)"

definition set_return_value :: "u64 \<Rightarrow> import_context \<Rightarrow> import_context" where
  "set_return_value v ic = ic\<lparr>ic_return_value := v\<rparr>"

definition refuse_import :: "import_refusal_reason \<Rightarrow> import_context \<Rightarrow> import_context" where
  "refuse_import reason ic = ic\<lparr>ic_refusal := Some reason\<rparr>"

section \<open>Its memory\<close>

definition is_readable :: "'x xenia_memory \<Rightarrow> u32 \<Rightarrow> bool" where
  "is_readable xm access \<longleftrightarrow> access = xm_read_only xm \<or> access = xm_read_write xm"

definition is_writable :: "'x xenia_memory \<Rightarrow> u32 \<Rightarrow> bool" where
  "is_writable xm access \<longleftrightarrow> access = xm_read_write xm"

definition is_accessible ::
  "'x xenia_memory \<Rightarrow> bool \<Rightarrow> guest_address \<Rightarrow> nat \<Rightarrow> bool \<Rightarrow> 'x \<Rightarrow> bool" where
  "is_accessible xm memory address n writing x =
     (if \<not> memory \<or> n > 0xFFFFFFFF \<or> (n \<noteq> 0 \<and> address > 0xFFFFFFFF - word_of_nat (n - 1)) then False
      else if n = 0 then True
      else (let final = address + word_of_nat (n - 1) in
        case xm_lookup_heap xm address of
          None \<Rightarrow> False
        | Some heap \<Rightarrow>
            if xm_lookup_heap xm final \<noteq> Some heap then False
            else (let access = xm_range_access xm heap address final x in
              if writing then is_writable xm access else is_readable xm access)))"

definition read_memory ::
  "'x xenia_memory \<Rightarrow> import_context \<Rightarrow> guest_address \<Rightarrow> bytes \<Rightarrow> 'x \<Rightarrow> bool \<times> bytes" where
  "read_memory xm ic address dst x =
     (if \<not> is_accessible xm (ic_memory ic) address (length dst) False x then (False, dst)
      else (True, if dst \<noteq> [] then xm_load xm address (length dst) x else dst))"

definition write_memory ::
  "'x xenia_memory \<Rightarrow> import_context \<Rightarrow> guest_address \<Rightarrow> bytes \<Rightarrow> 'x \<Rightarrow> bool \<times> 'x" where
  "write_memory xm ic address bs x =
     (if \<not> is_accessible xm (ic_memory ic) address (length bs) True x then (False, x)
      else (True, if bs \<noteq> [] then xm_store xm address bs x else x))"

interpretation imported: guest_accessor xm "\<lambda>w a n x. is_accessible xm (ic_memory ic) a n w x"
    "read_memory xm ic" "write_memory xm ic" "\<lambda>ok. ok" for xm ic
  by unfold_locales (simp_all add: read_memory_def write_memory_def)

lemma unat_max_minus: "unat (0xFFFFFFFF - m :: u32) = 0xFFFFFFFF - unat m"
  using unat_sub [of m "0xFFFFFFFF"] unat_u32_less [of m] by (simp add: word_le_nat_alt)

lemma last_address:
  fixes a :: u32
  assumes "n \<le> 0xFFFFFFFF" "0 < n"
  shows "0xFFFFFFFF - word_of_nat (n - 1) < a \<longleftrightarrow> \<not> fits a n"
proof -
  have "unat (word_of_nat (n - 1) :: u32) = n - 1" using assms by (intro unat_word_of_nat_u32) simp
  then show ?thesis
    unfolding word_less_nat_alt unat_max_minus fits_def using assms by (simp only:) auto
qed

text \<open>An accessible range never wraps around the address space.\<close>

lemma is_accessible_fits:
  assumes "is_accessible xm memory a n w x" "0 < n"
  shows "fits a n" "\<exists>h. xm_lookup_heap xm a = Some h \<and> xm_lookup_heap xm (a + word_of_nat (n - 1)) = Some h"
  using assms last_address [of n a]
  by (auto simp: is_accessible_def Let_def split: if_splits option.splits)

text \<open>A handler writes all of a buffer or nothing.\<close>

lemma stored_buffer:
  assumes "heap_bytes xm" "write_memory xm ic a bs x = (True, x')" "bs \<noteq> []"
  shows "xm_load xm a (length bs) x' = bs"
proof -
  have ok: "is_accessible xm (ic_memory ic) a (length bs) True x"
    using assms(2) imported.accepted_write [of xm ic a bs x] by simp
  with assms(3) is_accessible_fits [OF ok] have "fits a (length bs)" "xm_lookup_heap xm a \<noteq> None" by auto
  moreover have "x' = xm_store xm a bs x"
    using assms(2,3) imported.write_bytes [of xm ic a bs x] ok by simp
  ultimately show ?thesis using heap_bytes_load_store [OF assms(1)] by blast
qed

lemma refused_buffer: "write_memory xm ic a bs x = (False, x') \<Longrightarrow> x' = x"
  by (auto simp: write_memory_def split: if_splits)


section \<open>Guest words through the context\<close>

definition read_word :: "'x xenia_memory \<Rightarrow> import_context \<Rightarrow> guest_address \<Rightarrow> 'x \<Rightarrow> u32 option" where
  "read_word xm ic address x =
     (case read_memory xm ic address (replicate 4 0) x of
        (ok, bytes) \<Rightarrow> if \<not> ok then None else from_guest_word bytes)"

definition write_word ::
  "'x xenia_memory \<Rightarrow> import_context \<Rightarrow> guest_address \<Rightarrow> u32 \<Rightarrow> 'x \<Rightarrow> bool \<times> 'x" where
  "write_word xm ic address v x =
     (case to_guest_word v of Some bytes \<Rightarrow> write_memory xm ic address bytes x | None \<Rightarrow> (False, x))"

lemma write_word_eq [simp]: "write_word xm ic a v x = write_memory xm ic a (be_bytes32 v) x"
  by (simp add: write_word_def byte_simps)

lemma read_word_after_write:
  assumes "heap_bytes xm" "fst (write_word xm ic a v x)"
    and "is_accessible xm (ic_memory ic') a 4 False (snd (write_word xm ic a v x))"
  shows "read_word xm ic' a (snd (write_word xm ic a v x)) = Some v"
proof -
  have "is_accessible xm (ic_memory ic) a 4 True x"
    using assms(2) by (simp add: imported.accepted_write)
  from is_accessible_fits [OF this] have "fits a 4" "xm_lookup_heap xm a \<noteq> None" by auto
  then have "xm_load xm a 4 (xm_store xm a (be_bytes32 v) x) = be_bytes32 v"
    using heap_bytes_load_store [OF assms(1), of a "be_bytes32 v"] by simp
  moreover have "snd (write_memory xm ic a (be_bytes32 v) x) = xm_store xm a (be_bytes32 v) x"
    using assms(2) by (auto simp: imported.write_bytes imported.accepted_write be_bytes32_def)
  ultimately show ?thesis
    using assms(3) by (simp add: read_word_def read_memory_def byte_simps)
qed

end
