(* ===== verification/Import_Claims.thy ===== *)
theory Import_Claims imports Module_Validation Runtime_Failure begin

text \<open>
  Imports claimed by export name: \<open>src/export_names.cpp\<close> and \<open>src/import_claims.cpp\<close>. The ordinal
  tables are vendored Xenia data, so they are a parameter (\<open>export_tables\<close>). A claim table is
  resolved as a whole or not at all; a resolved table installs its handlers into the bindings of a
  manifest, one \<open>Apply\<close> per import.
\<close>

section \<open>Export names\<close>

datatype export_library = Kernel | Xam

record export_entry =
  exp_name :: string
  exp_ordinal :: u32
  exp_kind :: import_kind

record export_tables =
  kernel_exports :: "export_entry list"
  xam_exports :: "export_entry list"

definition kernel_library_name :: string where "kernel_library_name = ''xboxkrnl.exe''"
definition xam_library_name :: string where "xam_library_name = ''xam.xex''"

fun exports :: "export_tables \<Rightarrow> export_library \<Rightarrow> export_entry list" where
  "exports tables Kernel = kernel_exports tables"
| "exports tables Xam = xam_exports tables"

definition parse_library :: "string \<Rightarrow> export_library option" where
  "parse_library name =
     (if name = kernel_library_name then Some Kernel
      else if name = xam_library_name then Some Xam else None)"

definition find_export_ordinal ::
  "export_tables \<Rightarrow> export_library \<Rightarrow> u32 \<Rightarrow> export_entry option" where
  "find_export_ordinal tables library ordinal =
     find (\<lambda>e. exp_ordinal e = ordinal) (exports tables library)"

definition find_export_name ::
  "export_tables \<Rightarrow> export_library \<Rightarrow> string \<Rightarrow> export_entry option" where
  "find_export_name tables library name = find (\<lambda>e. exp_name e = name) (exports tables library)"

definition export_count :: "export_tables \<Rightarrow> export_library \<Rightarrow> nat" where
  "export_count tables library = length (exports tables library)"

section \<open>Claims\<close>

record ('handler, 'context) import_claim =
  clm_library :: export_library
  clm_export_name :: string
  clm_handler :: "'handler option"
  clm_context :: "'context option"

record ('handler, 'context) resolved_claim =
  res_library :: export_library
  res_ordinal :: u32
  res_handler :: "'handler option"
  res_context :: "'context option"

record ('handler, 'context) import_claim_table =
  tbl_resolved :: "('handler, 'context) resolved_claim list"
  tbl_applied :: nat

definition library_name :: "export_library \<Rightarrow> string" where
  "library_name library = (if library = Kernel then kernel_library_name else xam_library_name)"

definition describe_claim :: "('h, 'c) import_claim \<Rightarrow> string" where
  "describe_claim claim = library_name (clm_library claim) @ '' export '' @ clm_export_name claim"

fun resolve_claims_loop ::
  "export_tables \<Rightarrow> ('h, 'c) import_claim list \<Rightarrow> ('h, 'c) resolved_claim list \<Rightarrow>
   runtime_failure + ('h, 'c) resolved_claim list" where
  "resolve_claims_loop tables [] resolved = Inr resolved"
| "resolve_claims_loop tables (claim # rest) resolved =
     (let refused = (\<lambda>detail. Inl (failure ImportValidationFailed (describe_claim claim @ detail))) in
      if clm_handler claim = None then refused '' was claimed without a handler''
      else (case find_export_name tables (clm_library claim) (clm_export_name claim) of
        None \<Rightarrow> refused ('' is not declared by that library; ''
          @ dec_of (export_count tables (clm_library claim)) @ '' exports were searched'')
      | Some found \<Rightarrow>
          if exp_kind found \<noteq> Function
          then refused '' is a variable export and cannot take a handler''
          else if find (\<lambda>c. res_library c = clm_library claim \<and> res_ordinal c = exp_ordinal found)
            resolved \<noteq> None
          then refused '' was claimed by more than one service''
          else resolve_claims_loop tables rest (resolved @
            [\<lparr>res_library = clm_library claim, res_ordinal = exp_ordinal found,
              res_handler = clm_handler claim, res_context = clm_context claim\<rparr>])))"

definition resolve_claims ::
  "export_tables \<Rightarrow> ('h, 'c) import_claim list \<Rightarrow> ('h, 'c) import_claim_table \<Rightarrow>
   runtime_failure \<times> ('h, 'c) import_claim_table" where
  "resolve_claims tables claims table =
     (case resolve_claims_loop tables claims [] of
        Inl f \<Rightarrow> (f, table)
      | Inr resolved \<Rightarrow> (no_failure, table\<lparr>tbl_resolved := resolved, tbl_applied := 0\<rparr>))"

definition find_claim ::
  "('h, 'c) import_claim_table \<Rightarrow> export_library \<Rightarrow> u32 \<Rightarrow> ('h, 'c) resolved_claim option" where
  "find_claim table library ordinal =
     find (\<lambda>c. res_library c = library \<and> res_ordinal c = ordinal) (tbl_resolved table)"

definition apply_claim ::
  "import_requirement \<Rightarrow> ('h, 'r, 'c) import_binding \<Rightarrow> ('h, 'c) import_claim_table \<Rightarrow>
   ('h, 'r, 'c) import_binding \<times> ('h, 'c) import_claim_table" where
  "apply_claim requirement binding table =
     (if imp_kind requirement \<noteq> Function then (binding, table)
      else (case parse_library (imp_library requirement) of
        None \<Rightarrow> (binding, table)
      | Some library \<Rightarrow>
          (case find_claim table library (imp_ordinal requirement) of
            None \<Rightarrow> (binding, table)
          | Some claim \<Rightarrow>
              (binding\<lparr>bind_function_handler := res_handler claim,
                 bind_function_context := res_context claim\<rparr>,
               table\<lparr>tbl_applied := tbl_applied table + 1\<rparr>))))"

definition clear_claims :: "('h, 'c) import_claim_table \<Rightarrow> ('h, 'c) import_claim_table" where
  "clear_claims table = table\<lparr>tbl_resolved := [], tbl_applied := 0\<rparr>"

text \<open>The composition owner's walk: one \<open>Apply\<close> per import, each on its own binding.\<close>

fun apply_claims ::
  "(import_requirement \<times> ('h, 'r, 'c) import_binding) list \<Rightarrow> ('h, 'c) import_claim_table \<Rightarrow>
   ('h, 'r, 'c) import_binding list \<times> ('h, 'c) import_claim_table" where
  "apply_claims [] table = ([], table)"
| "apply_claims ((requirement, binding) # rest) table =
     (let (binding, table) = apply_claim requirement binding table;
          (bindings, table) = apply_claims rest table in (binding # bindings, table))"

section \<open>All or nothing\<close>

definition claim_key :: "('h, 'c) resolved_claim \<Rightarrow> export_library \<times> u32" where
  "claim_key = (\<lambda>c. (res_library c, res_ordinal c))"

text \<open>What one claim resolves to.\<close>

definition resolves_to ::
  "export_tables \<Rightarrow> ('h, 'c) import_claim \<Rightarrow> ('h, 'c) resolved_claim \<Rightarrow> bool" where
  "resolves_to tables claim r \<longleftrightarrow>
     clm_handler claim \<noteq> None
     \<and> (case find_export_name tables (clm_library claim) (clm_export_name claim) of
          None \<Rightarrow> False
        | Some found \<Rightarrow> exp_kind found = Function
            \<and> r = \<lparr>res_library = clm_library claim, res_ordinal = exp_ordinal found,
                res_handler = clm_handler claim, res_context = clm_context claim\<rparr>)"

lemma resolve_claims_loop_ok:
  "resolve_claims_loop tables claims resolved = Inr result \<Longrightarrow> distinct (map claim_key resolved) \<Longrightarrow>
   distinct (map claim_key result)
   \<and> (\<exists>added. result = resolved @ added \<and> list_all2 (resolves_to tables) claims added)"
proof (induction claims arbitrary: resolved)
  case (Cons claim rest)
  from Cons.prems(1) obtain found where
      found: "find_export_name tables (clm_library claim) (clm_export_name claim) = Some found"
      "clm_handler claim \<noteq> None" "exp_kind found = Function"
      "find (\<lambda>c. res_library c = clm_library claim \<and> res_ordinal c = exp_ordinal found) resolved = None"
    by (auto simp: Let_def split: if_splits option.splits)
  define r where "r = \<lparr>res_library = clm_library claim, res_ordinal = exp_ordinal found,
    res_handler = clm_handler claim, res_context = clm_context claim\<rparr>"
  have "resolve_claims_loop tables rest (resolved @ [r]) = Inr result"
    using Cons.prems(1) found by (simp add: r_def)
  moreover have "distinct (map claim_key (resolved @ [r]))"
    using Cons.prems(2) found(4) by (auto simp: r_def claim_key_def find_None_iff)
  ultimately obtain added where added: "distinct (map claim_key result)"
      "result = (resolved @ [r]) @ added" "list_all2 (resolves_to tables) rest added"
    using Cons.IH [of "resolved @ [r]"] by blast
  moreover have "resolves_to tables claim r"
    using found by (simp add: resolves_to_def r_def)
  ultimately show ?case by auto
qed auto

lemma resolve_claims_loop_refuses:
  "resolve_claims_loop tables claims resolved = Inl f \<Longrightarrow> fail_error f = ImportValidationFailed"
  by (induction claims arbitrary: resolved)
    (auto simp: Let_def split: if_splits option.splits)

text \<open>The reverse: claims that resolve, with distinct targets, are never refused.\<close>

lemma resolve_claims_loop_complete:
  "list_all2 (resolves_to tables) claims added \<Longrightarrow> distinct (map claim_key (resolved @ added)) \<Longrightarrow>
   resolve_claims_loop tables claims resolved = Inr (resolved @ added)"
proof (induction claims arbitrary: resolved added)
  case (Cons claim rest)
  then obtain r added' where added: "added = r # added'" "resolves_to tables claim r"
      "list_all2 (resolves_to tables) rest added'"
    by (auto simp: list_all2_Cons1)
  then obtain found where
      found: "find_export_name tables (clm_library claim) (clm_export_name claim) = Some found"
      "clm_handler claim \<noteq> None" "exp_kind found = Function"
      "r = \<lparr>res_library = clm_library claim, res_ordinal = exp_ordinal found,
        res_handler = clm_handler claim, res_context = clm_context claim\<rparr>"
    by (auto simp: resolves_to_def split: option.splits)
  have "find (\<lambda>c. res_library c = clm_library claim \<and> res_ordinal c = exp_ordinal found) resolved = None"
    using Cons.prems(2) added(1) found(4) by (force simp: find_None_iff claim_key_def)
  with found added Cons.IH [of added' "resolved @ [r]"] Cons.prems(2) show ?case by simp
qed simp

section \<open>Applying claims\<close>

definition claimed :: "('h, 'c) import_claim_table \<Rightarrow> import_requirement \<Rightarrow> bool" where
  "claimed table requirement \<longleftrightarrow>
     imp_kind requirement = Function
     \<and> (\<exists>library claim. parse_library (imp_library requirement) = Some library
          \<and> find_claim table library (imp_ordinal requirement) = Some claim)"

definition blank_binding :: "import_requirement \<Rightarrow> ('h, 'r, 'c) import_binding" where
  "blank_binding requirement =
     \<lparr>bind_library = imp_library requirement, bind_ordinal = imp_ordinal requirement,
      bind_kind = imp_kind requirement, bind_function_handler = None, bind_function_context = None,
      bind_variable_resolver = None, bind_variable_context = None\<rparr>"

lemma apply_claim_unclaimed: "\<not> claimed table requirement \<Longrightarrow> apply_claim requirement binding table = (binding, table)"
  by (auto simp: apply_claim_def claimed_def split: option.splits)

lemma apply_claim_resolved [simp]:
  "tbl_resolved (snd (apply_claim requirement binding table)) = tbl_resolved table"
  by (auto simp: apply_claim_def split: option.splits)

lemma claimed_cong: "tbl_resolved t = tbl_resolved t' \<Longrightarrow> claimed t = claimed t'"
  by (simp add: claimed_def find_claim_def fun_eq_iff)

lemma apply_claim_applied:
  "tbl_applied (snd (apply_claim requirement binding table)) =
     tbl_applied table + (if claimed table requirement then 1 else 0)"
  by (auto simp: apply_claim_def claimed_def split: option.splits)

lemma apply_claim_fst_cong:
  "tbl_resolved t = tbl_resolved t' \<Longrightarrow>
   fst (apply_claim requirement binding t) = fst (apply_claim requirement binding t')"
  by (auto simp: apply_claim_def find_claim_def split: option.splits)

lemma apply_claims_eq:
  "apply_claims pairs table =
     (map (\<lambda>(requirement, binding). fst (apply_claim requirement binding table)) pairs,
      table\<lparr>tbl_applied := tbl_applied table + length (filter (claimed table \<circ> fst) pairs)\<rparr>)"
proof (induction pairs arbitrary: table)
  case (Cons p pairs)
  obtain requirement binding where p: "p = (requirement, binding)" by (cases p)
  let ?t = "snd (apply_claim requirement binding table)"
  have t: "?t = table\<lparr>tbl_applied := tbl_applied table + (if claimed table requirement then 1 else 0)\<rparr>"
    using apply_claim_applied [of requirement binding table]
      apply_claim_resolved [of requirement binding table]
    by (simp add: import_claim_table.equality)
  have c: "claimed ?t = claimed table" "\<And>r b. fst (apply_claim r b ?t) = fst (apply_claim r b table)"
    by (rule claimed_cong, simp) (rule apply_claim_fst_cong, simp)
  show ?case
    using Cons.IH [of ?t] by (simp add: p split_beta Let_def c) (simp add: t)
qed simp

lemma find_claim_handler:
  assumes "list_all (\<lambda>c. res_handler c \<noteq> None) (tbl_resolved table)"
    and "find_claim table library ordinal = Some claim"
  shows "res_handler claim \<noteq> None"
  using assms by (auto simp: find_claim_def list_all_iff find_Some_iff)

lemma apply_claim_fits:
  assumes "list_all (\<lambda>c. res_handler c \<noteq> None) (tbl_resolved table)" and "claimed table requirement"
  shows "binding_fits requirement (fst (apply_claim requirement (blank_binding requirement) table))"
  using assms find_claim_handler [OF assms(1)]
  by (auto simp: claimed_def apply_claim_def blank_binding_def binding_fits_def)

text \<open>
  What a claim asks for, by the names: a function import of the claim's library whose ordinal is that of
  the first export with the claimed name.
\<close>

definition claims_import :: "export_tables \<Rightarrow> ('h, 'c) import_claim \<Rightarrow> import_requirement \<Rightarrow> bool" where
  "claims_import tables claim requirement \<longleftrightarrow>
     imp_kind requirement = Function
     \<and> (case clm_library claim of
          Kernel \<Rightarrow> imp_library requirement = ''xboxkrnl.exe''
            \<and> map_of (map (\<lambda>e. (exp_name e, exp_ordinal e)) (kernel_exports tables)) (clm_export_name claim)
              = Some (imp_ordinal requirement)
        | Xam \<Rightarrow> imp_library requirement = ''xam.xex''
            \<and> map_of (map (\<lambda>e. (exp_name e, exp_ordinal e)) (xam_exports tables)) (clm_export_name claim)
              = Some (imp_ordinal requirement))"

lemma find_name_map_of:
  "map_option exp_ordinal (find (\<lambda>e. exp_name e = n) es) = map_of (map (\<lambda>e. (exp_name e, exp_ordinal e)) es) n"
  by (induction es) auto

lemma parse_library_iff:
  "parse_library name = Some library \<longleftrightarrow>
     (case library of Kernel \<Rightarrow> name = ''xboxkrnl.exe'' | Xam \<Rightarrow> name = ''xam.xex'')"
  by (cases library) (auto simp: parse_library_def kernel_library_name_def xam_library_name_def)

lemma claims_import_resolved:
  assumes "resolves_to tables claim r"
  shows "claims_import tables claim requirement \<longleftrightarrow> imp_kind requirement = Function
    \<and> parse_library (imp_library requirement) = Some (res_library r) \<and> res_ordinal r = imp_ordinal requirement"
    and "res_handler r = clm_handler claim" "res_context r = clm_context claim" "clm_handler claim \<noteq> None"
proof -
  from assms obtain found where f: "find_export_name tables (clm_library claim) (clm_export_name claim) = Some found"
    "clm_handler claim \<noteq> None" "r = \<lparr>res_library = clm_library claim, res_ordinal = exp_ordinal found,
                res_handler = clm_handler claim, res_context = clm_context claim\<rparr>"
    by (auto simp: resolves_to_def split: option.splits)
  then have "map_of (map (\<lambda>e. (exp_name e, exp_ordinal e)) (exports tables (clm_library claim))) (clm_export_name claim)
      = Some (res_ordinal r)"
    by (simp add: find_export_name_def find_name_map_of [symmetric])
  with f show "claims_import tables claim requirement \<longleftrightarrow> imp_kind requirement = Function
    \<and> parse_library (imp_library requirement) = Some (res_library r) \<and> res_ordinal r = imp_ordinal requirement"
    by (cases "clm_library claim") (auto simp: claims_import_def parse_library_iff)
  from f show "res_handler r = clm_handler claim" "res_context r = clm_context claim" "clm_handler claim \<noteq> None"
    by simp_all
qed

lemma find_claim_iff:
  assumes "distinct (map claim_key (tbl_resolved table))"
  shows "find_claim table library ordinal = Some r \<longleftrightarrow>
    r \<in> set (tbl_resolved table) \<and> res_library r = library \<and> res_ordinal r = ordinal"
proof -
  have "find P xs = Some r \<longleftrightarrow> r \<in> set xs \<and> claim_key r = (library, ordinal)"
    if "distinct (map claim_key xs)" "P = (\<lambda>c. claim_key c = (library, ordinal))"
    for P and xs :: "('a, 'b) resolved_claim list"
    using that by (induction xs) (auto simp: rev_image_eqI)
  from this [OF assms refl] show ?thesis
    by (simp add: find_claim_def claim_key_def)
qed

text \<open>One import against a resolved table: the claim that asks for it, or none.\<close>

lemma apply_resolved:
  assumes "list_all2 (resolves_to tables) claims (tbl_resolved table)"
    and "distinct (map claim_key (tbl_resolved table))"
  shows "claim \<in> set claims \<Longrightarrow> claims_import tables claim requirement \<Longrightarrow>
      clm_handler claim \<noteq> None \<and> fst (apply_claim requirement binding table) =
        binding\<lparr>bind_function_handler := clm_handler claim, bind_function_context := clm_context claim\<rparr>"
    and "claimed table requirement \<longleftrightarrow> (\<exists>claim\<in>set claims. claims_import tables claim requirement)"
proof -
  have resolved: "\<exists>r\<in>set (tbl_resolved table). resolves_to tables claim r" if "claim \<in> set claims" for claim
    using assms(1) that by (metis in_set_conv_nth list_all2_conv_all_nth)
  have origin: "\<exists>claim\<in>set claims. resolves_to tables claim r" if "r \<in> set (tbl_resolved table)" for r
    using assms(1) that by (metis in_set_conv_nth list_all2_conv_all_nth)
  show "clm_handler claim \<noteq> None \<and> fst (apply_claim requirement binding table) =
        binding\<lparr>bind_function_handler := clm_handler claim, bind_function_context := clm_context claim\<rparr>"
    if c: "claim \<in> set claims" and i: "claims_import tables claim requirement" for claim
  proof -
    obtain r where r: "r \<in> set (tbl_resolved table)" "resolves_to tables claim r"
      using resolved [OF c] by blast
    with i have "imp_kind requirement = Function" "parse_library (imp_library requirement) = Some (res_library r)"
      "find_claim table (res_library r) (imp_ordinal requirement) = Some r"
      by (simp_all add: claims_import_resolved(1) [OF r(2)] find_claim_iff [OF assms(2)])
    with claims_import_resolved(2,3,4) [OF r(2)] show ?thesis by (simp add: apply_claim_def)
  qed
  show "claimed table requirement \<longleftrightarrow> (\<exists>claim\<in>set claims. claims_import tables claim requirement)"
  proof
    assume "claimed table requirement"
    then obtain r where "imp_kind requirement = Function" "r \<in> set (tbl_resolved table)"
      "parse_library (imp_library requirement) = Some (res_library r)" "res_ordinal r = imp_ordinal requirement"
      by (auto simp: claimed_def find_claim_iff [OF assms(2)])
    with origin show "\<exists>claim\<in>set claims. claims_import tables claim requirement"
      by (meson claims_import_resolved(1))
  next
    assume "\<exists>claim\<in>set claims. claims_import tables claim requirement"
    then obtain claim r where "resolves_to tables claim r" "r \<in> set (tbl_resolved table)"
      "claims_import tables claim requirement" using resolved by blast
    then show "claimed table requirement"
      by (auto simp: claimed_def find_claim_iff [OF assms(2)] claims_import_resolved(1))
  qed
qed

lemma resolve_claims_handlers:
  assumes "list_all2 (resolves_to tables) claims rs"
  shows "list_all (\<lambda>c. res_handler c \<noteq> None) rs"
  using assms
  by (induction rule: list_all2_induct) (auto simp: resolves_to_def split: option.splits)

section \<open>Properties\<close>

text \<open>C12: \<open>Resolve\<close> installs every claim or none. It succeeds exactly when every claim has a handler and
  names a function export of its library and no two claims reach the same export; then the table
  holds their ordinals and handlers in order and counts from zero. Otherwise the table is unchanged
  and the failure is an import-validation one.\<close>

theorem resolve_claims_all_or_nothing:
  "case resolve_claims tables claims table of (f, table') \<Rightarrow>
     if \<exists>rs. list_all2 (resolves_to tables) claims rs \<and> distinct (map claim_key rs)
     then f = no_failure \<and> list_all2 (resolves_to tables) claims (tbl_resolved table')
       \<and> distinct (map claim_key (tbl_resolved table')) \<and> tbl_applied table' = 0
     else fail_error f = ImportValidationFailed \<and> table' = table"
proof (cases "resolve_claims_loop tables claims []")
  case (Inl f)
  then have "\<not> (\<exists>rs. list_all2 (resolves_to tables) claims rs \<and> distinct (map claim_key rs))"
    using resolve_claims_loop_complete [of tables claims _ "[]"] by fastforce
  with Inl show ?thesis
    using resolve_claims_loop_refuses [OF Inl] by (auto simp: resolve_claims_def)
next
  case (Inr rs)
  then show ?thesis
    using resolve_claims_loop_ok [OF Inr] by (auto simp: resolve_claims_def)
qed

text \<open>C13: after \<open>Resolve\<close> accepted a set of claims, walking a manifest gives every function import that a
  claim names (by its library and by the ordinal its export name has there) that claim's own handler and
  context, and no other field of the binding changes; every import no claim names keeps its binding; and
  the table counts exactly the claimed imports.\<close>

theorem apply_claims_installs_claimed:
  assumes "resolve_claims tables claims table0 = (f, table)" "\<not> fails f"
  shows "case apply_claims pairs table of (bindings, table') \<Rightarrow>
    list_all2 (\<lambda>(requirement, before) after.
        (\<forall>claim\<in>set claims. claims_import tables claim requirement \<longrightarrow> clm_handler claim \<noteq> None \<and>
           after = before\<lparr>bind_function_handler := clm_handler claim, bind_function_context := clm_context claim\<rparr>)
        \<and> ((\<forall>claim\<in>set claims. \<not> claims_import tables claim requirement) \<longrightarrow> after = before))
      pairs bindings
    \<and> tbl_applied table' = length (filter (\<lambda>(requirement, before).
        \<exists>claim\<in>set claims. claims_import tables claim requirement) pairs)
    \<and> tbl_resolved table' = tbl_resolved table"
proof -
  from assms obtain rs where loop: "resolve_claims_loop tables claims [] = Inr rs"
    and table: "tbl_resolved table = rs" "tbl_applied table = 0"
    by (auto simp: resolve_claims_def fails_def dest: resolve_claims_loop_refuses split: sum.splits)
  from resolve_claims_loop_ok [OF loop] have "list_all2 (resolves_to tables) claims (tbl_resolved table)"
    "distinct (map claim_key (tbl_resolved table))" by (simp_all add: table)
  note applied = apply_resolved [OF this]
  have "filter (claimed table \<circ> fst) pairs =
      filter (\<lambda>(requirement, before). \<exists>claim\<in>set claims. claims_import tables claim requirement) pairs"
    by (rule filter_cong) (auto simp: applied(2))
  moreover have "\<not> claimed table requirement"
    if "\<forall>claim\<in>set claims. \<not> claims_import tables claim requirement" for requirement
    using that by (simp add: applied(2))
  ultimately show ?thesis
    using applied(1) by (auto simp: apply_claims_eq apply_claim_unclaimed table(2) list_all2_conv_all_nth split: prod.splits)
qed

definition sample_tables :: export_tables where
  "sample_tables =
     \<lparr>kernel_exports = [\<lparr>exp_name = ''DbgPrint'', exp_ordinal = 3, exp_kind = Function\<rparr>,
        \<lparr>exp_name = ''XboxHardwareInfo'', exp_ordinal = 0x156, exp_kind = Variable\<rparr>],
      xam_exports = []\<rparr>"

definition sample_claims :: "(nat, nat) import_claim list" where
  "sample_claims = [\<lparr>clm_library = Kernel, clm_export_name = ''DbgPrint'', clm_handler = Some 7,
     clm_context = Some 9\<rparr>]"

theorem apply_claims_installs_claimed_witness:
  "case apply_claims [(sample_import ''xam.xex'' [], blank_binding (sample_import ''xam.xex'' [])),
      ((sample_import ''xboxkrnl.exe'' [])\<lparr>imp_ordinal := 3\<rparr>, blank_binding (sample_import ''xboxkrnl.exe'' []))]
      (snd (resolve_claims sample_tables sample_claims \<lparr>tbl_resolved = [], tbl_applied = 5\<rparr>)) of
    (bindings, table) \<Rightarrow> map bind_function_handler (bindings :: (nat, nat, nat) import_binding list) = [None, Some 7]
      \<and> map bind_function_context bindings = [None, Some 9] \<and> tbl_applied table = 1"
proof -
  let ?a = "(sample_import ''xam.xex'' [], blank_binding (sample_import ''xam.xex'' []) :: (nat, nat, nat) import_binding)"
  let ?b = "((sample_import ''xboxkrnl.exe'' [])\<lparr>imp_ordinal := 3\<rparr>,
    blank_binding (sample_import ''xboxkrnl.exe'' []) :: (nat, nat, nat) import_binding)"
  let ?start = "\<lparr>tbl_resolved = [], tbl_applied = 5\<rparr> :: (nat, nat) import_claim_table"
  have run: "resolve_claims sample_tables sample_claims ?start =
      (no_failure, snd (resolve_claims sample_tables sample_claims ?start))"
    by (simp add: resolve_claims_def sample_claims_def sample_tables_def find_export_name_def)
  have claims: "claims_import sample_tables (hd sample_claims) (fst ?b)" "\<not> claims_import sample_tables (hd sample_claims) (fst ?a)"
    "set sample_claims = {hd sample_claims}" "clm_handler (hd sample_claims) = Some 7" "clm_context (hd sample_claims) = Some 9"
    by (simp_all add: claims_import_def sample_claims_def sample_tables_def sample_import_def)
  have "\<not> fails no_failure" by simp
  from apply_claims_installs_claimed [OF run this, of "[?a, ?b]"] show ?thesis
    using claims by (auto simp: list_all2_Cons1 blank_binding_def split: prod.splits)
qed

end
