(* ===== verification/Runtime_Imports.thy ===== *)
theory Runtime_Imports imports Guest_Import Import_Claims begin

text \<open>
  The imports of a loaded image: \<open>RuntimeImports\<close> of \<open>src/runtime_imports.cpp\<close>. \<open>Create\<close> groups the
  manifest's exports into one table per library and resolves the variables, \<open>Attach\<close> gives the
  tables to Xenia and writes a 16-byte thunk per function and a pointer per variable,
  \<open>DispatchFunction\<close> runs a handler for the guest.

  Xenia's export resolver and module are a parameter (\<open>xenia_linker\<close>). A pointer to an export is the
  pair of its table and its position in it. A variable resolver is host code: a function of its
  context, a parameter.
\<close>

section \<open>Exports and tables\<close>

type_synonym ('w, 'c) import_handler = "'c option \<Rightarrow> import_context \<Rightarrow> 'w \<Rightarrow> import_context \<times> 'w"

record ('h, 'c) owned_export =
  oe_library :: string
  oe_name :: string
  oe_ordinal :: u16
  oe_kind :: import_kind
  oe_address :: guest_address
  oe_record_address :: guest_address
  oe_handler :: "'h option"
  oe_context :: "'c option"
  oe_resolved_variable :: guest_address
  oe_memory :: bool

record ('h, 'c) owned_table =
  ot_library :: string
  ot_exports :: "('h, 'c) owned_export list"
  ot_by_ordinal :: "nat option list"

definition new_owned_export ::
  "import_requirement \<Rightarrow> ('h, 'r, 'c) import_binding \<Rightarrow> guest_address \<Rightarrow> ('h, 'c) owned_export" where
  "new_owned_export req binding resolved =
     \<lparr>oe_library = imp_library req, oe_name = imp_name req, oe_ordinal = ucast (imp_ordinal req),
      oe_kind = imp_kind req, oe_address = imp_address req,
      oe_record_address = imp_record_address req, oe_handler = bind_function_handler binding,
      oe_context = bind_function_context binding, oe_resolved_variable = resolved, oe_memory = False\<rparr>"

section \<open>Create\<close>

definition add_export ::
  "nat \<Rightarrow> ('h, 'c) owned_export \<Rightarrow> ('h, 'c) owned_table list \<Rightarrow> ('h, 'c) owned_table list" where
  "add_export ordinal e tables =
     (let tables = (if tables = [] \<or> ot_library (List.last tables) \<noteq> oe_library e
            then tables @ [\<lparr>ot_library = oe_library e, ot_exports = [], ot_by_ordinal = []\<rparr>] else tables);
          table = List.last tables;
          slots = ot_by_ordinal table;
          slots = (if length slots \<le> ordinal
            then slots @ replicate (ordinal + 1 - length slots) None else slots)
      in butlast tables @
        [table\<lparr>ot_by_ordinal := slots[ordinal := Some (length (ot_exports table))],
           ot_exports := ot_exports table @ [e]\<rparr>])"

text \<open>A null resolver or a missing binding is undefined behaviour: \<open>None\<close>.\<close>

fun create_loop ::
  "('r \<Rightarrow> 'c option \<Rightarrow> guest_address) \<Rightarrow> import_requirement list \<Rightarrow> ('h, 'r, 'c) import_binding list \<Rightarrow>
   ('h, 'c) owned_table list \<Rightarrow> (runtime_failure + ('h, 'c) owned_table list) option" where
  "create_loop resolve [] bindings tables = Some (Inr tables)"
| "create_loop resolve (req # reqs) [] tables = None"
| "create_loop resolve (req # reqs) (binding # bindings) tables =
     (if imp_kind req = Variable
      then (case bind_variable_resolver binding of
          None \<Rightarrow> None
        | Some resolver \<Rightarrow>
            (let resolved = resolve resolver (bind_variable_context binding) in
             if resolved = 0 then Some (Inl (failure VariableResolutionFailed
               ''variable import resolver returned the null guest address''))
             else create_loop resolve reqs bindings
               (add_export (unat (imp_ordinal req)) (new_owned_export req binding resolved) tables)))
      else create_loop resolve reqs bindings
        (add_export (unat (imp_ordinal req)) (new_owned_export req binding 0) tables))"

definition create_imports ::
  "('r \<Rightarrow> 'c option \<Rightarrow> guest_address) \<Rightarrow> import_requirement list \<Rightarrow> ('h, 'r, 'c) import_binding list \<Rightarrow>
   (runtime_failure + ('h, 'c) owned_table list) option" where
  "create_imports resolve reqs bindings = create_loop resolve reqs bindings []"

section \<open>Attach\<close>

record 'x xenia_linker =
  xl_register_table :: "string \<Rightarrow> nat \<Rightarrow> 'x \<Rightarrow> 'x"
  xl_set_function_mapping :: "string \<Rightarrow> u16 \<Rightarrow> nat \<times> nat \<Rightarrow> 'x \<Rightarrow> 'x"
  xl_set_variable_mapping :: "string \<Rightarrow> u16 \<Rightarrow> guest_address \<Rightarrow> 'x \<Rightarrow> 'x"
  xl_variable_ptr :: "nat \<times> nat \<Rightarrow> 'x \<Rightarrow> u32"
  xl_declare_function :: "guest_address \<Rightarrow> 'x \<Rightarrow> (bool \<times> nat option) \<times> 'x"
  xl_is_guest :: "nat \<Rightarrow> 'x \<Rightarrow> bool"
  xl_set_end_address :: "nat \<Rightarrow> guest_address \<Rightarrow> 'x \<Rightarrow> 'x"
  xl_set_name :: "nat \<Rightarrow> string \<Rightarrow> 'x \<Rightarrow> 'x"
  xl_setup_extern :: "nat \<Rightarrow> nat \<times> nat \<Rightarrow> 'x \<Rightarrow> 'x"
  xl_set_declared :: "nat \<Rightarrow> 'x \<Rightarrow> 'x"

definition thunk_words :: "u32 list" where
  "thunk_words = [0x44000042, 0x4E800020, 0x60000000, 0x60000000]"

definition store_thunk :: "'x xenia_memory \<Rightarrow> guest_address \<Rightarrow> 'x \<Rightarrow> 'x" where
  "store_thunk xm a x =
     (let x = xm_store xm a (be_bytes32 (thunk_words ! 0)) x;
          x = xm_store xm (a + 4) (be_bytes32 (thunk_words ! 1)) x;
          x = xm_store xm (a + 8) (be_bytes32 (thunk_words ! 2)) x
      in xm_store xm (a + 12) (be_bytes32 (thunk_words ! 3)) x)"

definition attach_export ::
  "'x xenia_memory \<Rightarrow> 'x xenia_linker \<Rightarrow> string \<Rightarrow> nat \<times> nat \<Rightarrow> ('h, 'c) owned_export \<Rightarrow> 'x \<Rightarrow>
   runtime_failure \<times> 'x" where
  "attach_export xm xl library self e x =
     (if oe_kind e = Function
      then (let x = xl_set_function_mapping xl library (oe_ordinal e) self x in
        case xl_declare_function xl (oe_address e) x of
          ((is_new, function), x) \<Rightarrow>
            (case function of
               Some f \<Rightarrow>
                 if \<not> is_new \<or> \<not> xl_is_guest xl f x
                 then (failure ImportAttachmentFailed
                   ''Xenia refused a validated function import address'', x)
                 else (let x = store_thunk xm (oe_address e) x;
                           x = xl_set_end_address xl f (oe_address e + 12) x;
                           x = xl_set_name xl f (oe_name e) x;
                           x = xl_setup_extern xl f self x
                       in (no_failure, xl_set_declared xl f x))
             | None \<Rightarrow> (failure ImportAttachmentFailed
                 ''Xenia refused a validated function import address'', x)))
      else (let x = xl_set_variable_mapping xl library (oe_ordinal e) (oe_resolved_variable e) x in
        (no_failure, xm_store xm (oe_record_address e) (be_bytes32 (xl_variable_ptr xl self x)) x)))"

fun attach_exports ::
  "'x xenia_memory \<Rightarrow> 'x xenia_linker \<Rightarrow> string \<Rightarrow> nat \<Rightarrow> nat \<Rightarrow> ('h, 'c) owned_export list \<Rightarrow> 'x \<Rightarrow>
   runtime_failure \<times> ('h, 'c) owned_export list \<times> 'x" where
  "attach_exports xm xl library ti j [] x = (no_failure, [], x)"
| "attach_exports xm xl library ti j (e # es) x =
     (let e = e\<lparr>oe_memory := True\<rparr> in
      case attach_export xm xl library (ti, j) e x of (f, x) \<Rightarrow>
        if fails f then (f, e # es, x)
        else (case attach_exports xm xl library ti (j + 1) es x of (f, es, x) \<Rightarrow> (f, e # es, x)))"

fun attach_tables ::
  "'x xenia_memory \<Rightarrow> 'x xenia_linker \<Rightarrow> nat \<Rightarrow> ('h, 'c) owned_table list \<Rightarrow> 'x \<Rightarrow>
   runtime_failure \<times> ('h, 'c) owned_table list \<times> 'x" where
  "attach_tables xm xl ti [] x = (no_failure, [], x)"
| "attach_tables xm xl ti (t # ts) x =
     (let x = xl_register_table xl (ot_library t) ti x in
      case attach_exports xm xl (ot_library t) ti 0 (ot_exports t) x of (f, es, x) \<Rightarrow>
        (let t = t\<lparr>ot_exports := es\<rparr> in
         if fails f then (f, t # ts, x)
         else (case attach_tables xm xl (ti + 1) ts x of (f, ts, x) \<Rightarrow> (f, t # ts, x))))"

definition attach_imports ::
  "'x xenia_memory \<Rightarrow> 'x xenia_linker \<Rightarrow> ('h, 'c) owned_table list \<Rightarrow> 'x \<Rightarrow>
   runtime_failure \<times> ('h, 'c) owned_table list \<times> 'x" where
  "attach_imports xm xl tables x = attach_tables xm xl 0 tables x"

section \<open>DispatchFunction\<close>

definition dispatch_function ::
  "(('w, 'c) import_handler, 'c) owned_export \<Rightarrow> 'w thread_state \<Rightarrow> 'w thread_state option" where
  "dispatch_function e t =
     (case oe_handler e of
        None \<Rightarrow> None
      | Some handler \<Rightarrow>
          (let arguments = map (\<lambda>index. ppc_r (thr_context t) (3 + index)) [0..<argument_count];
               r = handler (oe_context e) (new_import_context arguments (oe_memory e)) (thr_world t);
               t = t\<lparr>thr_world := snd r\<rparr> in
           case ic_refusal (fst r) of
             Some reason \<Rightarrow> mark_guest_import_refused (oe_library e) (ucast (oe_ordinal e)) reason t
           | None \<Rightarrow> Some (t\<lparr>thr_context := (thr_context t)
               \<lparr>ppc_r := (ppc_r (thr_context t))(3 := ic_return_value (fst r))\<rparr>\<rparr>)))"

section \<open>What the tables hold\<close>

definition table_export :: "('h, 'c) owned_table \<Rightarrow> nat \<Rightarrow> ('h, 'c) owned_export option" where
  "table_export t ordinal =
     (if ordinal < length (ot_by_ordinal t)
      then map_option ((!) (ot_exports t)) (ot_by_ordinal t ! ordinal) else None)"

definition lookup_export ::
  "('h, 'c) owned_table list \<Rightarrow> string \<Rightarrow> nat \<Rightarrow> ('h, 'c) owned_export option" where
  "lookup_export tables library ordinal =
     (case find (\<lambda>t. ot_library t = library) tables of
        None \<Rightarrow> None | Some t \<Rightarrow> table_export t ordinal)"

definition table_ok :: "('h, 'c) owned_table \<Rightarrow> bool" where
  "table_ok t \<longleftrightarrow> (\<forall>j. Some j \<in> set (ot_by_ordinal t) \<longrightarrow> j < length (ot_exports t))"

definition tables_ok :: "('h, 'c) owned_table list \<Rightarrow> bool" where
  "tables_ok tables \<longleftrightarrow> sorted_wrt (<) (map ot_library tables) \<and> list_all table_ok tables"

definition add_to_table ::
  "nat \<Rightarrow> ('h, 'c) owned_export \<Rightarrow> ('h, 'c) owned_table \<Rightarrow> ('h, 'c) owned_table" where
  "add_to_table ordinal e t =
     (let slots = ot_by_ordinal t;
          slots = (if length slots \<le> ordinal
            then slots @ replicate (ordinal + 1 - length slots) None else slots)
      in t\<lparr>ot_by_ordinal := slots[ordinal := Some (length (ot_exports t))],
           ot_exports := ot_exports t @ [e]\<rparr>)"

lemma add_export_eq:
  "add_export ordinal e [] =
     [add_to_table ordinal e \<lparr>ot_library = oe_library e, ot_exports = [], ot_by_ordinal = []\<rparr>]"
  "add_export ordinal e (ts @ [t]) =
     (if ot_library t = oe_library e then ts @ [add_to_table ordinal e t]
      else ts @ [t, add_to_table ordinal e
        \<lparr>ot_library = oe_library e, ot_exports = [], ot_by_ordinal = []\<rparr>])"
  by (simp_all add: add_export_def add_to_table_def Let_def butlast_append)

lemma ot_library_add [simp]: "ot_library (add_to_table ordinal e t) = ot_library t"
  by (simp add: add_to_table_def Let_def)

lemma table_ok_add: "table_ok t \<Longrightarrow> table_ok (add_to_table ordinal e t)"
  unfolding table_ok_def add_to_table_def Let_def
  by (fastforce simp: less_Suc_eq dest!: set_update_subset_insert [THEN subsetD] split: if_splits)

lemma table_export_add:
  assumes "table_ok t"
  shows "table_export (add_to_table ordinal e t) k = (if k = ordinal then Some e else table_export t k)"
proof -
  have "j < length (ot_exports t)" if "k < length (ot_by_ordinal t)" "ot_by_ordinal t ! k = Some j" for j
    using assms that by (metis nth_mem table_ok_def)
  then show ?thesis
    by (cases "k < length (ot_by_ordinal t)"; cases "ot_by_ordinal t ! k")
      (auto simp: table_export_def add_to_table_def Let_def nth_append)
qed

lemma find_append: "find P (xs @ ys) = (case find P xs of None \<Rightarrow> find P ys | Some x \<Rightarrow> Some x)"
  by (induction xs) auto

lemma find_library_None: "\<forall>t\<in>set ts. ot_library t < l \<Longrightarrow> find (\<lambda>t. ot_library t = l) ts = None"
  by (auto simp: find_None_iff)

lemma add_export_step:
  assumes "tables_ok tables" "\<forall>t\<in>set tables. ot_library t \<le> oe_library e"
  shows "tables_ok (add_export ordinal e tables)"
    and "lookup_export (add_export ordinal e tables) l k =
      (if l = oe_library e \<and> k = ordinal then Some e else lookup_export tables l k)"
    and "t \<in> set (add_export ordinal e tables) \<Longrightarrow> ot_library t \<le> oe_library e"
proof -
  let ?new = "\<lparr>ot_library = oe_library e, ot_exports = [], ot_by_ordinal = []\<rparr> :: ('a, 'b) owned_table"
  have new: "table_ok ?new" "table_export ?new k = None" for k
    by (simp_all add: table_ok_def table_export_def)
  have goal: "tables_ok (add_export ordinal e tables) \<and>
      lookup_export (add_export ordinal e tables) l k =
        (if l = oe_library e \<and> k = ordinal then Some e else lookup_export tables l k) \<and>
      (\<forall>t\<in>set (add_export ordinal e tables). ot_library t \<le> oe_library e)"
  proof (cases tables rule: rev_cases)
    case Nil
    then show ?thesis
      by (auto simp: add_export_eq tables_ok_def table_ok_add new lookup_export_def table_export_add)
  next
    case (snoc ts t)
    with assms have ts: "\<forall>s\<in>set ts. ot_library s < ot_library t" "table_ok t" "list_all table_ok ts"
        "sorted_wrt (<) (map ot_library ts)" "ot_library t \<le> oe_library e"
      by (auto simp: tables_ok_def sorted_wrt_append)
    show ?thesis
    proof (cases "ot_library t = oe_library e")
      case True
      with snoc ts show ?thesis
        by (auto simp: add_export_eq tables_ok_def sorted_wrt_append table_ok_add lookup_export_def
            find_append find_library_None table_export_add split: option.splits)
    next
      case False
      with ts have "\<forall>s\<in>set (ts @ [t]). ot_library s < oe_library e" by auto
      with False snoc ts show ?thesis
        by (auto simp: add_export_eq tables_ok_def sorted_wrt_append table_ok_add new lookup_export_def
            find_append find_library_None table_export_add split: option.splits)
    qed
  qed
  then show "tables_ok (add_export ordinal e tables)"
    and "lookup_export (add_export ordinal e tables) l k =
      (if l = oe_library e \<and> k = ordinal then Some e else lookup_export tables l k)"
    and "t \<in> set (add_export ordinal e tables) \<Longrightarrow> ot_library t \<le> oe_library e" by blast+
qed

definition resolved_of ::
  "('r \<Rightarrow> 'c option \<Rightarrow> guest_address) \<Rightarrow> import_requirement \<times> ('h, 'r, 'c) import_binding \<Rightarrow> guest_address"
  where
  "resolved_of resolve rb =
     (if imp_kind (fst rb) = Variable
      then (case bind_variable_resolver (snd rb) of
          Some resolver \<Rightarrow> resolve resolver (bind_variable_context (snd rb)) | None \<Rightarrow> 0)
      else 0)"

definition export_of ::
  "('r \<Rightarrow> 'c option \<Rightarrow> guest_address) \<Rightarrow> import_requirement \<times> ('h, 'r, 'c) import_binding \<Rightarrow>
   ('h, 'c) owned_export" where
  "export_of resolve rb = new_owned_export (fst rb) (snd rb) (resolved_of resolve rb)"

definition unresolved ::
  "('r \<Rightarrow> 'c option \<Rightarrow> guest_address) \<Rightarrow> import_requirement \<times> ('h, 'r, 'c) import_binding \<Rightarrow> bool" where
  "unresolved resolve rb \<longleftrightarrow> imp_kind (fst rb) = Variable \<and> resolved_of resolve rb = 0"

definition keyed :: "string \<Rightarrow> nat \<Rightarrow> import_requirement \<times> ('h, 'r, 'c) import_binding \<Rightarrow> bool" where
  "keyed l k rb \<longleftrightarrow> imp_library (fst rb) = l \<and> unat (imp_ordinal (fst rb)) = k"

lemma oe_library_new [simp]: "oe_library (new_owned_export req b v) = imp_library req"
  by (simp add: new_owned_export_def)

lemma key_less_library: "import_key_of a < import_key_of b \<Longrightarrow> imp_library a \<le> imp_library b"
  by (auto simp: import_key_of_def less_import_key_def split: if_splits)

lemma create_loop_step:
  assumes "binding_fits req b"
  shows "create_loop resolve (req # reqs) (b # bs) tables =
    (if unresolved resolve (req, b) then Some (Inl (failure VariableResolutionFailed
        ''variable import resolver returned the null guest address''))
     else create_loop resolve reqs bs (add_export (unat (imp_ordinal req)) (export_of resolve (req, b)) tables))"
  using assms
  by (cases "imp_kind req")
    (auto simp: binding_fits_def unresolved_def resolved_of_def export_of_def Let_def)

lemma create_loop_ok:
  assumes "list_all2 binding_fits reqs bs" "sorted_wrt (<) (map import_key_of reqs)"
    and "tables_ok tables" "\<forall>t\<in>set tables. \<forall>r\<in>set reqs. ot_library t \<le> imp_library r"
  shows "\<exists>r. create_loop resolve reqs bs tables = Some r \<and>
    (case r of
       Inl f \<Rightarrow> fail_error f = VariableResolutionFailed \<and> (\<exists>rb\<in>set (zip reqs bs). unresolved resolve rb)
     | Inr tables' \<Rightarrow> (\<forall>rb\<in>set (zip reqs bs). \<not> unresolved resolve rb) \<and> tables_ok tables' \<and>
         (\<forall>l k. lookup_export tables' l k =
           (case find (keyed l k) (zip reqs bs) of
              Some rb \<Rightarrow> Some (export_of resolve rb) | None \<Rightarrow> lookup_export tables l k)))"
  using assms
proof (induction arbitrary: tables rule: list_all2_induct)
  case Nil
  then show ?case by simp
next
  case (Cons req reqs b bs)
  let ?e = "export_of resolve (req, b)" and ?o = "unat (imp_ordinal req)"
  let ?tables = "add_export ?o ?e tables"
  have lib: "oe_library ?e = imp_library req" by (simp add: export_of_def)
  show ?case
  proof (cases "unresolved resolve (req, b)")
    case True
    then show ?thesis by (simp add: create_loop_step [OF Cons.hyps(1)] del: create_loop.simps(3))
  next
    case False
    have le: "\<forall>t\<in>set tables. ot_library t \<le> oe_library ?e" using Cons.prems(3) lib by simp
    note added = add_export_step [OF Cons.prems(2) le, where ordinal = ?o]
    have above: "imp_library req \<le> imp_library r" if "r \<in> set reqs" for r
      using Cons.prems(1) that key_less_library by auto
    have "\<forall>t\<in>set ?tables. \<forall>r\<in>set reqs. ot_library t \<le> imp_library r"
      using added(3) above lib by fastforce
    from Cons.IH [OF _ added(1) this] Cons.prems(1) obtain r where
      r: "create_loop resolve reqs bs ?tables = Some r" and
      spec: "case r of
         Inl f \<Rightarrow> fail_error f = VariableResolutionFailed \<and> (\<exists>rb\<in>set (zip reqs bs). unresolved resolve rb)
       | Inr tables' \<Rightarrow> (\<forall>rb\<in>set (zip reqs bs). \<not> unresolved resolve rb) \<and> tables_ok tables' \<and>
           (\<forall>l k. lookup_export tables' l k =
             (case find (keyed l k) (zip reqs bs) of
                Some rb \<Rightarrow> Some (export_of resolve rb) | None \<Rightarrow> lookup_export ?tables l k))"
      by auto
    have fresh: "find (keyed l k) (zip reqs bs) = None" if "keyed l k (req, b)" for l k
    proof -
      have "\<not> keyed l k rb" if "rb \<in> set (zip reqs bs)" for rb
      proof -
        from that have "fst rb \<in> set reqs" by (metis prod.collapse set_zip_leftD)
        then have "import_key_of (fst rb) \<noteq> import_key_of req" using Cons.prems(1) by auto
        with \<open>keyed l k (req, b)\<close> show ?thesis
          by (auto simp: keyed_def import_key_of_def word_unat_eq_iff)
      qed
      then show ?thesis by (simp add: find_None_iff)
    qed
    show ?thesis
    proof (cases r)
      case (Inr tables')
      then show ?thesis using spec False fresh
        by (auto simp add: create_loop_step [OF Cons.hyps(1)] r added(2) lib keyed_def
            simp del: create_loop.simps(3) split: option.splits)
    qed (use spec False in \<open>auto simp add: create_loop_step [OF Cons.hyps(1)] r
        simp del: create_loop.simps(3)\<close>)
  qed
qed

section \<open>What an attached image holds\<close>

text \<open>The linker's own calls leave the guest's bytes.\<close>

definition linker_keeps :: "'x xenia_memory \<Rightarrow> ('x \<Rightarrow> 'x) \<Rightarrow> bool" where
  "linker_keeps xm f \<longleftrightarrow> (\<forall>x a n. xm_load xm a n (f x) = xm_load xm a n x)"

definition linker_keeps_bytes :: "'x xenia_memory \<Rightarrow> 'x xenia_linker \<Rightarrow> bool" where
  "linker_keeps_bytes xm xl \<longleftrightarrow>
     (\<forall>l i. linker_keeps xm (xl_register_table xl l i)) \<and>
     (\<forall>l k p. linker_keeps xm (xl_set_function_mapping xl l k p)) \<and>
     (\<forall>l k v. linker_keeps xm (xl_set_variable_mapping xl l k v)) \<and>
     (\<forall>a. linker_keeps xm (\<lambda>x. snd (xl_declare_function xl a x))) \<and>
     (\<forall>f a. linker_keeps xm (xl_set_end_address xl f a)) \<and>
     (\<forall>f n. linker_keeps xm (xl_set_name xl f n)) \<and>
     (\<forall>f p. linker_keeps xm (xl_setup_extern xl f p)) \<and>
     (\<forall>f. linker_keeps xm (xl_set_declared xl f))"

text \<open>A mapped variable is what the export of that table and ordinal then points to.\<close>

definition linker_maps_variables :: "'x xenia_linker \<Rightarrow> ('h, 'c) owned_table list \<Rightarrow> bool" where
  "linker_maps_variables xl tables \<longleftrightarrow>
     (\<forall>ti<length tables. \<forall>j<length (ot_exports (tables ! ti)). \<forall>v x.
        xl_variable_ptr xl (ti, j) (xl_set_variable_mapping xl (ot_library (tables ! ti))
          (oe_ordinal (ot_exports (tables ! ti) ! j)) v x) = v)"

text \<open>Two states whose bytes agree wherever a range lies in heap \<open>h\<close>.\<close>

definition same_bytes :: "'x xenia_memory \<Rightarrow> nat \<Rightarrow> 'x \<Rightarrow> 'x \<Rightarrow> bool" where
  "same_bytes xm h x y \<longleftrightarrow>
     (\<forall>a n. fits a n \<and> xm_lookup_heap xm a = Some h \<longrightarrow> xm_load xm a n x = xm_load xm a n y)"

definition store_all :: "'x xenia_memory \<Rightarrow> (guest_address \<times> bytes) list \<Rightarrow> 'x \<Rightarrow> 'x" where
  "store_all xm = fold (\<lambda>(a, bs). xm_store xm a bs)"

definition in_heap :: "'x xenia_memory \<Rightarrow> nat \<Rightarrow> guest_address \<times> bytes \<Rightarrow> bool" where
  "in_heap xm h w \<longleftrightarrow> fits (fst w) (length (snd w)) \<and> xm_lookup_heap xm (fst w) = Some h"

definition writes_apart :: "guest_address \<times> bytes \<Rightarrow> guest_address \<times> bytes \<Rightarrow> bool" where
  "writes_apart v w \<longleftrightarrow> span_of (fst v) (length (snd v)) \<inter> span_of (fst w) (length (snd w)) = {}"

lemma same_bytes_refl [simp]: "same_bytes xm h x x"
  by (simp add: same_bytes_def)

lemma same_bytes_trans: "same_bytes xm h x y \<Longrightarrow> same_bytes xm h y z \<Longrightarrow> same_bytes xm h x z"
  by (simp add: same_bytes_def)

lemma linker_same_bytes:
  assumes "linker_keeps_bytes xm xl"
  shows "same_bytes xm h (xl_register_table xl l i x) y \<longleftrightarrow> same_bytes xm h x y"
    and "same_bytes xm h (xl_set_function_mapping xl l k p x) y \<longleftrightarrow> same_bytes xm h x y"
    and "same_bytes xm h (xl_set_variable_mapping xl l k v x) y \<longleftrightarrow> same_bytes xm h x y"
    and "same_bytes xm h (snd (xl_declare_function xl a x)) y \<longleftrightarrow> same_bytes xm h x y"
    and "same_bytes xm h (xl_set_end_address xl f a x) y \<longleftrightarrow> same_bytes xm h x y"
    and "same_bytes xm h (xl_set_name xl f n x) y \<longleftrightarrow> same_bytes xm h x y"
    and "same_bytes xm h (xl_setup_extern xl f p x) y \<longleftrightarrow> same_bytes xm h x y"
    and "same_bytes xm h (xl_set_declared xl f x) y \<longleftrightarrow> same_bytes xm h x y"
  using assms by (cases p; simp add: same_bytes_def linker_keeps_bytes_def linker_keeps_def)+

lemma same_bytes_store:
  assumes "heap_bytes xm" "in_heap xm h (a, bs)" "same_bytes xm h x y"
  shows "same_bytes xm h (xm_store xm a bs x) (xm_store xm a bs y)"
proof -
  have "xm_load xm b n (xm_store xm a bs x) = xm_load xm b n (xm_store xm a bs y)"
    if b: "fits b n" "xm_lookup_heap xm b = Some h" for b n
  proof (rule nth_equalityI)
    have law: "xm_load xm b n (xm_store xm a bs z) ! i =
        (if unat b + i \<in> span_of a (length bs) then bs ! (unat b + i - unat a) else xm_load xm b n z ! i)"
      if "i < n" for i z
      by (rule heap_bytes_nth [OF assms(1) that]) (use assms(2) b in \<open>auto simp: in_heap_def\<close>)
    have "xm_load xm b n x = xm_load xm b n y" using assms(3) b by (simp add: same_bytes_def)
    then show "xm_load xm b n (xm_store xm a bs x) ! i = xm_load xm b n (xm_store xm a bs y) ! i"
      if "i < length (xm_load xm b n (xm_store xm a bs x))" for i
    proof -
      from that assms(1) have "i < n" by simp
      from law [OF this, of x] law [OF this, of y] show ?thesis
        unfolding \<open>xm_load xm b n x = xm_load xm b n y\<close> by (rule trans [OF _ sym])
    qed
  qed (use assms(1) in simp)
  then show ?thesis by (simp add: same_bytes_def)
qed

lemma same_bytes_store_all:
  "heap_bytes xm \<Longrightarrow> list_all (in_heap xm h) ws \<Longrightarrow> same_bytes xm h x y \<Longrightarrow>
   same_bytes xm h (store_all xm ws x) (store_all xm ws y)"
  by (induction ws arbitrary: x y) (auto simp: store_all_def same_bytes_store)

text \<open>Writes that do not overlap are all there afterwards.\<close>

lemma store_all_other:
  assumes "heap_bytes xm" "list_all (in_heap xm h) ws" "in_heap xm h w" "\<forall>v\<in>set ws. writes_apart v w"
  shows "xm_load xm (fst w) (length (snd w)) (store_all xm ws x) = xm_load xm (fst w) (length (snd w)) x"
  using assms
proof (induction ws arbitrary: x)
  case (Cons v ws)
  obtain a bs where v: "v = (a, bs)" by (cases v)
  from Cons.prems v have "xm_load xm (fst w) (length (snd w)) (xm_store xm a bs x) =
      xm_load xm (fst w) (length (snd w)) x"
    by (intro heap_bytes_load_other) (auto simp: in_heap_def writes_apart_def)
  with Cons v show ?case by (simp add: store_all_def)
qed (simp add: store_all_def)

lemma store_all_there:
  assumes "heap_bytes xm" "list_all (in_heap xm h) ws" "sorted_wrt writes_apart ws" "(a, bs) \<in> set ws"
  shows "xm_load xm a (length bs) (store_all xm ws x) = bs"
  using assms
proof (induction ws arbitrary: x)
  case (Cons v ws)
  show ?case
  proof (cases "v = (a, bs)")
    case True
    with Cons.prems have "xm_load xm a (length bs) (store_all xm ws (xm_store xm a bs x)) =
        xm_load xm a (length bs) (xm_store xm a bs x)"
      using store_all_other [of xm h ws "(a, bs)"]
      by (auto simp: writes_apart_def Int_commute)
    with True Cons.prems show ?thesis
      by (simp add: store_all_def in_heap_def heap_bytes_load_store)
  next
    case False
    obtain c cs where v: "v = (c, cs)" by (cases v)
    from False Cons.prems have "(a, bs) \<in> set ws" by auto
    with Cons have "xm_load xm a (length bs) (store_all xm ws (xm_store xm c cs x)) = bs" by simp
    then show ?thesis by (simp add: store_all_def v)
  qed
qed simp

text \<open>What attaching writes, export by export.\<close>

definition export_writes :: "('h, 'c) owned_export \<Rightarrow> (guest_address \<times> bytes) list" where
  "export_writes e =
     (if oe_kind e = Function
      then [(oe_address e, be_bytes32 0x44000042), (oe_address e + 4, be_bytes32 0x4E800020),
        (oe_address e + 8, be_bytes32 0x60000000), (oe_address e + 12, be_bytes32 0x60000000)]
      else [(oe_record_address e, be_bytes32 (oe_resolved_variable e))])"

definition table_writes :: "('h, 'c) owned_table \<Rightarrow> (guest_address \<times> bytes) list" where
  "table_writes t = concat (map export_writes (ot_exports t))"

lemma store_thunk_eq:
  "store_thunk xm a x = store_all xm [(a, be_bytes32 0x44000042), (a + 4, be_bytes32 0x4E800020),
     (a + 8, be_bytes32 0x60000000), (a + 12, be_bytes32 0x60000000)] x"
  by (simp add: store_thunk_def store_all_def thunk_words_def)

lemma attach_export_bytes:
  assumes "heap_bytes xm" "linker_keeps_bytes xm xl" "list_all (in_heap xm h) (export_writes e)"
    and "\<And>v x. xl_variable_ptr xl p (xl_set_variable_mapping xl l (oe_ordinal e) v x) = v"
    and "attach_export xm xl l p e x = (f, x')" "\<not> fails f" "same_bytes xm h x y"
  shows "same_bytes xm h x' (store_all xm (export_writes e) y)"
proof -
  note keeps = linker_same_bytes [OF assms(2)]
  show ?thesis
  proof (cases "oe_kind e = Function")
    case True
    let ?d = "xl_declare_function xl (oe_address e) (xl_set_function_mapping xl l (oe_ordinal e) p x)"
    obtain new g x2 where d: "?d = ((new, g), x2)" by (metis prod.collapse)
    with keeps(4) [of h "oe_address e" _ y] keeps(2) assms(7) have "same_bytes xm h x2 y"
      by (metis snd_conv)
    then have "same_bytes xm h (store_thunk xm (oe_address e) x2) (store_all xm (export_writes e) y)"
      using True assms(1,3) by (simp add: store_thunk_eq export_writes_def same_bytes_store_all)
    then show ?thesis
      using True assms(5,6) d by (auto simp: attach_export_def Let_def keeps split: option.splits if_splits)
  next
    case False
    then have x': "x' = xm_store xm (oe_record_address e) (be_bytes32 (oe_resolved_variable e))
        (xl_set_variable_mapping xl l (oe_ordinal e) (oe_resolved_variable e) x)"
      using assms(4,5) by (auto simp: attach_export_def Let_def)
    show ?thesis using False assms(1,3,7)
      by (auto simp: x' export_writes_def store_all_def keeps intro: same_bytes_store)
  qed
qed

lemma attach_exports_bytes:
  assumes "heap_bytes xm" "linker_keeps_bytes xm xl"
    and "list_all (in_heap xm h) (concat (map export_writes es))"
    and "\<And>i v x. i < length es \<Longrightarrow>
      xl_variable_ptr xl (ti, j + i) (xl_set_variable_mapping xl l (oe_ordinal (es ! i)) v x) = v"
    and "attach_exports xm xl l ti j es x = (f, es', x')" "\<not> fails f" "same_bytes xm h x y"
  shows "same_bytes xm h x' (store_all xm (concat (map export_writes es)) y) \<and>
    es' = map (\<lambda>e. e\<lparr>oe_memory := True\<rparr>) es"
  using assms(3-)
proof (induction es arbitrary: j x y es')
  case Nil
  then show ?case by (simp add: store_all_def)
next
  case (Cons e es)
  let ?e = "e\<lparr>oe_memory := True\<rparr>"
  have same: "export_writes ?e = export_writes e" by (simp add: export_writes_def)
  obtain g x1 where step: "attach_export xm xl l (ti, j) ?e x = (g, x1)"
    by (cases "attach_export xm xl l (ti, j) ?e x")
  with Cons.prems(3,4) obtain es2 where g: "\<not> fails g" and
      rest: "attach_exports xm xl l ti (j + 1) es x1 = (f, es2, x')" and es': "es' = ?e # es2"
    by (auto simp: Let_def split: if_splits prod.splits)
  have ptr: "xl_variable_ptr xl (ti, j) (xl_set_variable_mapping xl l (oe_ordinal ?e) v x) = v" for v x
    using Cons.prems(2) [of 0] by simp
  from Cons.prems(1) have heap: "list_all (in_heap xm h) (export_writes ?e)"
    and heaps: "list_all (in_heap xm h) (concat (map export_writes es))" by (simp_all add: same)
  have one: "same_bytes xm h x1 (store_all xm (export_writes e) y)"
    using attach_export_bytes [OF assms(1,2) heap ptr step g Cons.prems(5)] by (simp add: same)
  have ptrs: "xl_variable_ptr xl (ti, j + 1 + i) (xl_set_variable_mapping xl l (oe_ordinal (es ! i)) v x) = v"
    if "i < length es" for i v x using Cons.prems(2) [of "Suc i"] that by simp
  from Cons.IH [OF heaps ptrs rest Cons.prems(4) one] show ?case
    by (simp add: es' store_all_def)
qed

lemma attach_tables_bytes:
  assumes "heap_bytes xm" "linker_keeps_bytes xm xl"
    and "list_all (in_heap xm h) (concat (map table_writes ts))"
    and "\<And>i k v x. i < length ts \<Longrightarrow> k < length (ot_exports (ts ! i)) \<Longrightarrow>
      xl_variable_ptr xl (ti + i, k) (xl_set_variable_mapping xl (ot_library (ts ! i))
        (oe_ordinal (ot_exports (ts ! i) ! k)) v x) = v"
    and "attach_tables xm xl ti ts x = (f, ts', x')" "\<not> fails f" "same_bytes xm h x y"
  shows "same_bytes xm h x' (store_all xm (concat (map table_writes ts)) y)"
  using assms(3-)
proof (induction ts arbitrary: ti x y ts')
  case Nil
  then show ?case by (simp add: store_all_def)
next
  case (Cons t ts)
  let ?x = "xl_register_table xl (ot_library t) ti x"
  obtain g es x1 where step: "attach_exports xm xl (ot_library t) ti 0 (ot_exports t) ?x = (g, es, x1)"
    by (metis prod_cases3)
  with Cons.prems(3,4) obtain ts2 where g: "\<not> fails g" and
      rest: "attach_tables xm xl (ti + 1) ts x1 = (f, ts2, x')"
    by (auto simp: Let_def split: if_splits prod.splits)
  have ptr: "xl_variable_ptr xl (ti, 0 + k) (xl_set_variable_mapping xl (ot_library t)
      (oe_ordinal (ot_exports t ! k)) v x) = v" if "k < length (ot_exports t)" for k v x
    using Cons.prems(2) [of 0 k] that by simp
  from Cons.prems(1) have heap: "list_all (in_heap xm h) (concat (map export_writes (ot_exports t)))"
    and heaps: "list_all (in_heap xm h) (concat (map table_writes ts))"
    by (simp_all add: table_writes_def [of t])
  have start: "same_bytes xm h ?x y" using Cons.prems(5) linker_same_bytes(1) [OF assms(2)] by blast
  have one: "same_bytes xm h x1 (store_all xm (table_writes t) y)"
    using attach_exports_bytes [OF assms(1,2) heap ptr step g start] by (simp add: table_writes_def)
  have ptrs: "xl_variable_ptr xl (ti + 1 + i, k) (xl_set_variable_mapping xl (ot_library (ts ! i))
      (oe_ordinal (ot_exports (ts ! i) ! k)) v x) = v"
    if "i < length ts" "k < length (ot_exports (ts ! i))" for i k v x
    using Cons.prems(2) [of "Suc i" k] that by simp
  from Cons.IH [OF heaps ptrs rest Cons.prems(4) one] show ?case by (simp add: store_all_def)
qed

lemma attach_imports_writes:
  assumes "heap_bytes xm" "linker_keeps_bytes xm xl" "linker_maps_variables xl tables"
    and "list_all (in_heap xm h) (concat (map table_writes tables))"
    and "sorted_wrt writes_apart (concat (map table_writes tables))"
    and "attach_imports xm xl tables x = (f, tables', x')" "\<not> fails f"
    and "(a, bs) \<in> set (concat (map table_writes tables))"
  shows "xm_load xm a (length bs) x' = bs"
proof -
  have "same_bytes xm h x' (store_all xm (concat (map table_writes tables)) x)"
    by (rule attach_tables_bytes [OF assms(1,2,4) _ assms(6) [unfolded attach_imports_def] assms(7)])
      (use assms(3) in \<open>auto simp: linker_maps_variables_def\<close>)
  moreover have "in_heap xm h (a, bs)" using assms(4,8) by (auto simp: list_all_iff)
  ultimately have "xm_load xm a (length bs) x' =
      xm_load xm a (length bs) (store_all xm (concat (map table_writes tables)) x)"
    by (simp add: same_bytes_def in_heap_def)
  with store_all_there [OF assms(1,4,5,8)] show ?thesis by simp
qed

section \<open>A call through an import\<close>

text \<open>The registers a handler gets: the arguments passed, then what the registers held.\<close>

definition handler_arguments :: "u64 list \<Rightarrow> 'w thread_state \<Rightarrow> u64 list" where
  "handler_arguments arguments t =
     map (\<lambda>i. if i < length arguments then arguments ! i else ppc_r (thr_context t) (3 + i))
       [0..<argument_count]"


lemma handler_arguments_call:
  "map (\<lambda>index. ppc_r (thr_context (call_state limits (with_arguments arguments t))) (3 + index))
     [0..<argument_count] = handler_arguments arguments t"
  by (simp add: handler_arguments_def call_state_def thread_defs with_arguments_def)

lemma run_import_call:
  assumes "length arguments \<le> 8" "lim_max_guest_blocks limits \<noteq> 0" "oe_handler e = Some handler"
    and "handler (oe_context e) (new_import_context (handler_arguments arguments t) (oe_memory e))
      (thr_world t) = (ic, w)"
  shows "\<exists>t'. execute_guest_function (\<lambda>t. map_option (Pair True) (dispatch_function e t)) arguments limits t =
      Some (case ic_refusal ic of
          Some reason \<Rightarrow> refused_call (failure ImportServiceRefused
            (''host import '' @ oe_library e @ '' ordinal '' @ dec_of (unat (oe_ordinal e))
               @ '' refused: '' @ refusal_reason_text reason))
        | None \<Rightarrow> \<lparr>exr_failure = no_failure, exr_value = ic_return_value ic\<rparr>, t') \<and>
    thr_world t' = w \<and>
    ppc_r (thr_context t') = (if ic_refusal ic = None
      then (ppc_r (thr_context (with_arguments arguments t)))(3 := ic_return_value ic)
      else ppc_r (thr_context (with_arguments arguments t)))"
proof -
  let ?t = "call_state limits (with_arguments arguments t)"
  have world: "thr_world ?t = thr_world t" by (simp add: call_state_def thread_defs with_arguments_def)
  have ord: "unat (ucast (oe_ordinal e) :: u32) = unat (oe_ordinal e)" 
    using unat_u16_less [of "oe_ordinal e"]
    by (simp add: unsigned_ucast_eq take_bit_nat_eq_self_iff del: unat_u16_less)
  show ?thesis
  proof (cases "ic_refusal ic")
    case None
    have d: "dispatch_function e ?t = Some (?t\<lparr>thr_world := w, thr_context := (thr_context ?t)
        \<lparr>ppc_r := (ppc_r (thr_context ?t))(3 := ic_return_value ic)\<rparr>\<rparr>)"
      using assms(3,4) None world unfolding dispatch_function_def
      by (simp only: handler_arguments_call) (simp add: Let_def)
    show ?thesis
      using assms(1,2) None d
      by (auto simp: execute_guest_function_def prepare_guest_arguments_eq call_state_def thread_defs
          fun_upd_twist with_arguments_def fun_eq_iff)
  next
    case (Some reason)
    have d: "dispatch_function e ?t = mark_guest_import_refused (oe_library e) (ucast (oe_ordinal e)) reason
        (?t\<lparr>thr_world := w\<rparr>)"
      using assms(3,4) Some world unfolding dispatch_function_def
      by (simp only: handler_arguments_call) (simp add: Let_def)
    show ?thesis
      using assms(1,2) Some d
      by (auto simp: execute_guest_function_def prepare_guest_arguments_eq call_state_def thread_defs
          with_arguments_def mark_guest_import_refused_def update_object_def exit_reason_of_def
          set_exit_reason_def exit_failure_def ord fun_eq_iff)
  qed
qed

section \<open>A sample\<close>

definition toy_linker :: "toy_state xenia_linker" where
  "toy_linker = \<lparr>xl_register_table = (\<lambda>l i x. x), xl_set_function_mapping = (\<lambda>l k p x. x),
     xl_set_variable_mapping = (\<lambda>l k v x. x\<lparr>toy_variable := v\<rparr>),
     xl_variable_ptr = (\<lambda>p x. toy_variable x), xl_declare_function = (\<lambda>a x. ((True, Some 0), x)),
     xl_is_guest = (\<lambda>f x. True), xl_set_end_address = (\<lambda>f a x. x), xl_set_name = (\<lambda>f n x. x),
     xl_setup_extern = (\<lambda>f p x. x), xl_set_declared = (\<lambda>f x. x)\<rparr>"

lemma toy_linker_keeps: "linker_keeps_bytes toy_memory toy_linker"
  by (simp add: linker_keeps_bytes_def linker_keeps_def toy_linker_def toy_memory_def)

lemma toy_linker_maps: "linker_maps_variables toy_linker tables"
  by (simp add: linker_maps_variables_def toy_linker_def)

definition sample_requirement :: "import_kind \<Rightarrow> string \<Rightarrow> u32 \<Rightarrow> guest_address \<Rightarrow> import_requirement" where
  "sample_requirement kind library ordinal a =
     \<lparr>imp_kind = kind, imp_library = library, imp_ordinal = ordinal, imp_name = ''f'',
      imp_address = a, imp_record_address = a\<rparr>"

definition sample_binding ::
  "import_requirement \<Rightarrow> 'h \<Rightarrow> ('h, nat, unit) import_binding" where
  "sample_binding req handler =
     \<lparr>bind_library = imp_library req, bind_ordinal = imp_ordinal req, bind_kind = imp_kind req,
      bind_function_handler = (if imp_kind req = Function then Some handler else None),
      bind_function_context = None,
      bind_variable_resolver = (if imp_kind req = Variable then Some 7 else None),
      bind_variable_context = None\<rparr>"

definition sample_manifest :: "import_requirement list" where
  "sample_manifest = [sample_requirement Function ''xam.xex'' 3 0x1000,
     sample_requirement Variable ''xboxkrnl.exe'' 2 0x2000,
     sample_requirement Function ''xboxkrnl.exe'' 5 0x1010]"

definition sample_bindings :: "(nat, nat, unit) import_binding list" where
  "sample_bindings = map (\<lambda>req. sample_binding req 1) sample_manifest"

definition sample_resolver :: "nat \<Rightarrow> unit option \<Rightarrow> guest_address" where
  "sample_resolver r c = word_of_nat r + 0x4000"

lemmas sample_imports = sample_manifest_def sample_bindings_def sample_requirement_def
  sample_binding_def sample_resolver_def

section \<open>Properties\<close>

text \<open>C16: for a sorted manifest with fitting bindings, which is what the validators accept, \<open>Create\<close>
  is never undefined. It fails exactly when a variable resolves to the null address; otherwise the
  tables have distinct libraries and looking up a library and an ordinal in them finds the export of
  the requirement with that key, and nothing for any other key.\<close>

theorem create_imports_tables:
  assumes "list_all2 binding_fits reqs bindings" "sorted_wrt (<) (map import_key_of reqs)"
  shows "case create_imports resolve reqs bindings of
      None \<Rightarrow> False
    | Some (Inl f) \<Rightarrow> fail_error f = VariableResolutionFailed \<and>
        (\<exists>rb\<in>set (zip reqs bindings). unresolved resolve rb)
    | Some (Inr tables) \<Rightarrow> \<not> (\<exists>rb\<in>set (zip reqs bindings). unresolved resolve rb) \<and>
        sorted_wrt (<) (map ot_library tables) \<and>
        (\<forall>l k. lookup_export tables l k =
          map_option (export_of resolve) (find (keyed l k) (zip reqs bindings)))"
proof -
  have "tables_ok []" by (simp add: tables_ok_def)
  then obtain r where "create_imports resolve reqs bindings = Some r" and
    "case r of
       Inl f \<Rightarrow> fail_error f = VariableResolutionFailed \<and> (\<exists>rb\<in>set (zip reqs bindings). unresolved resolve rb)
     | Inr tables' \<Rightarrow> (\<forall>rb\<in>set (zip reqs bindings). \<not> unresolved resolve rb) \<and> tables_ok tables' \<and>
         (\<forall>l k. lookup_export tables' l k =
           (case find (keyed l k) (zip reqs bindings) of
              Some rb \<Rightarrow> Some (export_of resolve rb) | None \<Rightarrow> lookup_export [] l k))"
    using create_loop_ok [OF assms, of "[]" resolve] by (auto simp: create_imports_def)
  then show ?thesis
    by (cases r) (auto simp: tables_ok_def lookup_export_def split: option.splits)
qed

lemma sample_manifest_ok:
  "list_all2 binding_fits sample_manifest sample_bindings"
  "sorted_wrt (<) (map import_key_of sample_manifest)"
  by (simp_all add: sample_imports binding_fits_def import_key_of_def less_import_key_def)

theorem create_imports_tables_witness:
  "case create_imports sample_resolver sample_manifest sample_bindings of
     Some (Inr tables) \<Rightarrow> map_option oe_address (lookup_export tables ''xboxkrnl.exe'' 5) = Some 0x1010
       \<and> map_option oe_resolved_variable (lookup_export tables ''xboxkrnl.exe'' 2) = Some 0x4007
       \<and> lookup_export tables ''xboxkrnl.exe'' 3 = None
   | _ \<Rightarrow> False"
proof -
  have "\<not> (\<exists>rb\<in>set (zip sample_manifest sample_bindings). unresolved sample_resolver rb)"
    by (simp add: sample_imports unresolved_def resolved_of_def)
  with create_imports_tables [OF sample_manifest_ok, of sample_resolver] show ?thesis
    by (auto simp: keyed_def export_of_def new_owned_export_def resolved_of_def sample_imports
        split: option.splits sum.splits)
qed

text \<open>C17: after a successful \<open>Attach\<close> every function import is a thunk of its four instructions and
  every variable record holds the resolved address, provided the thunks and the records do not
  overlap.\<close>

theorem attached_image_holds_imports:
  assumes "heap_bytes xm" "linker_keeps_bytes xm xl" "linker_maps_variables xl tables"
    and "list_all (in_heap xm h) (concat (map table_writes tables))"
    and "sorted_wrt writes_apart (concat (map table_writes tables))"
    and "attach_imports xm xl tables x = (f, tables', x')" "\<not> fails f"
    and "t \<in> set tables" "e \<in> set (ot_exports t)"
  shows "if oe_kind e = Function
    then list_all2 (\<lambda>k word. xm_load xm (oe_address e + k) 4 x' = be_bytes32 word)
      [0, 4, 8, 12] [0x44000042, 0x4E800020, 0x60000000, 0x60000000]
    else xm_load xm (oe_record_address e) 4 x' = be_bytes32 (oe_resolved_variable e)"
proof -
  have "xm_load xm a 4 x' = be_bytes32 v" if "(a, be_bytes32 v) \<in> set (export_writes e)" for a v
    using attach_imports_writes [OF assms(1-7), of a "be_bytes32 v"] that assms(8,9)
    by (auto simp: table_writes_def)
  then show ?thesis by (simp add: export_writes_def)
qed

definition sample_tables_of :: "(nat, unit) owned_table list" where
  "sample_tables_of =
     [\<lparr>ot_library = ''xam.xex'', ot_exports = [new_owned_export
        (sample_requirement Function ''xam.xex'' 3 0x1000) (hd sample_bindings) 0],
        ot_by_ordinal = [None, None, None, Some 0]\<rparr>]"

theorem attached_image_holds_imports_witness:
  "case attach_imports toy_memory toy_linker sample_tables_of toy_start of
     (f, tables, x) \<Rightarrow> f = no_failure \<and> xm_load toy_memory 0x1004 4 x = be_bytes32 0x4E800020"
proof -
  obtain f tables x where run: "attach_imports toy_memory toy_linker sample_tables_of toy_start = (f, tables, x)"
    by (metis prod_cases3)
  then have f: "f = no_failure"
    by (auto simp: attach_imports_def sample_tables_of_def attach_export_def toy_linker_def Let_def
        new_owned_export_def sample_requirement_def)
  let ?ws = "concat (map table_writes sample_tables_of)"
  have heap: "list_all (in_heap toy_memory 0) ?ws"
    and apart: "sorted_wrt writes_apart ?ws"
    by (simp_all add: sample_tables_of_def table_writes_def export_writes_def new_owned_export_def
        sample_requirement_def in_heap_def toy_memory_def fits_def writes_apart_def span_of_def)
  note law = attached_image_holds_imports [OF toy_heap_bytes toy_linker_keeps toy_linker_maps heap apart run,
    of "hd sample_tables_of" "hd (ot_exports (hd sample_tables_of))"]
  then have "xm_load toy_memory 0x1004 4 x = be_bytes32 0x4E800020"
    using f by (simp add: sample_tables_of_def new_owned_export_def sample_requirement_def)
  with f run show ?thesis by simp
qed

text \<open>C18: a bounded call that reaches an import runs its handler on the arguments passed. A refusal
  ends the call with a failure that names the import and the reason and leaves the registers; any
  other handler returns its value in \<open>r3\<close>.\<close>

theorem import_call_outcome:
  assumes "length arguments \<le> 8" "lim_max_guest_blocks limits \<noteq> 0" "oe_handler e = Some handler"
    and "handler (oe_context e) (new_import_context (handler_arguments arguments t) (oe_memory e))
      (thr_world t) = (ic, w)"
  shows "\<exists>t'. execute_guest_function (\<lambda>t. map_option (Pair True) (dispatch_function e t)) arguments limits t =
      Some (case ic_refusal ic of
          Some reason \<Rightarrow> refused_call (failure ImportServiceRefused
            (''host import '' @ oe_library e @ '' ordinal '' @ dec_of (unat (oe_ordinal e))
               @ '' refused: '' @ refusal_reason_text reason))
        | None \<Rightarrow> \<lparr>exr_failure = no_failure, exr_value = ic_return_value ic\<rparr>, t') \<and>
    thr_world t' = w \<and>
    ppc_r (thr_context t') = (if ic_refusal ic = None
      then (ppc_r (thr_context (with_arguments arguments t)))(3 := ic_return_value ic)
      else ppc_r (thr_context (with_arguments arguments t)))"
  by (rule run_import_call [OF assms])

definition sample_handler :: "(unit, unit) import_handler" where
  "sample_handler c ic w = (if argument ic 0 = 7 then refuse_import InvalidArguments ic
     else set_return_value (argument ic 1 + 1) ic, w)"

definition sample_export :: "((unit, unit) import_handler, unit) owned_export" where
  "sample_export = new_owned_export (sample_requirement Function ''xam.xex'' 3 0x1000)
     (sample_binding (sample_requirement Function ''xam.xex'' 3 0x1000) sample_handler) 0"

theorem import_call_outcome_witness:
  "(\<exists>t'. execute_guest_function (\<lambda>t. map_option (Pair True) (dispatch_function sample_export t))
      [1, 41] sample_limits idle_thread = Some (\<lparr>exr_failure = no_failure, exr_value = 42\<rparr>, t'))
   \<and> (\<exists>t'. execute_guest_function (\<lambda>t. map_option (Pair True) (dispatch_function sample_export t))
      [7] sample_limits idle_thread = Some (refused_call (failure ImportServiceRefused
        ''host import xam.xex ordinal 3 refused: invalid arguments''), t'))"
proof -
  have limits: "lim_max_guest_blocks sample_limits \<noteq> 0" by (simp add: sample_limits_def)
  have h: "oe_handler sample_export = Some sample_handler"
    by (simp add: sample_export_def new_owned_export_def sample_binding_def sample_requirement_def)
  note run = import_call_outcome [where limits = sample_limits and e = sample_export and t = idle_thread,
      OF _ limits h prod.collapse [symmetric]]
  have args: "handler_arguments [1, 41] idle_thread ! 0 = 1" "handler_arguments [1, 41] idle_thread ! Suc 0 = 41"
      "handler_arguments [7] idle_thread ! 0 = 7" "length (handler_arguments a idle_thread) = 8" for a
    by (simp_all add: handler_arguments_def argument_count_def)
  have fields: "oe_context sample_export = None" "oe_memory sample_export = False"
      "oe_library sample_export = ''xam.xex''" "oe_ordinal sample_export = 3"
    by (simp_all add: sample_export_def new_owned_export_def sample_binding_def sample_requirement_def)
  note simps = sample_handler_def argument_def new_import_context_def args set_return_value_def
    refuse_import_def fields
  have "dec_of 3 = ''3''" by (simp add: dec_of.simps [of 3] hex_digits_def)
  then show ?thesis
    using run [of "[1, 41]"] run [of "[7]"] by (auto simp: simps)
qed

text \<open>The thunks of a validated manifest may overlap: its addresses are only known to be distinct and
  aligned. Then a later thunk overwrites the end of an earlier one.\<close>

definition overlapping_manifest :: "import_requirement list" where
  "overlapping_manifest = [(sample_requirement Function ''xam.xex'' 3 0x1000)\<lparr>imp_record_address := 0x1100\<rparr>,
     (sample_requirement Function ''xam.xex'' 4 0x1004)\<lparr>imp_record_address := 0x1104\<rparr>]"

definition overlapping_tables :: "(nat, unit) owned_table list" where
  "overlapping_tables = [\<lparr>ot_library = ''xam.xex'', ot_exports =
     map (\<lambda>req. new_owned_export req (sample_binding req 1) 0) overlapping_manifest,
     ot_by_ordinal = [None, None, None, Some 0, Some 1]\<rparr>]"

definition overlapping_module :: module_descriptor where
  "overlapping_module = \<lparr>desc_image = \<lparr>img_sha256 = [], img_base = 0, img_size = 0x10000,
     img_entry_point = 0x1000\<rparr>, desc_code = \<lparr>code_base = 0x1000, code_size = 0x100\<rparr>,
     desc_import_count = 2, desc_import_manifest_sha256 = []\<rparr>"

lemma overlapping_manifest_valid: "valid_manifest overlapping_module overlapping_manifest"
proof -
  have "4 dvd (0x1000 :: nat)" "4 dvd (0x1004 :: nat)" "4 dvd (0x1100 :: nat)" "4 dvd (0x1104 :: nat)"
    by presburger+
  then show ?thesis
    by (simp add: valid_manifest_def valid_import_def overlapping_manifest_def overlapping_module_def
        sample_requirement_def is_valid_library_def is_valid_import_name_def char_within_def
        is_portable_key_character_def encodable_def import_addresses_valid_def is_inside_def
        image_end_def code_end_def import_key_of_def less_import_key_def Let_def)
qed

lemma overlapping_thunks:
  "case attach_imports toy_memory toy_linker overlapping_tables toy_start of
     (f, tables, x) \<Rightarrow> f = no_failure \<and> xm_load toy_memory 0x1004 4 x = be_bytes32 0x44000042"
proof -
  obtain f tables x where run: "attach_imports toy_memory toy_linker overlapping_tables toy_start = (f, tables, x)"
    by (metis prod_cases3)
  then have f: "f = no_failure"
    and x: "x = store_thunk toy_memory 0x1004 (store_thunk toy_memory 0x1000 toy_start)"
    by (auto simp: attach_imports_def overlapping_tables_def attach_export_def toy_linker_def Let_def
        new_owned_export_def overlapping_manifest_def sample_requirement_def)
  let ?ws = "[(0x1004, be_bytes32 0x44000042), (0x1008, be_bytes32 0x4E800020),
    (0x100C, be_bytes32 0x60000000), (0x1010, be_bytes32 0x60000000)] :: (guest_address \<times> bytes) list"
  have "list_all (in_heap toy_memory 0) ?ws" "sorted_wrt writes_apart ?ws"
    by (simp_all add: in_heap_def toy_memory_def fits_def writes_apart_def span_of_def)
  from store_all_there [OF toy_heap_bytes this, where a = "0x1004"
    and bs = "be_bytes32 0x44000042"]
  have "xm_load toy_memory 0x1004 4 x = be_bytes32 0x44000042" by (simp add: x store_thunk_eq)
  with f run show ?thesis by simp
qed

end
