(* ===== verification/Ordered_Map.thy ===== *)
theory Ordered_Map imports Prelude begin

text \<open>
  \<open>std::map\<close> with 32-bit keys, as the list of its entries in key order: the part of it the code
  uses. The lemmas read it as a set of entries; the interface locale \<open>finite_table\<close> is the
  \<open>contains\<close>/\<open>emplace\<close>/\<open>erase\<close> contract that the ordered and the unordered maps of the code share.
\<close>

section \<open>The contract\<close>

locale finite_table =
  fixes lookup :: "'m \<Rightarrow> 'k \<Rightarrow> 'v option"
    and emplace :: "'k \<Rightarrow> 'v \<Rightarrow> 'm \<Rightarrow> 'm"
    and erase :: "'k \<Rightarrow> 'm \<Rightarrow> 'm"
    and none :: 'm
    and invar :: "'m \<Rightarrow> bool"
  assumes invar_none: "invar none"
    and invar_emplace: "invar m \<Longrightarrow> invar (emplace k v m)"
    and invar_erase: "invar m \<Longrightarrow> invar (erase k m)"
    and lookup_none: "lookup none k = None"
    and lookup_emplace: "invar m \<Longrightarrow> lookup (emplace k v m) j =
      (if j = k \<and> lookup m k = None then Some v else lookup m j)"
    and lookup_erase: "invar m \<Longrightarrow> lookup (erase k m) j = (if j = k then None else lookup m j)"
begin

text \<open>An entry that is inserted and removed again leaves every lookup as it was.\<close>

lemma erase_emplace:
  "invar m \<Longrightarrow> lookup m k = None \<Longrightarrow> lookup (erase k (emplace k v m)) j = lookup m j"
  by (simp add: lookup_erase invar_emplace lookup_emplace)

lemma emplace_present: "invar m \<Longrightarrow> lookup m k \<noteq> None \<Longrightarrow> lookup (emplace k v m) = lookup m"
  by (auto simp: lookup_emplace)

lemma emplace_commute:
  "invar m \<Longrightarrow> j \<noteq> k \<Longrightarrow>
   lookup (emplace j v (emplace k w m)) = lookup (emplace k w (emplace j v m))"
  by (auto simp: lookup_emplace invar_emplace)

end

section \<open>The ordered map\<close>

type_synonym 'v ordered_map = "(u32 \<times> 'v) list"

definition map_ordered :: "'v ordered_map \<Rightarrow> bool" where
  "map_ordered m \<longleftrightarrow> sorted_wrt (<) (map fst m)"

fun map_emplace :: "u32 \<Rightarrow> 'v \<Rightarrow> 'v ordered_map \<Rightarrow> 'v ordered_map" where
  "map_emplace k v [] = [(k, v)]"
| "map_emplace k v (e # m) =
     (if k < fst e then (k, v) # e # m else if k = fst e then e # m else e # map_emplace k v m)"

definition map_erase :: "u32 \<Rightarrow> 'v ordered_map \<Rightarrow> 'v ordered_map" where
  "map_erase k m = filter (\<lambda>e. fst e \<noteq> k) m"

text \<open>The entry before \<open>upper_bound(k)\<close>, if that is not \<open>begin()\<close>.\<close>

fun map_preceding :: "u32 \<Rightarrow> 'v ordered_map \<Rightarrow> (u32 \<times> 'v) option" where
  "map_preceding k [] = None"
| "map_preceding k (e # m) =
     (if fst e \<le> k then (case map_preceding k m of Some f \<Rightarrow> Some f | None \<Rightarrow> Some e) else None)"

lemma map_ordered_Nil [simp]: "map_ordered []"
  by (simp add: map_ordered_def)

lemma map_ordered_Cons: "map_ordered (e # m) \<longleftrightarrow> (\<forall>e'\<in>set m. fst e < fst e') \<and> map_ordered m"
  by (simp add: map_ordered_def)

lemma map_of_ordered: "map_ordered m \<Longrightarrow> map_of m k = Some v \<longleftrightarrow> (k, v) \<in> set m"
  by (simp add: map_ordered_def strict_sorted_iff)

lemma map_of_above: "\<forall>e\<in>set m. a < fst e \<Longrightarrow> (k :: u32) \<le> a \<Longrightarrow> map_of m k = None"
  by (induction m) auto

lemma map_of_emplace:
  "map_ordered m \<Longrightarrow> map_of (map_emplace k v m) j =
     (if j = k \<and> map_of m k = None then Some v else map_of m j)"
  by (induction m) (auto simp: map_ordered_Cons map_of_above)

lemma map_emplace_set:
  "map_ordered m \<Longrightarrow>
   set (map_emplace k v m) = (if map_of m k = None then insert (k, v) (set m) else set m)"
  by (induction m) (auto simp: map_ordered_Cons map_of_above)

lemma map_emplace_ordered [simp]: "map_ordered m \<Longrightarrow> map_ordered (map_emplace k v m)"
  by (induction m) (auto simp: map_ordered_Cons map_emplace_set split: if_splits)

lemma map_erase_set: "set (map_erase k m) = {e \<in> set m. fst e \<noteq> k}"
  by (simp add: map_erase_def)

lemma map_erase_ordered [simp]: "map_ordered m \<Longrightarrow> map_ordered (map_erase k m)"
  by (induction m) (auto simp: map_ordered_Cons map_erase_def)

lemma map_of_erase: "map_of (map_erase k m) j = (if j = k then None else map_of m j)"
  by (induction m) (auto simp: map_erase_def)

interpretation om: finite_table "map_of :: 'v ordered_map \<Rightarrow> u32 \<Rightarrow> 'v option"
  map_emplace map_erase "[]" map_ordered
  by unfold_locales (simp_all add: map_of_emplace map_of_erase)

lemma map_preceding_None: "map_ordered m \<Longrightarrow> map_preceding k m = None \<longleftrightarrow> (\<forall>e\<in>set m. k < fst e)"
  by (cases m) (auto simp: map_ordered_Cons split: option.splits)

lemma map_preceding_SomeD:
  "map_ordered m \<Longrightarrow> map_preceding k m = Some e \<Longrightarrow>
   e \<in> set m \<and> fst e \<le> k \<and> (\<forall>f\<in>set m. fst f \<le> k \<longrightarrow> fst f \<le> fst e)"
proof (induction m arbitrary: e)
  case (Cons f m)
  from Cons.prems have m: "map_ordered m" and above: "\<forall>g\<in>set m. fst f < fst g" and le: "fst f \<le> k"
    by (simp_all add: map_ordered_Cons split: if_splits)
  show ?case
  proof (cases "map_preceding k m")
    case None
    with Cons.prems le have "e = f" by simp
    moreover from None m have "\<forall>g\<in>set m. k < fst g" by (simp add: map_preceding_None)
    ultimately show ?thesis using le by fastforce
  next
    case (Some g)
    with Cons.prems le have "e = g" by simp
    with Cons.IH [OF m] Some above show ?thesis by fastforce
  qed
qed simp

section \<open>The unordered map\<close>

text \<open>\<open>std::unordered_map\<close>: the code looks up, inserts and erases by key, and never iterates.\<close>

definition table_emplace :: "'k \<Rightarrow> 'v \<Rightarrow> ('k \<Rightarrow> 'v option) \<Rightarrow> ('k \<Rightarrow> 'v option)" where
  "table_emplace k v m = (case m k of None \<Rightarrow> m(k \<mapsto> v) | Some _ \<Rightarrow> m)"

definition table_erase :: "'k \<Rightarrow> ('k \<Rightarrow> 'v option) \<Rightarrow> ('k \<Rightarrow> 'v option)" where
  "table_erase k m = m(k := None)"

interpretation ut: finite_table "\<lambda>m. m" table_emplace table_erase "\<lambda>_. None" "\<lambda>_. True"
  by unfold_locales (simp_all add: table_emplace_def table_erase_def split: option.splits)

end
