(* ===== verification/Override_Dispatch.thy ===== *)
theory Override_Dispatch imports Ordered_Map Guest_Execution Module_Validation begin

text \<open>
  Native overrides: \<open>OverrideDispatch\<close> of \<open>src/override_dispatch.cpp\<close>. An entry is in the table exactly
  while Xenia redirects guest calls to it; a guest call to the address runs the handler and its
  outcome becomes the call's.

  Xenia's redirects are a parameter (\<open>xenia_redirects\<close>) with the set of redirected addresses as the
  state the laws speak of. A handler is host code: a function of the thread and the statistics,
  \<open>None\<close> when it ends the process; it may re-enter the guest. The contract of the table is the
  locale \<open>call_redirection\<close>; its client lemma says what a lookup finds after any history.
\<close>

section \<open>The contract\<close>

datatype ('a, 'e) redirection_call = Install 'a 'e | Remove 'a

text \<open>What the accepted calls of a history say about the table.\<close>

fun replay :: "(('a, 'e) redirection_call \<times> runtime_failure) list \<Rightarrow> ('a \<Rightarrow> 'e option) \<Rightarrow> ('a \<Rightarrow> 'e option)"
  where
  "replay [] m = m"
| "replay ((c, f) # h) m = replay h (if fails f then m else
     (case c of Install a e \<Rightarrow> m(a \<mapsto> e) | Remove a \<Rightarrow> m(a := None)))"

locale call_redirection =
  fixes install :: "'a \<Rightarrow> 'e \<Rightarrow> 's \<Rightarrow> runtime_failure \<times> 's"
    and remove :: "'a \<Rightarrow> 's \<Rightarrow> runtime_failure \<times> 's"
    and look_up :: "'s \<Rightarrow> 'a \<Rightarrow> 'e option"
    and invar :: "'s \<Rightarrow> bool"
  assumes install_invar: "invar s \<Longrightarrow> invar (snd (install a e s))"
    and remove_invar: "invar s \<Longrightarrow> invar (snd (remove a s))"
    and install_look_up: "invar s \<Longrightarrow> look_up (snd (install a e s)) =
      (if fails (fst (install a e s)) then look_up s else (look_up s)(a \<mapsto> e))"
    and remove_look_up: "invar s \<Longrightarrow> look_up (snd (remove a s)) =
      (if fails (fst (remove a s)) then look_up s else (look_up s)(a := None))"
    and install_fresh: "invar s \<Longrightarrow> \<not> fails (fst (install a e s)) \<Longrightarrow> look_up s a = None"
    and remove_present: "invar s \<Longrightarrow> \<not> fails (fst (remove a s)) \<Longrightarrow> look_up s a \<noteq> None"
begin

definition perform :: "('a, 'e) redirection_call \<Rightarrow> 's \<Rightarrow> runtime_failure \<times> 's" where
  "perform c s = (case c of Install a e \<Rightarrow> install a e s | Remove a \<Rightarrow> remove a s)"

fun run_calls :: "('a, 'e) redirection_call list \<Rightarrow> 's \<Rightarrow> runtime_failure list \<times> 's" where
  "run_calls [] s = ([], s)"
| "run_calls (c # cs) s =
     (case perform c s of (f, s) \<Rightarrow> case run_calls cs s of (fs, s) \<Rightarrow> (f # fs, s))"

lemma perform_laws:
  assumes "invar s"
  shows "invar (snd (perform c s))"
    and "look_up (snd (perform c s)) = replay [(c, fst (perform c s))] (look_up s)"
  using assms install_invar remove_invar install_look_up remove_look_up
  by (auto simp: perform_def split: redirection_call.split)

lemma look_up_history:
  assumes "invar s" "run_calls cs s = (fs, s')"
  shows "invar s' \<and> look_up s' = replay (zip cs fs) (look_up s)"
  using assms
proof (induction cs arbitrary: s fs s')
  case (Cons c cs)
  obtain f s1 where p: "perform c s = (f, s1)" by (cases "perform c s")
  obtain fs1 s2 where r: "run_calls cs s1 = (fs1, s2)" by (cases "run_calls cs s1")
  from Cons.prems p r have s': "fs = f # fs1" "s' = s2" by simp_all
  from perform_laws [OF Cons.prems(1), of c] p
  have one: "invar s1" "look_up s1 = replay [(c, f)] (look_up s)" by simp_all
  from Cons.IH [OF one(1) r] one(2) s' show ?case by simp
qed simp

end

section \<open>State\<close>

record 'x xenia_redirects =
  xr_install :: "guest_address \<Rightarrow> 'x \<Rightarrow> bool \<times> 'x"
  xr_remove :: "guest_address \<Rightarrow> 'x \<Rightarrow> bool \<times> 'x"

definition redirect_laws :: "'x xenia_redirects \<Rightarrow> ('x \<Rightarrow> guest_address set) \<Rightarrow> bool" where
  "redirect_laws xr redirected \<longleftrightarrow>
     (\<forall>a x. redirected (snd (xr_install xr a x)) =
        (if fst (xr_install xr a x) then insert a (redirected x) else redirected x))
     \<and> (\<forall>a x. redirected (snd (xr_remove xr a x)) =
        (if fst (xr_remove xr a x) then redirected x - {a} else redirected x))"

record ('h, 'c) override_entry =
  ovr_address :: guest_address
  ovr_handler :: "'h option"
  ovr_context :: "'c option"

text \<open>\<open>Bind\<close> sets the processor, the owner and the statistics together: \<open>ovd_bound\<close>.\<close>

record ('h, 'c, 'k) override_dispatch =
  ovd_bound :: bool
  ovd_unscoped_failure :: "'k option"
  ovd_entries :: "guest_address \<Rightarrow> ('h, 'c) override_entry option"

definition new_override_dispatch :: "('h, 'c, 'k) override_dispatch" where
  "new_override_dispatch =
     \<lparr>ovd_bound = False, ovd_unscoped_failure = None, ovd_entries = (\<lambda>_. None)\<rparr>"

definition bind_overrides ::
  "'k option \<Rightarrow> ('h, 'c, 'k) override_dispatch \<Rightarrow> ('h, 'c, 'k) override_dispatch" where
  "bind_overrides sink ovd = ovd\<lparr>ovd_bound := True, ovd_unscoped_failure := sink\<rparr>"

definition range_contains :: "code_range \<Rightarrow> guest_address \<Rightarrow> bool" where
  "range_contains code address \<longleftrightarrow>
     address \<ge> code_base code \<and> unat address < unat (code_base code) + unat (code_size code)"

section \<open>Operations\<close>

definition install_override ::
  "'x xenia_redirects \<Rightarrow> guest_address \<Rightarrow> 'h option \<Rightarrow> 'c option \<Rightarrow> code_range \<Rightarrow>
   ('h, 'c, 'k) override_dispatch \<Rightarrow> 'x \<Rightarrow> runtime_failure \<times> ('h, 'c, 'k) override_dispatch \<times> 'x" where
  "install_override xr address handler context code ovd x =
     (if \<not> ovd_bound ovd
      then (failure LoadStateInvalid ''native override dispatch requires an initialized runtime'', ovd, x)
      else if handler = None
      then (failure OverrideInvalid ''native override handler must not be null'', ovd, x)
      else if \<not> range_contains code address
      then (failure EntryOutsideCode
        ''native override address is outside the authenticated code range'', ovd, x)
      else (let entry = \<lparr>ovr_address = address, ovr_handler = handler, ovr_context = context\<rparr>;
                inserted = (ovd_entries ovd address = None);
                entries = table_emplace address entry (ovd_entries ovd) in
        if \<not> inserted
        then (failure OverrideAlreadyInstalled
          ''a native override is already installed at this guest address'', ovd, x)
        else (case xr_install xr address x of (installed, x) \<Rightarrow>
          if \<not> installed
          then (failure OverrideDispatchFailed
            ''Xenia could not install the native guest-call redirect'',
            ovd\<lparr>ovd_entries := table_erase address entries\<rparr>, x)
          else (no_failure, ovd\<lparr>ovd_entries := entries\<rparr>, x))))"

definition remove_override ::
  "'x xenia_redirects \<Rightarrow> guest_address \<Rightarrow> ('h, 'c, 'k) override_dispatch \<Rightarrow> 'x \<Rightarrow>
   runtime_failure \<times> ('h, 'c, 'k) override_dispatch \<times> 'x" where
  "remove_override xr address ovd x =
     (if ovd_entries ovd address = None
      then (failure OverrideNotInstalled ''no native override is installed at this guest address'', ovd, x)
      else (case xr_remove xr address x of (removed, x) \<Rightarrow>
        if \<not> removed
        then (failure OverrideDispatchFailed
          ''Xenia could not remove the native guest-call redirect'', ovd, x)
        else (no_failure, ovd\<lparr>ovd_entries := table_erase address (ovd_entries ovd)\<rparr>, x)))"

definition find_override ::
  "('h, 'c, 'k) override_dispatch \<Rightarrow> guest_address \<Rightarrow> ('h, 'c) override_entry option" where
  "find_override ovd address = ovd_entries ovd address"

text \<open>
  What a handler and an unscoped failure sink are: host code over the thread and the statistics.
  A sink must not return; one that does leaves the state it returns.
\<close>

type_synonym 'w host_state = "'w thread_state \<times> jit_statistics"
type_synonym ('w, 'c) override_handler =
  "guest_address \<Rightarrow> u64 list \<Rightarrow> 'c option \<Rightarrow> 'w host_state \<Rightarrow> (execution_result \<times> 'w host_state) option"
type_synonym 'w failure_sink = "runtime_failure \<Rightarrow> 'w host_state \<Rightarrow> 'w host_state option"

definition count_native_override :: "jit_statistics \<Rightarrow> jit_statistics" where
  "count_native_override st = st\<lparr>st_native_override_calls := st_native_override_calls st + 1\<rparr>"

text \<open>What becomes of a handler's result.\<close>

definition finish_override ::
  "('h, 'c, 'w failure_sink) override_dispatch \<Rightarrow> execution_result \<Rightarrow> 'w thread_state \<Rightarrow>
   jit_statistics \<Rightarrow> 'w host_state option" where
  "finish_override ovd result t st =
     (if succeeds result
      then Some (t\<lparr>thr_context := (thr_context t)
        \<lparr>ppc_r := (ppc_r (thr_context t))(3 := exr_value result)\<rparr>\<rparr>, st)
      else (case (thr_active_budget t, ovd_unscoped_failure ovd) of
          (None, Some sink) \<Rightarrow> sink (exr_failure result) (t, st)
        | _ \<Rightarrow> map_option (\<lambda>t. (t, st)) (mark_guest_override_failed (exr_failure result) t)))"

definition dispatch_guest ::
  "(('w, 'c) override_handler, 'c, 'w failure_sink) override_dispatch \<Rightarrow>
   (('w, 'c) override_handler, 'c) override_entry \<Rightarrow> 'w host_state \<Rightarrow> 'w host_state option" where
  "dispatch_guest ovd entry s =
     (if \<not> ovd_bound ovd then None
      else (case ovr_handler entry of
        None \<Rightarrow> None
      | Some handler \<Rightarrow>
          (let arguments = map (\<lambda>index. ppc_r (thr_context (fst s)) (3 + index)) [0..<8];
               s = (fst s, count_native_override (snd s)) in
           do {
             r \<leftarrow> handler (ovr_address entry) arguments (ovr_context entry) s;
             finish_override ovd (fst r) (fst (snd r)) (snd (snd r)) })))"

section \<open>The table keeps its contract\<close>

definition overridden ::
  "('h, 'c, 'k) override_dispatch \<times> 'x \<Rightarrow> guest_address \<Rightarrow> ('h option \<times> 'c option) option" where
  "overridden s a = map_option (\<lambda>e. (ovr_handler e, ovr_context e)) (find_override (fst s) a)"

definition install_call ::
  "'x xenia_redirects \<Rightarrow> code_range \<Rightarrow> guest_address \<Rightarrow> 'h option \<times> 'c option \<Rightarrow>
   ('h, 'c, 'k) override_dispatch \<times> 'x \<Rightarrow> runtime_failure \<times> ('h, 'c, 'k) override_dispatch \<times> 'x" where
  "install_call xr code a e s = install_override xr a (fst e) (snd e) code (fst s) (snd s)"

definition remove_call ::
  "'x xenia_redirects \<Rightarrow> guest_address \<Rightarrow> ('h, 'c, 'k) override_dispatch \<times> 'x \<Rightarrow>
   runtime_failure \<times> ('h, 'c, 'k) override_dispatch \<times> 'x" where
  "remove_call xr a s = remove_override xr a (fst s) (snd s)"

lemmas override_defs = install_override_def remove_override_def find_override_def overridden_def
  install_call_def remove_call_def table_emplace_def table_erase_def Let_def

interpretation ovt: call_redirection "install_call xr code" "remove_call xr" overridden "\<lambda>_. True"
  for xr :: "'x xenia_redirects" and code
  by unfold_locales
    (auto simp: override_defs fun_eq_iff split: prod.splits if_splits option.splits)

text \<open>What else holds of the table: an entry is redirected, names its address and has a handler.\<close>

definition overrides_ok ::
  "('x \<Rightarrow> guest_address set) \<Rightarrow> code_range \<Rightarrow> ('h, 'c, 'k) override_dispatch \<times> 'x \<Rightarrow> bool" where
  "overrides_ok redirected code s \<longleftrightarrow>
     (\<forall>a. a \<in> redirected (snd s) \<longleftrightarrow> ovd_entries (fst s) a \<noteq> None) \<and>
     (\<forall>a e. ovd_entries (fst s) a = Some e \<longrightarrow>
        ovr_address e = a \<and> ovr_handler e \<noteq> None \<and> range_contains code a)"

lemma overrides_ok_install:
  assumes "redirect_laws xr redirected" "overrides_ok redirected code s"
  shows "overrides_ok redirected code (snd (install_call xr code a e s))"
proof -
  obtain ok x where r: "xr_install xr a (snd s) = (ok, x)" by (cases "xr_install xr a (snd s)")
  with assms(1) have "redirected x = (if ok then insert a (redirected (snd s)) else redirected (snd s))"
    unfolding redirect_laws_def by (metis fst_conv snd_conv)
  with assms(2) r show ?thesis
    by (auto simp: overrides_ok_def override_defs split: option.splits if_splits)
qed

lemma overrides_ok_remove:
  assumes "redirect_laws xr redirected" "overrides_ok redirected code s"
  shows "overrides_ok redirected code (snd (remove_call xr a s))"
proof -
  obtain ok x where r: "xr_remove xr a (snd s) = (ok, x)" by (cases "xr_remove xr a (snd s)")
  with assms(1) have "redirected x = (if ok then redirected (snd s) - {a} else redirected (snd s))"
    unfolding redirect_laws_def by (metis fst_conv snd_conv)
  with assms(2) r show ?thesis
    by (auto simp: overrides_ok_def override_defs split: option.splits if_splits)
qed

lemma overrides_ok_history:
  assumes "redirect_laws xr redirected"
  shows "overrides_ok redirected code s \<Longrightarrow> ovt.run_calls xr code cs s = (fs, s') \<Longrightarrow>
    overrides_ok redirected code s'"
proof (induction cs arbitrary: s fs)
  case (Cons c cs)
  have "overrides_ok redirected code (snd (ovt.perform xr code c s))"
    using overrides_ok_install [OF assms Cons.prems(1)] overrides_ok_remove [OF assms Cons.prems(1)]
    by (cases c) (simp_all add: ovt.perform_def)
  with Cons show ?case by (auto split: prod.splits)
qed simp

section \<open>A call through an override\<close>

text \<open>The code of a guest call that is one redirected call.\<close>

definition override_code ::
  "(('w, 'c) override_handler, 'c, 'w failure_sink) override_dispatch \<Rightarrow>
   (('w, 'c) override_handler, 'c) override_entry \<Rightarrow> jit_statistics \<Rightarrow> 'w guest_code" where
  "override_code ovd entry st t =
     map_option (\<lambda>s. (True, fst s)) (dispatch_guest ovd entry (t, st))"

lemma override_arguments:
  "map (\<lambda>index. ppc_r (thr_context (call_state limits (with_arguments arguments t))) (3 + index)) [0..<8] =
   map (\<lambda>i. if i < length arguments then arguments ! i else ppc_r (thr_context t) (3 + i)) [0..<8]"
  by (simp add: call_state_def thread_defs with_arguments_def)

lemma run_override_call:
  assumes "length arguments \<le> 8" "lim_max_guest_blocks limits \<noteq> 0"
    and "ovd_bound ovd" "ovr_handler entry = Some handler"
    and "handler (ovr_address entry)
      (map (\<lambda>i. if i < length arguments then arguments ! i else ppc_r (thr_context t) (3 + i)) [0..<8])
      (ovr_context entry) (call_state limits (with_arguments arguments t), count_native_override st)
      = Some (r, t1, st1)"
    and "in_call (length (thr_objects t)) t1"
    and "bud_exit_reason (obj_budget (thr_objects t1 ! length (thr_objects t))) = Exit_None"
  shows "\<exists>t'. execute_guest_function (override_code ovd entry st) arguments limits t =
      Some (if succeeds r then \<lparr>exr_failure = no_failure, exr_value = exr_value r\<rparr>
        else refused_call (exr_failure r), t') \<and> same_scope t t'"
proof -
  let ?t = "call_state limits (with_arguments arguments t)"
  let ?self = "length (thr_objects t)"
  obtain t2 where f: "finish_override ovd r t1 st1 = Some (t2, st1)" and
    t2: "if succeeds r
      then t2 = t1\<lparr>thr_context := (thr_context t1)\<lparr>ppc_r := (ppc_r (thr_context t1))(3 := exr_value r)\<rparr>\<rparr>
      else Some t2 = mark_guest_override_failed (exr_failure r) t1"
    using assms(6) by (cases "succeeds r")
      (auto simp: finish_override_def in_call_def mark_guest_override_failed_def)
  have d: "override_code ovd entry st ?t = Some (True, t2)"
    using assms(3-5) f by (simp add: override_code_def dispatch_guest_def override_arguments)
  have "in_call ?self t2 \<and> (if succeeds r
      then bud_exit_reason (obj_budget (thr_objects t2 ! ?self)) = Exit_None \<and> ppc_r (thr_context t2) 3 = exr_value r
      else exit_failure (thr_objects t2 ! ?self) = exr_failure r \<and>
        bud_exit_reason (obj_budget (thr_objects t2 ! ?self)) \<noteq> Exit_None)"
    using t2 assms(6,7)
    by (auto simp: in_call_def mark_guest_override_failed_def exit_reason_of_def update_object_def
        set_exit_reason_def exit_failure_def split: if_splits)
  then show ?thesis
    using assms(1,2) d execute_restores [of "override_code ovd entry st" arguments limits t]
    by (auto simp: execute_guest_function_def prepare_guest_arguments_eq call_state_def thread_defs
        with_arguments_def split: if_splits)
qed


fun run_overrides ::
  "'x xenia_redirects \<Rightarrow> code_range \<Rightarrow> (guest_address, 'h option \<times> 'c option) redirection_call list \<Rightarrow>
   ('h, 'c, 'k) override_dispatch \<times> 'x \<Rightarrow> runtime_failure list \<times> ('h, 'c, 'k) override_dispatch \<times> 'x" where
  "run_overrides xr code [] s = ([], s)"
| "run_overrides xr code (Install a e # calls) s =
     (case install_override xr a (fst e) (snd e) code (fst s) (snd s) of (f, s) \<Rightarrow>
        case run_overrides xr code calls s of (fs, s) \<Rightarrow> (f # fs, s))"
| "run_overrides xr code (Remove a # calls) s =
     (case remove_override xr a (fst s) (snd s) of (f, s) \<Rightarrow>
        case run_overrides xr code calls s of (fs, s) \<Rightarrow> (f # fs, s))"

lemma run_overrides_eq: "run_overrides xr code calls s = ovt.run_calls xr code calls s"
  by (induction calls arbitrary: s)
    (auto simp: ovt.perform_def install_call_def remove_call_def split: redirection_call.split prod.splits
      elim: run_overrides.elims)

section \<open>Properties\<close>

text \<open>C19: after any history of installations and removals, accepted or refused, a lookup finds the last
  accepted installation that was not removed, Xenia redirects exactly the addresses in the table,
  and every entry has a handler, names its address and lies in the code range.\<close>

theorem override_history:
  fixes ovd :: "('h, 'c, 'k) override_dispatch"
  assumes "redirect_laws xr redirected" "redirected x\<^sub>0 = {}"
    and "run_overrides xr code calls (bind_overrides sink new_override_dispatch, x\<^sub>0) = (fs, ovd, x)"
  shows "(\<forall>a. overridden (ovd, x) a = replay (zip calls fs) (\<lambda>_. None) a) \<and>
    (\<forall>a. a \<in> redirected x \<longleftrightarrow> find_override ovd a \<noteq> None) \<and>
    (\<forall>a e. find_override ovd a = Some e \<longrightarrow>
       ovr_address e = a \<and> ovr_handler e \<noteq> None \<and> range_contains code a)"
proof -
  let ?s = "(bind_overrides sink new_override_dispatch :: ('h, 'c, 'k) override_dispatch, x\<^sub>0)"
  have start: "overrides_ok redirected code ?s" "overridden ?s = (\<lambda>_. None)"
    using assms(2) by (auto simp: overrides_ok_def bind_overrides_def new_override_dispatch_def
        overridden_def find_override_def)
  note run = assms(3) [unfolded run_overrides_eq]
  from ovt.look_up_history [OF _ run] start(2)
  have "overridden (ovd, x) = replay (zip calls fs) (\<lambda>_. None)" by simp
  with overrides_ok_history [OF assms(1) start(1) run] show ?thesis
    by (simp add: overrides_ok_def find_override_def)
qed

definition toy_redirects :: "guest_address list xenia_redirects" where
  "toy_redirects = \<lparr>xr_install = (\<lambda>a x. if length x < 2 then (True, a # x) else (False, x)),
     xr_remove = (\<lambda>a x. (True, removeAll a x))\<rparr>"

lemma toy_redirect_laws: "redirect_laws toy_redirects set"
  by (auto simp: redirect_laws_def toy_redirects_def)

definition sample_overrides :: "(guest_address, nat option \<times> unit option) redirection_call list" where
  "sample_overrides = [Install 0x1000 (Some 1, None), Install 0x1000 (Some 2, None),
     Install 0x1004 (Some 3, None), Install 0x1008 (Some 4, None), Install 0x2000 (Some 5, None),
     Remove 0x1000, Install 0x1008 (None, None)]"

theorem override_history_witness:
  "case run_overrides toy_redirects \<lparr>code_base = 0x1000, code_size = 0x100\<rparr> sample_overrides
      (bind_overrides (None :: nat option) new_override_dispatch, []) of (fs, ovd, x) \<Rightarrow>
     set x = {0x1004} \<and> find_override ovd 0x1000 = None
     \<and> map fail_error fs = [NoRuntimeError, OverrideAlreadyInstalled, NoRuntimeError,
       OverrideDispatchFailed, EntryOutsideCode, NoRuntimeError, OverrideInvalid]"
proof -
  let ?run = "run_overrides toy_redirects \<lparr>code_base = 0x1000, code_size = 0x100\<rparr> sample_overrides
    (bind_overrides (None :: nat option) new_override_dispatch, [])"
  obtain fs ovd x where run: "?run = (fs, ovd, x)" by (metis prod_cases3)
  then have "map fail_error fs = [NoRuntimeError, OverrideAlreadyInstalled, NoRuntimeError,
      OverrideDispatchFailed, EntryOutsideCode, NoRuntimeError, OverrideInvalid] \<and> x = [0x1004]"
    by (auto simp: sample_overrides_def toy_redirects_def override_defs bind_overrides_def
        new_override_dispatch_def range_contains_def no_failure_def)
  moreover from override_history [OF toy_redirect_laws _ run]
  have "0x1000 \<in> set x \<longleftrightarrow> find_override ovd 0x1000 \<noteq> None" by simp
  ultimately show ?thesis by (simp add: run)
qed

text \<open>C20: a bounded call of an overridden address runs the handler on the arguments passed; if the
  handler leaves the call's objects alone, the call returns the handler's value, or fails with
  exactly the handler's failure, and restores the thread's scope.\<close>

theorem override_call_outcome:
  assumes "length arguments \<le> 8" "lim_max_guest_blocks limits \<noteq> 0"
    and "ovd_bound ovd" "ovr_handler entry = Some handler"
    and "handler (ovr_address entry)
      (map (\<lambda>i. if i < length arguments then arguments ! i else ppc_r (thr_context t) (3 + i)) [0..<8])
      (ovr_context entry) (call_state limits (with_arguments arguments t), count_native_override st)
      = Some (r, t1, st1)"
    and "in_call (length (thr_objects t)) t1"
    and "bud_exit_reason (obj_budget (thr_objects t1 ! length (thr_objects t))) = Exit_None"
  shows "\<exists>t'. execute_guest_function (override_code ovd entry st) arguments limits t =
      Some (if succeeds r then \<lparr>exr_failure = no_failure, exr_value = exr_value r\<rparr>
        else refused_call (exr_failure r), t') \<and> same_scope t t'"
  by (rule run_override_call [OF assms])

definition failing_handler :: "(unit, unit) override_handler" where
  "failing_handler address arguments c s =
     Some (refused_call (failure ExecutionFailed (if arguments ! 1 = 9 then ''nine'' else [])), s)"

definition failing_entry :: "((unit, unit) override_handler, unit) override_entry" where
  "failing_entry = \<lparr>ovr_address = 0x1000, ovr_handler = Some failing_handler, ovr_context = None\<rparr>"

theorem override_call_outcome_witness:
  "\<exists>t'. execute_guest_function (override_code (bind_overrides None new_override_dispatch) failing_entry
      no_statistics) [5, 9] sample_limits idle_thread =
    Some (refused_call (failure ExecutionFailed ''nine''), t')"
proof -
  let ?t = "call_state sample_limits (with_arguments [5, 9] idle_thread)"
  have scope: "in_call (length (thr_objects idle_thread)) ?t"
    "bud_exit_reason (obj_budget (thr_objects ?t ! length (thr_objects idle_thread))) = Exit_None"
    using call_state_in_call [where t = "with_arguments [5, 9] idle_thread" and limits = sample_limits]
    by (simp_all add: with_arguments_def)
  have "failing_handler (ovr_address failing_entry)
      (map (\<lambda>i. if i < length [5, 9 :: u64] then [5, 9] ! i else ppc_r (thr_context idle_thread) (3 + i)) [0..<8])
      (ovr_context failing_entry) (?t, count_native_override no_statistics) =
    Some (refused_call (failure ExecutionFailed ''nine''), ?t, count_native_override no_statistics)"
    by (simp add: failing_handler_def)
  from override_call_outcome [where arguments = "[5, 9]" and limits = sample_limits
      and t = idle_thread and entry = failing_entry and st = no_statistics
      and ovd = "bind_overrides None new_override_dispatch" and handler = failing_handler,
      OF _ _ _ _ this scope]
  show ?thesis
    by (auto simp: sample_limits_def bind_overrides_def failing_entry_def succeeds_def refused_call_def)
qed

end
