(* ===== verification/Device_Dispatch.thy ===== *)
theory Device_Dispatch imports Runtime_Failure begin

text \<open>
  Device memory: \<open>DeviceDispatch\<close> of \<open>src/device_dispatch.cpp\<close>. Xenia traps accesses to a mapped range
  and calls back with the pointer it was given, here the position of the range in the list. The
  callbacks are host code; Xenia's mapping (\<open>xd_add\<close>) and the host's page size, which is not zero,
  are parameters.
\<close>

section \<open>Ranges\<close>

type_synonym ('w, 'c) device_read = "u32 \<Rightarrow> 'c option \<Rightarrow> 'w \<Rightarrow> u32 \<times> 'w"
type_synonym ('w, 'c) device_write = "u32 \<Rightarrow> u32 \<Rightarrow> 'c option \<Rightarrow> 'w \<Rightarrow> 'w"

record ('r, 'v, 'c) device_range =
  dev_read :: 'r
  dev_write :: 'v
  dev_context :: "'c option"

record 'x xenia_devices =
  xd_page_size :: u32
  xd_add :: "u32 \<Rightarrow> u32 \<Rightarrow> u32 \<Rightarrow> nat \<Rightarrow> 'x \<Rightarrow> bool \<times> 'x"

record ('r, 'v, 'c) device_request =
  drq_address :: u32
  drq_mask :: u32
  drq_size :: u32
  drq_read :: "'r option"
  drq_write :: "'v option"
  drq_context :: "'c option"

definition register_device ::
  "'x xenia_devices \<Rightarrow> ('r, 'v, 'c) device_request \<Rightarrow> ('r, 'v, 'c) device_range list \<Rightarrow> 'x \<Rightarrow>
   runtime_failure \<times> ('r, 'v, 'c) device_range list \<times> 'x" where
  "register_device xd req ranges x =
     (case (drq_read req, drq_write req) of
        (Some read_callback, Some write_callback) \<Rightarrow>
          if drq_size req = 0 \<or> drq_address req AND NOT (drq_mask req) \<ge> drq_size req
          then (failure DeviceRangeInvalid
            ''device range requires a non-empty aligned masked range and both callbacks'', ranges, x)
          else (let host_page = xd_page_size xd in
            if drq_address req mod host_page \<noteq> 0 \<or> drq_size req mod host_page \<noteq> 0
            then (failure DeviceRangeInvalid
              ''device range must start on and cover whole host pages'', ranges, x)
            else (let ranges = ranges @ [\<lparr>dev_read = read_callback, dev_write = write_callback,
                        dev_context = drq_context req\<rparr>];
                      self = length ranges - 1 in
              case xd_add xd (drq_address req) (drq_mask req) (drq_size req) self x of (added, x) \<Rightarrow>
                if \<not> added
                then (failure DeviceRangeRegistrationFailed
                  ''Xenia refused the virtual device-memory range'', butlast ranges, x)
                else (no_failure, ranges, x)))
      | _ \<Rightarrow> (failure DeviceRangeInvalid
          ''device range requires a non-empty aligned masked range and both callbacks'', ranges, x))"

section \<open>Accesses\<close>

text \<open>A pointer to no range is undefined behaviour: \<open>None\<close>.\<close>

definition device_read ::
  "(('w, 'c) device_read, 'v, 'c) device_range list \<Rightarrow> nat \<Rightarrow> u32 \<Rightarrow> jit_statistics \<Rightarrow> 'w \<Rightarrow>
   (u32 \<times> jit_statistics \<times> 'w) option" where
  "device_read ranges self address st w =
     (if self < length ranges
      then (let range = ranges ! self;
                st = st\<lparr>st_device_read_calls := st_device_read_calls st + 1\<rparr>;
                r = dev_read range address (dev_context range) w
            in Some (fst r, st, snd r))
      else None)"

definition device_write ::
  "('r, ('w, 'c) device_write, 'c) device_range list \<Rightarrow> nat \<Rightarrow> u32 \<Rightarrow> u32 \<Rightarrow> jit_statistics \<Rightarrow> 'w \<Rightarrow>
   (jit_statistics \<times> 'w) option" where
  "device_write ranges self address value st w =
     (if self < length ranges
      then (let range = ranges ! self;
                st = st\<lparr>st_device_write_calls := st_device_write_calls st + 1\<rparr>
            in Some (st, dev_write range address value (dev_context range) w))
      else None)"

section \<open>What Xenia maps\<close>

text \<open>What a request must satisfy, in numbers.\<close>

definition mappable :: "u32 \<Rightarrow> ('r, 'v, 'c) device_request \<Rightarrow> bool" where
  "mappable page req \<longleftrightarrow> drq_read req \<noteq> None \<and> drq_write req \<noteq> None \<and>
     unat (drq_address req AND NOT (drq_mask req)) < unat (drq_size req) \<and>
     unat page dvd unat (drq_address req) \<and> unat page dvd unat (drq_size req)"

definition range_of_request :: "('r, 'v, 'c) device_request \<Rightarrow> ('r, 'v, 'c) device_range" where
  "range_of_request req = \<lparr>dev_read = the (drq_read req), dev_write = the (drq_write req),
     dev_context = drq_context req\<rparr>"

lemma mod_eq_0_dvd: "(a :: u32) mod b = 0 \<longleftrightarrow> unat b dvd unat a"
  by (metis dvd_eq_mod_eq_0 unat_eq_zero unat_mod_distrib)

lemma register_device_cases:
  "register_device xd req ranges x =
     (if \<not> mappable (xd_page_size xd) req
      then (failure DeviceRangeInvalid
        (if drq_read req = None \<or> drq_write req = None \<or> drq_size req = 0
           \<or> drq_address req AND NOT (drq_mask req) \<ge> drq_size req
         then ''device range requires a non-empty aligned masked range and both callbacks''
         else ''device range must start on and cover whole host pages''), ranges, x)
      else (case xd_add xd (drq_address req) (drq_mask req) (drq_size req) (length ranges) x of
        (added, x) \<Rightarrow>
          if added then (no_failure, ranges @ [range_of_request req], x)
          else (failure DeviceRangeRegistrationFailed
            ''Xenia refused the virtual device-memory range'', ranges, x)))"
  by (auto simp: register_device_def mappable_def range_of_request_def Let_def mod_eq_0_dvd
      word_le_nat_alt not_le unat_eq_zero split: option.splits prod.splits)

text \<open>
  Registrations only append: a pointer Xenia holds reaches the callbacks it was registered with, for
  as long as the dispatcher lives.
\<close>

lemma register_device_appends:
  "register_device xd req ranges x = (f, ranges', x') \<Longrightarrow>
   ranges' = (if fails f then ranges else ranges @ [range_of_request req])"
  by (auto simp: register_device_cases split: if_splits prod.splits)

fun register_devices ::
  "'x xenia_devices \<Rightarrow> ('r, 'v, 'c) device_request list \<Rightarrow> ('r, 'v, 'c) device_range list \<Rightarrow> 'x \<Rightarrow>
   runtime_failure list \<times> ('r, 'v, 'c) device_range list \<times> 'x" where
  "register_devices xd [] ranges x = ([], ranges, x)"
| "register_devices xd (req # reqs) ranges x =
     (case register_device xd req ranges x of (f, ranges, x) \<Rightarrow>
        case register_devices xd reqs ranges x of (fs, ranges, x) \<Rightarrow> (f # fs, ranges, x))"

lemma register_devices_ranges:
  "register_devices xd reqs ranges x = (fs, ranges', x') \<Longrightarrow>
   ranges' = ranges @ map (range_of_request \<circ> fst) (filter (\<lambda>(req, f). \<not> fails f) (zip reqs fs))"
proof (induction reqs arbitrary: ranges x fs)
  case (Cons req reqs)
  obtain f r1 x1 where one: "register_device xd req ranges x = (f, r1, x1)" by (metis prod_cases3)
  obtain fs1 r2 x2 where rest: "register_devices xd reqs r1 x1 = (fs1, r2, x2)" by (metis prod_cases3)
  from Cons.prems one rest have "fs = f # fs1" "r2 = ranges'" "x2 = x'" by simp_all
  with Cons.IH [of r1 x1 fs1] rest register_device_appends [OF one] show ?case by simp
qed simp

section \<open>Properties\<close>

text \<open>C21: a registration is accepted exactly when it names both callbacks, the masked address lies in a
  nonempty range of whole host pages, and Xenia takes it; anything else leaves the list alone. After
  any history of registrations a trapped access runs the callbacks of the accepted registration its
  pointer was given for, with that registration's context, and counts one.\<close>

theorem device_registrations:
  assumes "register_devices xd reqs ranges x = (fs, ranges', x')"
    and "accepted = map fst (filter (\<lambda>(req, f). \<not> fails f) (zip reqs fs))" "i < length accepted"
    and "self = length ranges + i"
  shows "(case register_device xd req ranges\<^sub>0 x\<^sub>0 of (f, ranges\<^sub>1, x\<^sub>1) \<Rightarrow>
      (\<not> fails f) = (mappable (xd_page_size xd) req \<and>
        fst (xd_add xd (drq_address req) (drq_mask req) (drq_size req) (length ranges\<^sub>0) x\<^sub>0)) \<and>
      ranges\<^sub>1 = (if fails f then ranges\<^sub>0 else ranges\<^sub>0 @ [range_of_request req])) \<and>
    device_read ranges' self a st w =
      (let r = the (drq_read (accepted ! i)) a (drq_context (accepted ! i)) w in
       Some (fst r, st\<lparr>st_device_read_calls := st_device_read_calls st + 1\<rparr>, snd r)) \<and>
    device_write ranges' self a v st w =
      Some (st\<lparr>st_device_write_calls := st_device_write_calls st + 1\<rparr>,
        the (drq_write (accepted ! i)) a v (drq_context (accepted ! i)) w)"
proof -
  have "ranges' = ranges @ map range_of_request accepted"
    using register_devices_ranges [OF assms(1)] by (simp add: assms(2))
  then have "self < length ranges'" "ranges' ! self = range_of_request (accepted ! i)"
    using assms(3,4) by simp_all
  then show ?thesis
    by (auto simp: device_read_def device_write_def range_of_request_def Let_def register_device_cases
        split: prod.splits)
qed

definition toy_devices_of :: "nat list xenia_devices" where
  "toy_devices_of = \<lparr>xd_page_size = 0x1000, xd_add = (\<lambda>a m n i x. (length x < 2, i # x))\<rparr>"

definition sample_device ::
  "u32 \<Rightarrow> u32 \<Rightarrow> u32 \<Rightarrow> ((unit, unit) device_read, (unit, unit) device_write, unit) device_request" where
  "sample_device a n v = \<lparr>drq_address = a, drq_mask = 0xFFFFF000, drq_size = n,
     drq_read = Some (\<lambda>address c w. (address + v, w)), drq_write = Some (\<lambda>address value c w. w),
     drq_context = None\<rparr>"

theorem device_registrations_witness:
  "let (fs, ranges, x) = register_devices toy_devices_of
      [sample_device 0x1000 0x1000 1, sample_device 0x1800 0x1000 2, sample_device 0x4000 0x2000 3] [] [] in
   map fails fs = [False, True, False] \<and>
   device_read ranges 1 0x4010 no_statistics () =
     Some (0x4013, no_statistics\<lparr>st_device_read_calls := 1\<rparr>, ())"
proof -
  let ?reqs = "[sample_device 0x1000 0x1000 1, sample_device 0x1800 0x1000 2, sample_device 0x4000 0x2000 3]"
  obtain fs ranges x where run: "register_devices toy_devices_of ?reqs [] [] = (fs, ranges, x)"
    by (metis prod_cases3)
  then have fs: "map fails fs = [False, True, False] \<and> length fs = 3"
    by (auto simp: register_device_def toy_devices_of_def sample_device_def)
  then obtain f g h where "fs = [f, g, h]" "\<not> fails f" "fails g" "\<not> fails h"
    by (auto simp: numeral_3_eq_3 length_Suc_conv)
  then have accepted: "[sample_device 0x1000 0x1000 1, sample_device 0x4000 0x2000 3] =
      map fst (filter (\<lambda>(req, f). \<not> fails f) (zip ?reqs fs))" by simp
  from device_registrations [OF run accepted, where i = 1 and self = 1 and a = "0x4010"
      and st = no_statistics and w = "()", THEN conjunct2, THEN conjunct1]
  have "device_read ranges 1 0x4010 no_statistics () = (let r = (0x4013, ()) in
      Some (fst r, no_statistics\<lparr>st_device_read_calls := st_device_read_calls no_statistics + 1\<rparr>, snd r))"
    by (simp add: sample_device_def)
  then have "device_read ranges 1 0x4010 no_statistics () =
      Some (0x4013, no_statistics\<lparr>st_device_read_calls := 1\<rparr>, ())" by (simp add: no_statistics_def)
  with fs show ?thesis unfolding run by simp
qed

end
