(* ===== verification/Guest_Memory.thy ===== *)
theory Guest_Memory imports Ordered_Map Xenia_Memory Runtime_Failure begin

text \<open>
  Guest memory the embedder owns, and title memory it may touch: \<open>GuestMemory\<close> of
  \<open>src/guest_memory.cpp\<close>. The tracked accesses stay inside one live allocation, found through
  \<open>upper_bound\<close> in the ordered map of allocations; the mapped ones inside one accessible range of
  one heap. Both are instances of \<open>guest_accessor\<close>.

  Xenia's heap serves others too, so the step relation \<open>memory_step\<close> lets them allocate, and free
  what the tracked allocations do not own, between any two operations. The invariant \<open>owned\<close> is
  kept by every step.
\<close>

section \<open>State and operations\<close>

record guest_memory_allocation =
  gma_address :: guest_address
  gma_size :: u32

definition no_allocation :: guest_memory_allocation where
  "no_allocation = \<lparr>gma_address = 0, gma_size = 0\<rparr>"

definition is_allocation :: "guest_memory_allocation \<Rightarrow> bool" where
  "is_allocation a \<longleftrightarrow> gma_address a \<noteq> 0 \<and> gma_size a \<noteq> 0"

record guest_memory_allocation_result =
  gmr_allocation :: guest_memory_allocation
  gmr_failure :: runtime_failure

definition allocation_succeeds :: "guest_memory_allocation_result \<Rightarrow> bool" where
  "allocation_succeeds r \<longleftrightarrow> is_allocation (gmr_allocation r) \<and> \<not> fails (gmr_failure r)"

text \<open>\<open>gm_memory\<close> is whether \<open>memory_\<close> is set.\<close>

record guest_memory =
  gm_memory :: bool
  gm_allocations :: "u32 ordered_map"

definition new_guest_memory :: guest_memory where
  "new_guest_memory = \<lparr>gm_memory = False, gm_allocations = []\<rparr>"

definition gm_reset :: "'x xenia_memory \<Rightarrow> guest_memory \<Rightarrow> 'x \<Rightarrow> guest_memory \<times> 'x" where
  "gm_reset xm gm x =
     (\<lparr>gm_memory = False, gm_allocations = []\<rparr>,
      if gm_memory gm then fold (\<lambda>(address, _). xm_system_free xm address) (gm_allocations gm) x
      else x)"

definition gm_initialize :: "guest_memory \<Rightarrow> guest_memory" where
  "gm_initialize gm = gm\<lparr>gm_memory := True\<rparr>"

definition gm_allocate ::
  "'x xenia_memory \<Rightarrow> u32 \<Rightarrow> guest_memory \<Rightarrow> 'x \<Rightarrow>
   guest_memory_allocation_result \<times> guest_memory \<times> 'x" where
  "gm_allocate xm n gm x =
     (if \<not> gm_memory gm \<or> n = 0
      then (\<lparr>gmr_allocation = no_allocation, gmr_failure = failure GuestMemoryAllocationFailed
        ''guest memory allocation requires an initialized runtime and nonzero size''\<rparr>, gm, x)
      else (case xm_system_alloc xm n x of (address, x) \<Rightarrow>
        if address = 0 \<or> map_of (gm_allocations gm) address \<noteq> None
        then (\<lparr>gmr_allocation = no_allocation, gmr_failure = failure GuestMemoryAllocationFailed
          ''Xenia could not allocate a tracked guest-memory range''\<rparr>, gm, x)
        else (\<lparr>gmr_allocation = \<lparr>gma_address = address, gma_size = n\<rparr>, gmr_failure = no_failure\<rparr>,
          gm\<lparr>gm_allocations := map_emplace address n (gm_allocations gm)\<rparr>, x)))"

definition gm_contains :: "guest_memory \<Rightarrow> guest_address \<Rightarrow> nat \<Rightarrow> bool" where
  "gm_contains gm address n =
     (if n = 0 \<or> n > 0xFFFFFFFF then False
      else (case map_preceding address (gm_allocations gm) of
        None \<Rightarrow> False
      | Some (base, extent) \<Rightarrow>
          (let first = unat base; past = first + unat extent
           in unat address \<ge> first \<and> unat address + n \<le> past)))"

definition gm_read ::
  "'x xenia_memory \<Rightarrow> guest_memory \<Rightarrow> guest_address \<Rightarrow> bytes \<Rightarrow> 'x \<Rightarrow> runtime_failure \<times> bytes" where
  "gm_read xm gm address dst x =
     (if \<not> gm_memory gm \<or> dst = [] \<or> \<not> gm_contains gm address (length dst)
      then (failure GuestMemoryRangeInvalid
        ''guest-memory read must stay inside one live allocation'', dst)
      else (no_failure, xm_load xm address (length dst) x))"

definition gm_write ::
  "'x xenia_memory \<Rightarrow> guest_memory \<Rightarrow> guest_address \<Rightarrow> bytes \<Rightarrow> 'x \<Rightarrow> runtime_failure \<times> 'x" where
  "gm_write xm gm address bs x =
     (if \<not> gm_memory gm \<or> bs = [] \<or> \<not> gm_contains gm address (length bs)
      then (failure GuestMemoryRangeInvalid
        ''guest-memory write must stay inside one live allocation'', x)
      else (no_failure, xm_store xm address bs x))"

definition gm_can_access ::
  "'x xenia_memory \<Rightarrow> guest_memory \<Rightarrow> guest_address \<Rightarrow> nat \<Rightarrow> bool \<Rightarrow> 'x \<Rightarrow> bool" where
  "gm_can_access xm gm address n writing x =
     (if \<not> gm_memory gm \<or> n = 0 \<or> n > 0xFFFFFFFF then False
      else if unat address + n - 1 > 0xFFFFFFFF then False
      else (let final = word_of_nat (unat address + n - 1) in
        case (xm_lookup_heap xm address, xm_lookup_heap xm final) of
          (Some first_heap, Some last_heap) \<Rightarrow>
            if first_heap \<noteq> last_heap then False
            else (let access_bits = xm_range_access xm first_heap address final x;
                      required = (if writing then 0x2 else 0x1) in
              if access_bits AND required \<noteq> required then False
              else \<not> xm_device_overlap xm address final x)
        | _ \<Rightarrow> False))"

definition gm_read_mapped ::
  "'x xenia_memory \<Rightarrow> guest_memory \<Rightarrow> guest_address \<Rightarrow> bytes \<Rightarrow> 'x \<Rightarrow> runtime_failure \<times> bytes" where
  "gm_read_mapped xm gm address dst x =
     (if \<not> gm_can_access xm gm address (length dst) False x
      then (failure GuestMemoryRangeInvalid
        ''mapped guest-memory read must stay inside one readable guest range'', dst)
      else (no_failure, xm_load xm address (length dst) x))"

definition gm_write_mapped ::
  "'x xenia_memory \<Rightarrow> guest_memory \<Rightarrow> guest_address \<Rightarrow> bytes \<Rightarrow> 'x \<Rightarrow> runtime_failure \<times> 'x" where
  "gm_write_mapped xm gm address bs x =
     (if \<not> gm_can_access xm gm address (length bs) True x
      then (failure GuestMemoryRangeInvalid
        ''mapped guest-memory write must stay inside one writable guest range'', x)
      else (no_failure, xm_store xm address bs x))"

definition gm_release ::
  "'x xenia_memory \<Rightarrow> guest_memory_allocation \<Rightarrow> guest_memory \<Rightarrow> 'x \<Rightarrow>
   runtime_failure \<times> guest_memory \<times> 'x" where
  "gm_release xm a gm x =
     (if \<not> gm_memory gm \<or> gma_address a = 0 \<or> gma_size a = 0
      then (failure GuestMemoryRangeInvalid ''guest-memory release requires a live allocation'', gm, x)
      else (case map_of (gm_allocations gm) (gma_address a) of
        Some held \<Rightarrow>
          if held \<noteq> gma_size a
          then (failure GuestMemoryRangeInvalid
            ''guest-memory release must match the complete allocation'', gm, x)
          else (no_failure, gm\<lparr>gm_allocations := map_erase (gma_address a) (gm_allocations gm)\<rparr>,
            xm_system_free xm (gma_address a) x)
      | None \<Rightarrow> (failure GuestMemoryRangeInvalid
          ''guest-memory release must match the complete allocation'', gm, x)))"

section \<open>The accessors\<close>

definition tracked_access :: "guest_memory \<Rightarrow> guest_address \<Rightarrow> nat \<Rightarrow> bool" where
  "tracked_access gm a n \<longleftrightarrow> gm_memory gm \<and> gm_contains gm a n"

lemma gm_contains_positive: "gm_contains gm a n \<Longrightarrow> 0 < n"
  by (simp add: gm_contains_def split: if_splits)

interpretation tracked: guest_accessor xm "\<lambda>_ a n _. tracked_access gm a n"
    "gm_read xm gm" "gm_write xm gm" "\<lambda>f. \<not> fails f" for xm gm
  by unfold_locales
    (auto simp: tracked_access_def gm_read_def gm_write_def dest: gm_contains_positive)

lemma gm_can_access_positive: "gm_can_access xm gm a n w x \<Longrightarrow> 0 < n"
  by (simp add: gm_can_access_def split: if_splits)

interpretation mapped: guest_accessor xm "\<lambda>w a n x. gm_can_access xm gm a n w x"
    "gm_read_mapped xm gm" "gm_write_mapped xm gm" "\<lambda>f. \<not> fails f" for xm gm
  by unfold_locales
    (auto simp: gm_read_mapped_def gm_write_mapped_def dest: gm_can_access_positive)

section \<open>The invariant\<close>

definition live_disjoint :: "live_blocks \<Rightarrow> bool" where
  "live_disjoint live \<longleftrightarrow> (\<forall>a n. live a = Some n \<longrightarrow> fits a (unat n)) \<and>
     (\<forall>a n b m. live a = Some n \<and> live b = Some m \<and> a \<noteq> b \<longrightarrow> apart a n b m)"

definition owned :: "('x \<Rightarrow> live_blocks) \<Rightarrow> guest_memory \<Rightarrow> 'x \<Rightarrow> bool" where
  "owned live gm x \<longleftrightarrow> map_ordered (gm_allocations gm) \<and> live_disjoint (live x) \<and>
     (\<forall>(a, n)\<in>set (gm_allocations gm). a \<noteq> 0 \<and> n \<noteq> 0 \<and> live x a = Some n)"

lemma ownedD:
  assumes "owned live gm x"
  shows "map_ordered (gm_allocations gm)" "live_disjoint (live x)"
    and "(a, n) \<in> set (gm_allocations gm) \<Longrightarrow> a \<noteq> 0 \<and> n \<noteq> 0 \<and> live x a = Some n \<and> fits a (unat n)"
    and "(a, n) \<in> set (gm_allocations gm) \<Longrightarrow> (b, m) \<in> set (gm_allocations gm) \<Longrightarrow> a \<noteq> b \<Longrightarrow> apart a n b m"
  using assms by (fastforce simp: owned_def live_disjoint_def)+

text \<open>
  Looking at the entry before \<open>upper_bound\<close> only is enough: the ranges are disjoint, so no other
  allocation can hold the range.
\<close>

lemma gm_contains_iff:
  assumes "owned live gm x"
  shows "gm_contains gm a n \<longleftrightarrow> 0 < n \<and> n \<le> 0xFFFFFFFF \<and>
    (\<exists>(b, m)\<in>set (gm_allocations gm). span_of a n \<subseteq> span_of b (unat m))"
proof (cases "0 < n \<and> n \<le> 0xFFFFFFFF")
  case n: True
  have inside: "span_of a n \<subseteq> span_of b (unat m) \<longleftrightarrow> unat b \<le> unat a \<and> unat a + n \<le> unat b + unat m"
    for b and m :: u32 using n by (auto simp: span_of_def)
  show ?thesis
  proof (cases "map_preceding a (gm_allocations gm)")
    case None
    then have "\<forall>e\<in>set (gm_allocations gm). a < fst e"
      using ownedD(1) [OF assms] by (simp add: map_preceding_None)
    then have "\<not> (\<exists>(b, m)\<in>set (gm_allocations gm). unat b \<le> unat a)"
      by (force simp: word_less_nat_alt)
    with None n show ?thesis unfolding inside by (auto simp: gm_contains_def)
  next
    case (Some e)
    obtain b m where e: "e = (b, m)" by (cases e)
    from Some e have b: "(b, m) \<in> set (gm_allocations gm)" "b \<le> a"
        "\<forall>f\<in>set (gm_allocations gm). fst f \<le> a \<longrightarrow> fst f \<le> b"
      using map_preceding_SomeD [OF ownedD(1) [OF assms]] by fastforce+
    have other: "unat c + unat k \<le> unat a"
      if "(c, k) \<in> set (gm_allocations gm)" "c \<noteq> b" "unat c \<le> unat a" for c k
    proof -
      from that b(3) have "unat c \<le> unat b" by (force simp: word_le_nat_alt)
      moreover have "unat m \<noteq> 0" using ownedD(3) [OF assms b(1)] by (simp add: unat_eq_zero)
      ultimately show ?thesis
        using ownedD(4) [OF assms that(1) b(1) that(2)] b(2) by (auto simp: apart_def word_le_nat_alt)
    qed
    have same: "m = k" if "(b, k) \<in> set (gm_allocations gm)" for k
      using that b(1) ownedD(1) [OF assms] by (metis map_of_ordered option.inject)
    have "gm_contains gm a n \<longleftrightarrow> unat b \<le> unat a \<and> unat a + n \<le> unat b + unat m"
      using n Some e by (simp add: gm_contains_def Let_def)
    also have "\<dots> \<longleftrightarrow>
      (\<exists>(c, k)\<in>set (gm_allocations gm). unat c \<le> unat a \<and> unat a + n \<le> unat c + unat k)"
      (is "?holds b m \<longleftrightarrow> (\<exists>(c, k)\<in>_. ?holds c k)")
    proof
      assume "\<exists>(c, k)\<in>set (gm_allocations gm). ?holds c k"
      then obtain c k where c: "(c, k) \<in> set (gm_allocations gm)" "?holds c k" by blast
      have "c = b" using other [OF c(1)] c(2) n by (cases "c = b") auto
      with same c show "?holds b m" by blast
    qed (use b(1) in blast)
    finally show ?thesis using n unfolding inside by simp
  qed
qed (auto simp: gm_contains_def)

lemma gm_contains_fits:
  assumes "owned live gm x" "gm_contains gm a n"
  shows "fits a n"
proof -
  from assms gm_contains_iff [OF assms(1)] obtain b m where b: "(b, m) \<in> set (gm_allocations gm)"
    "span_of a n \<subseteq> span_of b (unat m)" "0 < n" by blast
  with ownedD(3) [OF assms(1) b(1)] show ?thesis
    by (auto simp: span_of_def fits_def dest: subsetD [where c = "unat a + n - 1"])
qed

section \<open>Reachable states\<close>

inductive memory_step ::
  "'x xenia_memory \<Rightarrow> guest_memory \<times> 'x \<Rightarrow> guest_memory \<times> 'x \<Rightarrow> bool" for xm where
  Initialize: "memory_step xm (gm, x) (gm_initialize gm, x)"
| Allocate: "gm_allocate xm n gm x = (r, gm', x') \<Longrightarrow> memory_step xm (gm, x) (gm', x')"
| Write: "memory_step xm (gm, x) (gm, snd (gm_write xm gm a bs x))"
| Write_Mapped: "memory_step xm (gm, x) (gm, snd (gm_write_mapped xm gm a bs x))"
| Release: "gm_release xm r gm x = (f, gm', x') \<Longrightarrow> memory_step xm (gm, x) (gm', x')"
| Reset: "gm_reset xm gm x = (gm', x') \<Longrightarrow> memory_step xm (gm, x) (gm', x')"
| Other_Allocate: "n \<noteq> 0 \<Longrightarrow> xm_system_alloc xm n x = (a, x') \<Longrightarrow> memory_step xm (gm, x) (gm, x')"
| Other_Free: "map_of (gm_allocations gm) a = None \<Longrightarrow>
    memory_step xm (gm, x) (gm, xm_system_free xm a x)"

inductive memory_reachable :: "'x xenia_memory \<Rightarrow> 'x \<Rightarrow> guest_memory \<times> 'x \<Rightarrow> bool" for xm x\<^sub>0 where
  Start: "memory_reachable xm x\<^sub>0 (new_guest_memory, x\<^sub>0)"
| Step: "memory_reachable xm x\<^sub>0 s \<Longrightarrow> memory_step xm s s' \<Longrightarrow> memory_reachable xm x\<^sub>0 s'"

lemma system_heapD:
  assumes "system_heap xm live"
  shows "live (xm_system_free xm a x) = (live x)(a := None)"
    and "live (xm_store xm a bs x) = live x"
    and "n \<noteq> 0 \<Longrightarrow> xm_system_alloc xm n x = (a, x') \<Longrightarrow> a = 0 \<Longrightarrow> live x' = live x"
    and "n \<noteq> 0 \<Longrightarrow> xm_system_alloc xm n x = (a, x') \<Longrightarrow> a \<noteq> 0 \<Longrightarrow>
      live x' = (live x)(a \<mapsto> n) \<and> fits a (unat n) \<and> (\<forall>b m. live x b = Some m \<longrightarrow> apart a n b m)"
  using assms unfolding system_heap_def by metis+

lemma live_disjoint_free: "live_disjoint live \<Longrightarrow> live_disjoint (live(a := None))"
  by (auto simp: live_disjoint_def)

lemma apart_commute: "apart a n b m = apart b m a n"
  by (auto simp: apart_def)

lemma live_disjoint_add:
  "live_disjoint live \<Longrightarrow> fits a (unat n) \<Longrightarrow> \<forall>b m. live b = Some m \<longrightarrow> apart a n b m \<Longrightarrow>
   live_disjoint (live(a \<mapsto> n))"
  unfolding live_disjoint_def by (metis apart_commute fun_upd_apply option.inject)

lemma live_disjoint_alloc:
  assumes "system_heap xm live" "n \<noteq> 0" "xm_system_alloc xm n x = (a, x')" "live_disjoint (live x)"
  shows "live_disjoint (live x')"
proof (cases "a = 0")
  case False
  with system_heapD(4) [OF assms(1-3)] assms(4) show ?thesis by (metis live_disjoint_add)
qed (use assms(4) system_heapD(3) [OF assms(1-3)] in simp)

text \<open>Allocating keeps every other block: the new one starts where no live block does.\<close>

lemma live_alloc_keeps:
  assumes "system_heap xm live" "n \<noteq> 0" "xm_system_alloc xm n x = (a, x')" "live x b = Some m"
    and "m \<noteq> 0"
  shows "live x' b = Some m"
proof (cases "a = 0")
  case False
  with system_heapD(4) [OF assms(1-3)] assms(4)
  have "live x' = (live x)(a \<mapsto> n)" and "apart a n b m" by auto
  moreover from this(2) assms(2,5) have "b \<noteq> a" by (auto simp: apart_def unat_eq_zero)
  ultimately show ?thesis using assms(4) by simp
qed (use assms system_heapD(3) in metis)

lemma fold_free_live:
  assumes "system_heap xm live"
  shows "live (fold (\<lambda>(a, _). xm_system_free xm a) es x) =
    (\<lambda>b. if b \<in> fst ` set es then None else live x b)"
  by (induction es arbitrary: x) (auto simp: fun_eq_iff system_heapD [OF assms])

lemma live_disjoint_subset:
  "live_disjoint live \<Longrightarrow> (\<And>a n. live' a = Some n \<Longrightarrow> live a = Some n) \<Longrightarrow> live_disjoint live'"
  unfolding live_disjoint_def by metis

lemma owned_other_alloc:
  assumes "system_heap xm live" "owned live gm x" "n \<noteq> 0" "xm_system_alloc xm n x = (a, x')"
  shows "owned live gm x'"
proof -
  have "live x' b = Some m" if "(b, m) \<in> set (gm_allocations gm)" for b m
    using live_alloc_keeps [OF assms(1,3,4)] ownedD(3) [OF assms(2) that] by blast
  with assms show ?thesis by (fastforce simp: owned_def intro: live_disjoint_alloc)
qed

lemma owned_allocate:
  assumes "system_heap xm live" "owned live gm x" "gm_allocate xm n gm x = (r, gm', x')"
  shows "owned live gm' x'"
proof (cases "gm_memory gm \<and> n \<noteq> 0")
  case True
  obtain a x'' where alloc: "xm_system_alloc xm n x = (a, x'')" by (cases "xm_system_alloc xm n x")
  have kept: "owned live gm x''" using owned_other_alloc [OF assms(1,2) _ alloc] True by blast
  show ?thesis
  proof (cases "a = 0 \<or> map_of (gm_allocations gm) a \<noteq> None")
    case fresh: False
    with True alloc assms(3) have gm': "gm' = gm\<lparr>gm_allocations := map_emplace a n (gm_allocations gm)\<rparr>"
      and x': "x' = x''" by (auto simp: gm_allocate_def split: if_splits)
    moreover have "live x'' a = Some n" using system_heapD(4) [OF assms(1) _ alloc] True fresh by simp
    ultimately show ?thesis using kept fresh True
      by (auto simp: owned_def map_emplace_set)
  qed (use True alloc assms(3) kept in \<open>auto simp: gm_allocate_def split: if_splits\<close>)
qed (use assms in \<open>auto simp: gm_allocate_def split: if_splits\<close>)

lemma owned_release:
  assumes "system_heap xm live" "owned live gm x" "gm_release xm r gm x = (f, gm', x')"
  shows "owned live gm' x'"
proof -
  have "owned live (gm\<lparr>gm_allocations := map_erase a (gm_allocations gm)\<rparr>) (xm_system_free xm a x)" for a
    using assms(2) live_disjoint_free [of "live x" a]
    by (auto simp: owned_def map_erase_set system_heapD(1) [OF assms(1)])
  with assms(2,3) show ?thesis by (auto simp: gm_release_def split: if_splits option.splits)
qed

lemma owned_other_free:
  assumes "system_heap xm live" "owned live gm x" "map_of (gm_allocations gm) a = None"
  shows "owned live gm (xm_system_free xm a x)"
proof -
  have "b \<noteq> a" if "(b, m) \<in> set (gm_allocations gm)" for b m
    using that assms(3) by (force simp: map_of_eq_None_iff)
  with assms(2) live_disjoint_free [of "live x" a] show ?thesis
    by (fastforce simp: owned_def system_heapD(1) [OF assms(1)])
qed

lemma owned_reset:
  assumes "system_heap xm live" "owned live gm x" "gm_reset xm gm x = (gm', x')"
  shows "owned live gm' x'"
proof -
  have "live_disjoint (live x')"
    using assms(2,3) by (auto simp: gm_reset_def owned_def fold_free_live [OF assms(1)] split: if_splits
        elim!: live_disjoint_subset)
  with assms(3) show ?thesis by (auto simp: gm_reset_def owned_def)
qed

lemma owned_write: "system_heap xm live \<Longrightarrow> owned live gm x \<Longrightarrow> owned live gm (xm_store xm a bs x)"
  by (simp add: owned_def system_heapD(2) [of xm live])

lemma owned_step:
  assumes "system_heap xm live" "memory_step xm (gm, x) (gm', x')" "owned live gm x"
  shows "owned live gm' x'"
  using assms(2)
proof cases
  case Initialize
  with assms(3) show ?thesis by (simp add: owned_def gm_initialize_def)
next
  case (Write a bs)
  with owned_write [OF assms(1,3)] assms(3) show ?thesis by (simp add: gm_write_def)
next
  case (Write_Mapped a bs)
  with owned_write [OF assms(1,3)] assms(3) show ?thesis by (simp add: gm_write_mapped_def)
next
  case (Allocate n r)
  with assms(1,3) show ?thesis by (rule owned_allocate)
next
  case (Release r f)
  with assms(1,3) show ?thesis by (rule owned_release)
next
  case Reset
  with assms(1,3) show ?thesis by (rule owned_reset)
next
  case (Other_Allocate n a)
  then show ?thesis using owned_other_alloc [OF assms(1,3)] by metis
next
  case (Other_Free a)
  then show ?thesis using owned_other_free [OF assms(1,3)] by metis
qed

lemma owned_reachable:
  assumes "system_heap xm live" "live_disjoint (live x\<^sub>0)" "memory_reachable xm x\<^sub>0 s"
  shows "owned live (fst s) (snd s)"
  using assms(3)
proof (induction rule: memory_reachable.induct)
  case Start
  then show ?case using assms(2) by (simp add: owned_def new_guest_memory_def)
next
  case (Step s s')
  then show ?case using owned_step [OF assms(1)] by (cases s; cases s') simp
qed

lemma tracked_access_iff:
  assumes "owned live gm x"
  shows "tracked_access gm a n \<longleftrightarrow> gm_memory gm \<and> 0 < n \<and> n \<le> 0xFFFFFFFF \<and>
    (\<exists>(b, m)\<in>set (gm_allocations gm). span_of a n \<subseteq> span_of b (unat m))"
  by (simp add: tracked_access_def gm_contains_iff [OF assms])

text \<open>A successful release drops exactly the block it names.\<close>

lemma release_drops:
  assumes "gm_release xm r gm x = (f, gm', x')" "\<not> fails f"
  shows "gm' = gm\<lparr>gm_allocations := map_erase (gma_address r) (gm_allocations gm)\<rparr>"
    and "x' = xm_system_free xm (gma_address r) x"
    and "map_of (gm_allocations gm) (gma_address r) = Some (gma_size r)"
  using assms by (auto simp: gm_release_def split: if_splits option.splits)

lemma reset_frees_tracked:
  assumes "system_heap xm live" "gm_memory gm"
  shows "live (snd (gm_reset xm gm x)) =
    (\<lambda>b. if b \<in> fst ` set (gm_allocations gm) then None else live x b)"
  using assms by (simp add: gm_reset_def fold_free_live)

section \<open>A sample history\<close>

definition sample_memory :: "guest_memory \<times> toy_state" where
  "sample_memory =
     (\<lparr>gm_memory = True, gm_allocations = [(0x1000, 0x20), (0x1020, 0x40)]\<rparr>,
      toy_start\<lparr>toy_blocks := [(0x1020, 0x40), (0x1000, 0x20)]\<rparr>)"

lemma sample_memory_reachable: "memory_reachable toy_memory toy_start sample_memory"
proof -
  let ?one = "(\<lparr>gm_memory = True, gm_allocations = [(0x1000, 0x20)]\<rparr>,
    toy_start\<lparr>toy_blocks := [(0x1000, 0x20)]\<rparr>)"
  have "memory_reachable toy_memory toy_start (gm_initialize new_guest_memory, toy_start)"
    by (rule Step [OF Start Initialize])
  moreover have "memory_step toy_memory (gm_initialize new_guest_memory, toy_start) ?one"
    by (rule Allocate [where n = "0x20"])
      (simp add: gm_allocate_def toy_memory_def toy_candidate_def toy_start_def
        gm_initialize_def new_guest_memory_def)
  moreover have "memory_step toy_memory ?one sample_memory" unfolding sample_memory_def
    by (rule Allocate [where n = "0x40"])
      (simp add: gm_allocate_def toy_memory_def toy_candidate_def toy_start_def apart_def)
  ultimately show ?thesis by (blast intro: Step)
qed

lemma toy_start_disjoint: "live_disjoint (toy_live toy_start)"
  by (simp add: live_disjoint_def toy_live_def toy_start_def)

lemmas sample_simps = sample_memory_def toy_memory_def toy_start_def toy_live_def

section \<open>Properties\<close>

text \<open>C14: in every state the embedder can reach, whatever else uses Xenia's heap in between, the
  tracked allocations are live, nonempty and pairwise disjoint, and the bounds test, which looks at
  one map entry only, accepts exactly the ranges that lie inside one of them.\<close>

theorem tracked_ranges:
  assumes "system_heap xm live" "live_disjoint (live x\<^sub>0)" "memory_reachable xm x\<^sub>0 (gm, x)"
  shows "(\<forall>(a, n)\<in>set (gm_allocations gm). n \<noteq> 0 \<and> live x a = Some n) \<and>
    (\<forall>(a, n)\<in>set (gm_allocations gm). \<forall>(b, m)\<in>set (gm_allocations gm). a \<noteq> b \<longrightarrow>
      span_of a (unat n) \<inter> span_of b (unat m) = {}) \<and>
    (\<forall>a n. gm_contains gm a n \<longleftrightarrow> 0 < n \<and> n \<le> 0xFFFFFFFF \<and>
      (\<exists>(b, m)\<in>set (gm_allocations gm). span_of a n \<subseteq> span_of b (unat m)))"
proof -
  have "owned live gm x" using owned_reachable [OF assms] by simp
  note o = ownedD(3) [OF this] ownedD(4) [OF this] gm_contains_iff [OF this]
  from o(2) have "span_of a (unat n) \<inter> span_of b (unat m) = {}"
    if "(a, n) \<in> set (gm_allocations gm)" "(b, m) \<in> set (gm_allocations gm)" "a \<noteq> b" for a n b m
    using that by (intro apart_disjoint)
  with o(1,3) show ?thesis by (intro conjI) fastforce+
qed

theorem tracked_ranges_witness:
  "gm_contains (fst sample_memory) 0x1018 8 \<and> \<not> gm_contains (fst sample_memory) 0x1018 9"
proof -
  have "memory_reachable toy_memory toy_start (fst sample_memory, snd sample_memory)"
    using sample_memory_reachable by simp
  from tracked_ranges [OF toy_system_heap toy_start_disjoint this] show ?thesis
    by (simp add: sample_simps span_of_def)
qed

text \<open>After an accepted write, an accepted read returns the written bytes where the two ranges
  overlap and the bytes that were there before everywhere else.\<close>

lemma tracked_write_then_read:
  assumes "system_heap xm live" "heap_bytes xm" "live_disjoint (live x\<^sub>0)"
    and "memory_reachable xm x\<^sub>0 (gm, x)" "\<forall>a n. gm_contains gm a n \<longrightarrow> xm_lookup_heap xm a = Some h"
    and "\<not> fails (fst (gm_write xm gm a bs x))"
    and "\<not> fails (fst (gm_read xm gm b dst (snd (gm_write xm gm a bs x))))" "i < length dst"
  shows "snd (gm_read xm gm b dst (snd (gm_write xm gm a bs x))) ! i =
    (if unat b + i \<in> span_of a (length bs) then bs ! (unat b + i - unat a)
     else snd (gm_read xm gm b dst x) ! i)"
proof -
  have o: "owned live gm x" using owned_reachable [OF assms(1,3,4)] by simp
  from assms(6,7) have c: "tracked_access gm a (length bs)" "tracked_access gm b (length dst)"
    by (simp_all add: tracked.accepted_write tracked.accepted_read)
  then have "fits a (length bs)" "fits b (length dst)" "xm_lookup_heap xm a = Some h"
      "xm_lookup_heap xm b = Some h"
    using gm_contains_fits [OF o] assms(5) by (auto simp: tracked_access_def)
  with tracked.read_after_write [OF assms(2,6,7) _ _ assms(8)] c(2) assms(8) show ?thesis
    by (cases dst) (simp_all add: tracked.read_bytes)
qed

theorem tracked_write_then_read_witness:
  "let gm = fst sample_memory; x = snd sample_memory;
       x' = snd (gm_write toy_memory gm 0x1004 [1, 2] x) in
   snd (gm_read toy_memory gm 0x1005 [0, 0] x') ! 0 = 2 \<and>
   snd (gm_read toy_memory gm 0x1005 [0, 0] x') ! 1 = 0"
proof -
  let ?gm = "fst sample_memory" and ?x = "snd sample_memory"
  let ?x' = "snd (gm_write toy_memory ?gm 0x1004 [1, 2] ?x)"
  have r: "memory_reachable toy_memory toy_start (?gm, ?x)" using sample_memory_reachable by simp
  have heap: "\<forall>a n. gm_contains ?gm a n \<longrightarrow> xm_lookup_heap toy_memory a = Some 0"
  proof (intro allI impI)
    fix a n
    assume "gm_contains ?gm a n"
    then obtain b m where "(b, m) \<in> set (gm_allocations ?gm)" "span_of a n \<subseteq> span_of b (unat m)" "0 < n"
      using gm_contains_iff [OF owned_reachable [OF toy_system_heap toy_start_disjoint r]] by auto
    then have "unat a < 0x2000"
      by (auto simp: sample_memory_def span_of_def dest: subsetD [where c = "unat a"])
    then show "xm_lookup_heap toy_memory a = Some 0" by (simp add: toy_memory_def word_less_nat_alt)
  qed
  have w: "\<not> fails (fst (gm_write toy_memory ?gm 0x1004 [1, 2] ?x))"
    and rd: "\<not> fails (fst (gm_read toy_memory ?gm 0x1005 [0, 0] ?x'))"
    by (simp_all add: sample_simps gm_write_def gm_read_def gm_contains_def)
  have old: "snd (gm_read toy_memory ?gm 0x1005 [0, 0] ?x) ! 1 = 0"
    by (simp add: sample_simps gm_read_def gm_contains_def)
  note law = tracked_write_then_read [OF toy_system_heap toy_heap_bytes toy_start_disjoint r heap w rd]
  show ?thesis using law [of 0] law [of 1] old by (simp add: span_of_def Let_def)
qed

text \<open>C15: a release that succeeds names a tracked block completely; afterwards releasing it again is
  refused, no access that touches it is accepted, and every access that does not is as before.\<close>

theorem release_ends_access:
  assumes "system_heap xm live" "live_disjoint (live x\<^sub>0)" "memory_reachable xm x\<^sub>0 (gm, x)"
    and "gm_release xm r gm x = (f, gm', x')" "\<not> fails f"
  shows "live x (gma_address r) = Some (gma_size r) \<and> live x' (gma_address r) = None \<and>
    fails (fst (gm_release xm r gm' x')) \<and>
    tracked_access gm' a n = (tracked_access gm a n \<and>
      span_of a n \<inter> span_of (gma_address r) (unat (gma_size r)) = {})"
proof -
  let ?r = "gma_address r" and ?k = "gma_size r"
  have o: "owned live gm x" using owned_reachable [OF assms(1-3)] by simp
  note o' = owned_release [OF assms(1) o assms(4)]
  note dropped = release_drops [OF assms(4,5)]
  have rk: "(?r, ?k) \<in> set (gm_allocations gm)" using dropped(3) by (rule map_of_SomeD)
  have allocs: "set (gm_allocations gm') = {e \<in> set (gm_allocations gm). fst e \<noteq> ?r}"
    and memory: "gm_memory gm' = gm_memory gm" by (simp_all add: dropped(1) map_erase_set)
  have other: "span_of b (unat m) \<inter> span_of ?r (unat ?k) = {}"
    if "(b, m) \<in> set (gm_allocations gm)" "b \<noteq> ?r" for b m
    using ownedD(4) [OF o that(1) rk that(2)] by (rule apart_disjoint)
  have same: "m = ?k" if "(?r, m) \<in> set (gm_allocations gm)" for m
    using that rk ownedD(1) [OF o] by (metis map_of_ordered option.inject)
  have "tracked_access gm' a n = (tracked_access gm a n \<and> span_of a n \<inter> span_of ?r (unat ?k) = {})"
    (is "?left = ?right")
  proof
    assume ?left
    then show ?right using other by (fastforce simp: tracked_access_iff [OF o] tracked_access_iff [OF o']
        allocs memory)
  next
    assume ?right
    then obtain b m where b: "(b, m) \<in> set (gm_allocations gm)" "span_of a n \<subseteq> span_of b (unat m)"
        "0 < n" "gm_memory gm" "n \<le> 0xFFFFFFFF" "span_of a n \<inter> span_of ?r (unat ?k) = {}"
      by (auto simp: tracked_access_iff [OF o])
    then have "unat a \<in> span_of a n" by (simp add: span_of_def)
    then have "b \<noteq> ?r" using b same by blast
    with b show ?left by (auto simp: tracked_access_iff [OF o'] allocs memory)
  qed
  moreover have "fails (fst (gm_release xm r gm' x'))"
    by (simp add: gm_release_def dropped(1) map_of_erase)
  ultimately show ?thesis using ownedD(3) [OF o rk] dropped(2) system_heapD(1) [OF assms(1)] by simp
qed

theorem release_ends_access_witness:
  "let r = \<lparr>gma_address = 0x1000, gma_size = 0x20\<rparr>;
       gm' = fst (snd (gm_release toy_memory r (fst sample_memory) (snd sample_memory))) in
   \<not> tracked_access gm' 0x101F 1 \<and> tracked_access gm' 0x1020 0x40"
proof -
  let ?r = "\<lparr>gma_address = 0x1000, gma_size = 0x20\<rparr> :: guest_memory_allocation"
  have reach: "memory_reachable toy_memory toy_start (fst sample_memory, snd sample_memory)"
    using sample_memory_reachable by simp
  obtain f gm' x' where g: "gm_release toy_memory ?r (fst sample_memory) (snd sample_memory) = (f, gm', x')"
    by (metis prod_cases3)
  then have "\<not> fails f" by (auto simp: sample_simps gm_release_def)
  note law = release_ends_access [OF toy_system_heap toy_start_disjoint reach g this]
  have "tracked_access (fst sample_memory) 0x1020 0x40"
    by (simp add: tracked_access_def sample_simps gm_contains_def)
  with law [of "0x101F" 1] law [of "0x1020" "0x40"] show ?thesis by (simp add: g span_of_def Let_def)
qed

end
