(* ===== verification/Guest_Thread.thy ===== *)
theory Guest_Thread imports Guest_Memory begin

text \<open>
  The guest thread the runtime executes on: \<open>GuestThreadContext\<close> of \<open>src/guest_thread_context.cpp\<close>,
  which owns the call stack and the processor control region as blocks of Xenia's system heap, and
  the \<open>ThreadState\<close> made of them (its stack top and its control region here).
\<close>

definition k_thread_id :: u32 where "k_thread_id = 0x360"
definition k_stack_size :: u32 where "k_stack_size = 64 * 1024"
definition k_pcr_size :: u32 where "k_pcr_size = 0x1000"

record guest_thread =
  gth_memory :: bool
  gth_state :: "(u32 \<times> u32 \<times> u32) option"
  gth_stack_address :: u32
  gth_pcr_address :: u32

definition new_guest_thread :: guest_thread where
  "new_guest_thread = \<lparr>gth_memory = False, gth_state = None, gth_stack_address = 0, gth_pcr_address = 0\<rparr>"

definition thread_initialize ::
  "'x xenia_memory \<Rightarrow> guest_thread \<Rightarrow> 'x \<Rightarrow> runtime_failure \<times> guest_thread \<times> 'x" where
  "thread_initialize xm th x =
     (let th = th\<lparr>gth_memory := True\<rparr> in
      case xm_system_alloc xm k_stack_size x of (stack, x) \<Rightarrow>
        (let th = th\<lparr>gth_stack_address := stack\<rparr> in
         if stack = 0
         then (failure StackAllocationFailed
           ''Xenia could not allocate the bounded guest call stack'', th, x)
         else (case xm_system_alloc xm k_pcr_size x of (pcr, x) \<Rightarrow>
           (let th = th\<lparr>gth_pcr_address := pcr\<rparr> in
            if pcr = 0
            then (failure StackAllocationFailed ''Xenia could not allocate the guest thread PCR'', th, x)
            else (no_failure, th\<lparr>gth_state := Some (k_thread_id, stack + k_stack_size, pcr)\<rparr>, x)))))"

definition thread_reset :: "'x xenia_memory \<Rightarrow> guest_thread \<Rightarrow> 'x \<Rightarrow> guest_thread \<times> 'x" where
  "thread_reset xm th x =
     (new_guest_thread,
      if gth_memory th
      then (let x = (if gth_stack_address th \<noteq> 0 then xm_system_free xm (gth_stack_address th) x else x)
            in if gth_pcr_address th \<noteq> 0 then xm_system_free xm (gth_pcr_address th) x else x)
      else x)"

definition thread_initialized :: "guest_thread \<Rightarrow> bool" where
  "thread_initialized th \<longleftrightarrow> gth_state th \<noteq> None"

section \<open>What it owns\<close>

definition thread_blocks :: "guest_thread \<Rightarrow> guest_address set" where
  "thread_blocks th = {gth_stack_address th, gth_pcr_address th} - {0}"

lemma thread_reset_frees:
  assumes "system_heap xm live" "gth_memory th"
  shows "live (snd (thread_reset xm th x)) = (\<lambda>b. if b \<in> thread_blocks th then None else live x b)"
  using assms(2)
  by (auto simp: thread_reset_def thread_blocks_def fun_eq_iff system_heapD(1) [OF assms(1)])

text \<open>What an allocation adds, in one equation.\<close>

lemma live_alloc:
  assumes "system_heap xm live" "n \<noteq> 0" "xm_system_alloc xm n x = (a, x')"
  shows "live x' = (if a = 0 then live x else (live x)(a \<mapsto> n))"
  using system_heapD(3,4) [OF assms] by auto

lemma live_alloc_fresh:
  assumes "system_heap xm live" "n \<noteq> 0" "xm_system_alloc xm n x = (a, x')" "a \<noteq> 0" "live x b = Some m" "m \<noteq> 0"
  shows "b \<noteq> a"
proof -
  have "apart a n b m" using system_heapD(4) [OF assms(1-4)] assms(5) by blast
  with assms(2,6) show ?thesis by (auto simp: apart_def unat_eq_zero)
qed

lemma k_sizes [simp]: "k_stack_size \<noteq> 0" "k_pcr_size \<noteq> 0"
  by (simp_all add: k_stack_size_def k_pcr_size_def)

lemma thread_initialize_live:
  assumes "system_heap xm live" "\<forall>b m. live x b = Some m \<longrightarrow> m \<noteq> 0"
    and "thread_initialize xm new_guest_thread x = (f, th, x')"
  shows "gth_memory th" "fails f \<longleftrightarrow> \<not> thread_initialized th"
    and "\<forall>b\<in>thread_blocks th. live x b = None"
    and "(\<lambda>b. if b \<in> thread_blocks th then None else live x' b) = live x"
    and "\<not> fails f \<Longrightarrow> live x' (gth_stack_address th) = Some k_stack_size \<and>
      live x' (gth_pcr_address th) = Some k_pcr_size \<and> gth_stack_address th \<noteq> gth_pcr_address th"
proof -
  obtain s x1 where s: "xm_system_alloc xm k_stack_size x = (s, x1)"
    by (cases "xm_system_alloc xm k_stack_size x")
  obtain p x2 where p: "xm_system_alloc xm k_pcr_size x1 = (p, x2)"
    by (cases "xm_system_alloc xm k_pcr_size x1")
  note live1 = live_alloc [OF assms(1) k_sizes(1) s] and live2 = live_alloc [OF assms(1) k_sizes(2) p]
  have s_fresh: "live x s = None" if "s \<noteq> 0"
    using live_alloc_fresh [OF assms(1) k_sizes(1) s that] assms(2) by (cases "live x s") auto
  have p_fresh: "live x p = None" "p \<noteq> s" if "p \<noteq> 0" "s \<noteq> 0"
  proof -
    have "m \<noteq> 0" if "live x1 b = Some m" for b m
      using that assms(2) live1 by (auto split: if_splits)
    then have "live x1 p = None"
      using live_alloc_fresh [OF assms(1) k_sizes(2) p \<open>p \<noteq> 0\<close>] by (cases "live x1 p") auto
    with live1 that show "live x p = None" "p \<noteq> s" by (auto split: if_splits)
  qed
  note th = assms(3) [unfolded thread_initialize_def s prod.case Let_def p]
  show "gth_memory th" "fails f \<longleftrightarrow> \<not> thread_initialized th"
    using th by (auto simp: new_guest_thread_def thread_initialized_def split: if_splits)
  show "\<forall>b\<in>thread_blocks th. live x b = None"
    using th s_fresh p_fresh by (auto simp: new_guest_thread_def thread_blocks_def split: if_splits)
  show "(\<lambda>b. if b \<in> thread_blocks th then None else live x' b) = live x"
    using th s_fresh p_fresh live1 live2
    by (auto simp: new_guest_thread_def thread_blocks_def fun_eq_iff split: if_splits)
  show "live x' (gth_stack_address th) = Some k_stack_size \<and>
      live x' (gth_pcr_address th) = Some k_pcr_size \<and> gth_stack_address th \<noteq> gth_pcr_address th"
    if "\<not> fails f"
    using th that p_fresh live1 live2 by (auto simp: new_guest_thread_def split: if_splits)
qed

section \<open>Properties\<close>

text \<open>On every path of \<open>Initialize\<close>, refusals included, \<open>Reset\<close> afterwards frees exactly what was
  allocated: the heap's live blocks are those from before. When it succeeds the stack and the
  control region are two distinct live blocks of their sizes.\<close>

lemma guest_thread_no_leak:
  assumes "system_heap xm live" "\<forall>b m. live x b = Some m \<longrightarrow> m \<noteq> 0"
  shows "case thread_initialize xm new_guest_thread x of (f, th, x') \<Rightarrow>
    live (snd (thread_reset xm th x')) = live x \<and> (fails f \<longleftrightarrow> \<not> thread_initialized th) \<and>
    (fails f \<or> live x' (gth_stack_address th) = Some k_stack_size \<and>
      live x' (gth_pcr_address th) = Some k_pcr_size \<and> gth_stack_address th \<noteq> gth_pcr_address th)"
proof -
  obtain f th x' where run: "thread_initialize xm new_guest_thread x = (f, th, x')"
    by (metis prod_cases3)
  note laws = thread_initialize_live [OF assms run]
  show ?thesis using laws(1,2,4,5) thread_reset_frees [OF assms(1)] by (auto simp: run)
qed

theorem guest_thread_no_leak_witness:
  "case thread_initialize toy_memory new_guest_thread toy_start of (f, th, x') \<Rightarrow>
     gth_state th = Some (0x360, 0x11000, 0x11000) \<and>
     toy_live (snd (thread_reset toy_memory th x')) 0x1000 = None"
proof -
  have "\<forall>b m. toy_live toy_start b = Some m \<longrightarrow> m \<noteq> 0" by (simp add: toy_live_def toy_start_def)
  from guest_thread_no_leak [OF toy_system_heap this] show ?thesis
    by (simp add: thread_initialize_def toy_memory_def toy_candidate_def toy_start_def toy_live_def
        new_guest_thread_def k_stack_size_def k_pcr_size_def k_thread_id_def apart_def split: prod.splits)
qed

end
