(* ===== verification/Instance_Lease.thy ===== *)
theory Instance_Lease imports Prelude begin

text \<open>
  At most one owner of Xenia's memory in the process: \<open>src/xenia_instance_lease.cpp\<close>. The flag is one
  atomic variable; every owner is a lease object with its own \<open>held_\<close>. Owners acquire and are
  destroyed in any order and on any thread, one atomic access per step: the step relation
  \<open>lease_step\<close>, whose clients are the runtime and the system session.
\<close>

section \<open>The lease\<close>

record leases =
  lea_active :: bool
  lea_held :: "nat \<Rightarrow> bool"

definition no_leases :: leases where
  "no_leases = \<lparr>lea_active = False, lea_held = (\<lambda>_. False)\<rparr>"

definition acquire_lease :: "nat \<Rightarrow> leases \<Rightarrow> bool \<times> leases" where
  "acquire_lease owner s =
     (if lea_held s owner then (True, s)
      else (let exchanged = \<not> lea_active s;
                s = s\<lparr>lea_active := True, lea_held := (lea_held s)(owner := exchanged)\<rparr>
            in (lea_held s owner, s)))"

definition release_lease :: "nat \<Rightarrow> leases \<Rightarrow> leases" where
  "release_lease owner s =
     (if lea_held s owner then s\<lparr>lea_active := False, lea_held := (lea_held s)(owner := False)\<rparr> else s)"

section \<open>Every interleaving\<close>

datatype lease_event = Acquired nat | Refused nat | Released nat

inductive lease_step :: "leases \<Rightarrow> lease_event \<Rightarrow> leases \<Rightarrow> bool" where
  Acquire: "acquire_lease owner s = (True, s') \<Longrightarrow> lease_step s (Acquired owner) s'"
| Refuse: "acquire_lease owner s = (False, s') \<Longrightarrow> lease_step s (Refused owner) s'"
| Release: "lease_step s (Released owner) (release_lease owner s)"

inductive lease_run :: "lease_event list \<Rightarrow> leases \<Rightarrow> bool" where
  Start: "lease_run [] no_leases"
| Step: "lease_run es s \<Longrightarrow> lease_step s e s' \<Longrightarrow> lease_run (es @ [e]) s'"

inductive_simps acquired_simp: "lease_step s (Acquired owner) s'"
inductive_simps refused_simp: "lease_step s (Refused owner) s'"
inductive_simps released_simp: "lease_step s (Released owner) s'"
lemmas lease_step_simps = acquired_simp refused_simp released_simp

text \<open>The events leave a single possible owner: the last one that acquired and has not released.\<close>

fun holder :: "lease_event list \<Rightarrow> nat option" where
  "holder [] = None"
| "holder (e # es) =
     (case e of Acquired i \<Rightarrow> Some i | Refused i \<Rightarrow> holder es
      | Released i \<Rightarrow> if holder es = Some i then None else holder es)"

definition leases_of :: "nat option \<Rightarrow> leases" where
  "leases_of h = \<lparr>lea_active = (h \<noteq> None), lea_held = (\<lambda>i. h = Some i)\<rparr>"

lemma held_leases_of [simp]: "lea_held (leases_of h) i \<longleftrightarrow> h = Some i"
  by (simp add: leases_of_def)

lemma no_leases_eq: "no_leases = leases_of None"
  by (simp add: no_leases_def leases_of_def)

lemma acquire_leases_of:
  "acquire_lease i (leases_of h) = (if h = None \<or> h = Some i then (True, leases_of (Some i))
     else (False, leases_of h))"
  by (cases h) (auto simp: acquire_lease_def leases_of_def Let_def fun_eq_iff)

lemma release_leases_of:
  "release_lease i (leases_of h) = leases_of (if h = Some i then None else h)"
  by (auto simp: release_lease_def leases_of_def fun_eq_iff)

lemma lease_run_holder: "lease_run es s \<Longrightarrow> s = leases_of (holder (rev es))"
proof (induction rule: lease_run.induct)
  case Start
  then show ?case by (simp add: no_leases_def leases_of_def)
next
  case (Step es s e s')
  then show ?case
    by (cases e) (auto simp: lease_step_simps acquire_leases_of release_leases_of split: if_splits)
qed

section \<open>Properties\<close>

text \<open>In every interleaving of acquisitions and destructions at most one owner holds the lease; an
  acquisition succeeds exactly when no other owner holds it, so it succeeds again once the holder is
  gone, and a refused one changes nothing.\<close>

lemma lease_exclusive:
  assumes "lease_run es s"
  shows "(\<forall>i j. lea_held s i \<and> lea_held s j \<longrightarrow> i = j) \<and>
    (fst (acquire_lease k s) \<longleftrightarrow> (\<forall>i. lea_held s i \<longrightarrow> i = k)) \<and>
    (if fst (acquire_lease k s) then lea_held (snd (acquire_lease k s)) k
     else snd (acquire_lease k s) = s) \<and>
    (if lea_held s j then fst (acquire_lease k (release_lease j s)) else release_lease j s = s)"
proof -
  obtain h where s: "s = leases_of h" using lease_run_holder [OF assms] by blast
  show ?thesis
    unfolding s acquire_leases_of release_leases_of by (cases h) simp_all
qed

theorem lease_exclusive_witness:
  "\<exists>s. lease_run [Acquired 1, Refused 2] s \<and> \<not> fst (acquire_lease 2 s) \<and>
     fst (acquire_lease 2 (release_lease 1 s))"
proof -
  let ?s = "leases_of (Some 1)"
  have "lease_run ([] @ [Acquired 1]) ?s"
    by (rule Step [OF Start]) (simp add: lease_step_simps no_leases_eq acquire_leases_of)
  then have "lease_run (([] @ [Acquired 1]) @ [Refused 2]) ?s"
    by (rule Step) (simp add: lease_step_simps acquire_leases_of)
  then have run: "lease_run [Acquired 1, Refused 2] ?s" by simp
  from lease_exclusive [OF run, where k = 2 and j = 1]
  have "fst (acquire_lease 2 (release_lease 1 ?s))" "\<not> fst (acquire_lease 2 ?s)"
    by (simp_all add: acquire_leases_of release_leases_of)
  with run show ?thesis by blast
qed

end
