(* ===== verification/Interpreter_Fallback.thy ===== *)
theory Interpreter_Fallback imports Guest_Execution begin

text \<open>
  What happens when a function cannot be translated: \<open>src/interpreter_fallback.cpp\<close> runs Xenia's
  interpreter on the guest thread for a bounded number of instructions. The processor is a parameter
  (\<open>xenia_processor\<close>, of which the translated path of the runtime uses the rest): functions are
  looked up, resolved and interpreted over the thread, whose world holds the processor's state.
\<close>

section \<open>The processor\<close>

datatype interpreter_exit =
  Completed | Unsupported_Instruction | Memory_Fault | Instruction_Budget_Exceeded | Invalid_Entry

record interpreter_result =
  itr_exit_reason :: interpreter_exit
  itr_instructions_executed :: u64
  itr_guest_pc :: u32
  itr_instruction :: u32

text \<open>A guest function: whether it has machine code, of what length, and what calling it does.\<close>

record 'w guest_function =
  gfn_machine_code :: bool
  gfn_machine_code_length :: u64
  gfn_call :: "'w guest_code"

text \<open>\<open>None\<close> stands for no function, or one that is not a guest function.\<close>

record 'w xenia_processor =
  xp_query_function :: "guest_address \<Rightarrow> 'w \<Rightarrow> 'w guest_function option"
  xp_resolve_function :: "guest_address \<Rightarrow> 'w \<Rightarrow> 'w guest_function option \<times> 'w"
  xp_lookup_function :: "guest_address \<Rightarrow> 'w \<Rightarrow> 'w guest_function option \<times> 'w"
  xp_execute_interpreter ::
    "guest_address \<Rightarrow> u64 \<Rightarrow> 'w thread_state \<Rightarrow> interpreter_result \<times> 'w thread_state"

definition is_translated :: "'w guest_function option \<Rightarrow> bool" where
  "is_translated function \<longleftrightarrow> (case function of
     Some f \<Rightarrow> gfn_machine_code f \<and> gfn_machine_code_length f \<noteq> 0 | None \<Rightarrow> False)"

section \<open>ExecuteInterpreterFallback\<close>

text \<open>What the interpreter's exit becomes.\<close>

definition finish_fallback ::
  "interpreter_result \<Rightarrow> u64 \<Rightarrow> execution_result \<times> (jit_statistics \<Rightarrow> jit_statistics)" where
  "finish_fallback fallback r3 =
     (let instructions = (\<lambda>st. st\<lparr>st_interpreter_fallback_instructions :=
            st_interpreter_fallback_instructions st + itr_instructions_executed fallback\<rparr>);
          pc = dec_of (unat (itr_guest_pc fallback)) in
      case itr_exit_reason fallback of
        Completed \<Rightarrow>
          (\<lparr>exr_failure = no_failure, exr_value = r3\<rparr>,
           (\<lambda>st. st\<lparr>st_execution_calls := st_execution_calls st + 1\<rparr>) \<circ> instructions)
      | Unsupported_Instruction \<Rightarrow>
          (refused_call (failure InterpreterFallbackUnsupported
            (''bounded interpreter refused guest PC '' @ pc @ '' opcode ''
               @ dec_of (unat (itr_instruction fallback)))),
           (\<lambda>st. st\<lparr>st_interpreter_fallback_unsupported :=
              st_interpreter_fallback_unsupported st + 1\<rparr>) \<circ> instructions)
      | Memory_Fault \<Rightarrow>
          (refused_call (failure InterpreterFallbackMemoryInvalid
            (''bounded interpreter could not access guest PC '' @ pc)),
           (\<lambda>st. st\<lparr>st_interpreter_fallback_memory_failures :=
              st_interpreter_fallback_memory_failures st + 1\<rparr>) \<circ> instructions)
      | Instruction_Budget_Exceeded \<Rightarrow>
          (refused_call (failure InterpreterFallbackBudgetExceeded
            (''bounded interpreter exhausted its instruction budget at guest PC '' @ pc)),
           (\<lambda>st. st\<lparr>st_interpreter_fallback_budget_exhaustions :=
              st_interpreter_fallback_budget_exhaustions st + 1\<rparr>) \<circ> instructions)
      | Invalid_Entry \<Rightarrow>
          (refused_call (failure TranslationFailed
            ''Xenia could not translate or interpret the requested guest function''), instructions))"

text \<open>
  The statistics are shared with what the interpreted code calls, so they live in the thread's world:
  \<open>update\<close> changes them there.
\<close>

definition count_fallback_entry :: "jit_statistics \<Rightarrow> jit_statistics" where
  "count_fallback_entry st =
     st\<lparr>st_interpreter_fallback_entries := st_interpreter_fallback_entries st + 1\<rparr>"

definition execute_interpreter_fallback ::
  "((jit_statistics \<Rightarrow> jit_statistics) \<Rightarrow> 'w thread_state \<Rightarrow> 'w thread_state) \<Rightarrow> 'w xenia_processor \<Rightarrow>
   guest_address \<Rightarrow> u64 list \<Rightarrow> execution_limits \<Rightarrow> 'w thread_state \<Rightarrow> execution_result \<times> 'w thread_state" where
  "execute_interpreter_fallback update xp address arguments limits t =
     (case prepare_guest_arguments arguments t of (f, t) \<Rightarrow>
      if fails f then (refused_call f, t)
      else (case xp_lookup_function xp address (thr_world t) of (function, w) \<Rightarrow>
       (let t = t\<lparr>thr_world := w\<rparr> in
        if function = None
        then (refused_call (failure TranslationFailed
          ''Xenia could not resolve the requested guest function for translation or fallback''), t)
        else (case xp_execute_interpreter xp address (lim_max_interpreter_instructions limits)
            (update count_fallback_entry t) of
          (fallback, t) \<Rightarrow>
            (case finish_fallback fallback (ppc_r (thr_context t) 3) of (r, count) \<Rightarrow> (r, update count t))))))"

section \<open>What it counts\<close>

text \<open>The counters a fallback moves: it entered, it completed, or it stopped for one reason.\<close>

definition fallback_stops :: "jit_statistics \<Rightarrow> u64" where
  "fallback_stops st = st_interpreter_fallback_unsupported st
     + st_interpreter_fallback_memory_failures st + st_interpreter_fallback_budget_exhaustions st"

definition fallback_errors :: "runtime_error set" where
  "fallback_errors = {InterpreterFallbackUnsupported, InterpreterFallbackMemoryInvalid,
     InterpreterFallbackBudgetExceeded}"

definition counted :: "jit_statistics \<Rightarrow> execution_result \<Rightarrow> jit_statistics \<Rightarrow> bool" where
  "counted st r st' \<longleftrightarrow>
     st_execution_calls st' = st_execution_calls st + (if succeeds r then 1 else 0) \<and>
     fallback_stops st' = fallback_stops st +
       (if fail_error (exr_failure r) \<in> fallback_errors then 1 else 0)"

lemma finish_fallback_counts:
  assumes "finish_fallback fallback r3 = (r, count)"
  shows "counted st r (count st) \<and>
    st_interpreter_fallback_entries (count st) = st_interpreter_fallback_entries st \<and>
    fail_error (exr_failure r) \<in> fallback_errors \<union> {NoRuntimeError, TranslationFailed}"
  using assms
  by (cases "itr_exit_reason fallback")
    (auto simp: finish_fallback_def Let_def fallback_stops_def counted_def
      fallback_errors_def succeeds_def refused_call_def fails_def no_failure_def)

text \<open>A fallback ends in one of three ways: refused before the interpreter, or with its exit.\<close>

lemma fallback_cases:
  assumes "execute_interpreter_fallback update xp address arguments limits t = (r, t')"
  shows "(r = refused_call (exr_failure r) \<and> fail_error (exr_failure r) \<in> {ExecutionFailed, TranslationFailed}) \<or>
    (\<exists>fallback t1 count. finish_fallback fallback (ppc_r (thr_context t1) 3) = (r, count) \<and> t' = update count t1)"
  using assms
  by (auto simp: execute_interpreter_fallback_def prepare_guest_arguments_eq Let_def refused_call_def
      split: prod.splits if_splits)

end
