(* ===== verification/Executable_Invalidation.thy ===== *)
theory Executable_Invalidation imports Guest_Execution Module_Validation begin

text \<open>
  Writes to translated code: \<open>src/executable_invalidation.cpp\<close>. Xenia reports writes to watched
  memory from any host thread; they are merged into one packed 64-bit word by a compare-and-swap
  loop, drained on the next guest entry, and the functions they touch are removed.

  Xenia's memory and processor are parameters over an opaque state (\<open>xenia_watch\<close>): registering
  and enabling the callback may be refused, and functions are found and removed by address. The
  concurrent writers are a step relation, one step per atomic access of the packed word.
\<close>

section \<open>Xenia's side\<close>

record 'x xenia_watch =
  xw_register :: "'x \<Rightarrow> nat option \<times> 'x"
  xw_enable :: "nat \<Rightarrow> u32 \<Rightarrow> u32 \<Rightarrow> 'x \<Rightarrow> bool \<times> 'x"
  xw_unregister :: "nat \<Rightarrow> 'x \<Rightarrow> 'x"
  xw_find_functions :: "u32 \<Rightarrow> 'x \<Rightarrow> guest_address list"
  xw_remove_function :: "guest_address \<Rightarrow> 'x \<Rightarrow> 'x"

section \<open>The packed word\<close>

definition k_no_pending_write :: u64 where "k_no_pending_write = push_bit 32 0xFFFFFFFF"

definition pack_range :: "u32 \<Rightarrow> u32 \<Rightarrow> u64" where
  "pack_range first final = push_bit 32 (ucast first) OR ucast final"

definition packed_first :: "u64 \<Rightarrow> u32" where "packed_first p = ucast (drop_bit 32 p)"
definition packed_last :: "u64 \<Rightarrow> u32" where "packed_last p = ucast p"

text \<open>The body of the compare-and-swap loop.\<close>

definition merge_range :: "u64 \<Rightarrow> u32 \<Rightarrow> u32 \<Rightarrow> u64" where
  "merge_range current first final =
     pack_range (min (packed_first current) first) (max (packed_last current) final)"

section \<open>The operations\<close>

record invalidation =
  inv_memory :: bool
  inv_callback_handle :: "nat option"
  inv_code_range :: code_range
  inv_pending_write :: u64

definition no_code_range :: code_range where
  "no_code_range = \<lparr>code_base = 0, code_size = 0\<rparr>"

definition new_invalidation :: invalidation where
  "new_invalidation = \<lparr>inv_memory = False, inv_callback_handle = None,
     inv_code_range = no_code_range, inv_pending_write = k_no_pending_write\<rparr>"

definition rearm :: "'x xenia_watch \<Rightarrow> invalidation \<Rightarrow> 'x \<Rightarrow> bool \<times> 'x" where
  "rearm xw iv x =
     (case inv_callback_handle iv of
        Some handle \<Rightarrow>
          if inv_memory iv \<and> code_size (inv_code_range iv) \<noteq> 0
          then xw_enable xw handle (code_base (inv_code_range iv)) (code_size (inv_code_range iv)) x
          else (False, x)
      | None \<Rightarrow> (False, x))"

definition disarm :: "'x xenia_watch \<Rightarrow> invalidation \<Rightarrow> 'x \<Rightarrow> invalidation \<times> 'x" where
  "disarm xw iv x =
     (new_invalidation,
      case inv_callback_handle iv of
        Some handle \<Rightarrow> if inv_memory iv then xw_unregister xw handle x else x
      | None \<Rightarrow> x)"

definition arm ::
  "'x xenia_watch \<Rightarrow> code_range \<Rightarrow> invalidation \<Rightarrow> 'x \<Rightarrow> runtime_failure \<times> invalidation \<times> 'x" where
  "arm xw code iv x =
     (if code_base code = 0 \<or> code_size code = 0
      then (failure ExecutableWatchRegistrationFailed
        ''automatic executable-write observation requires a nonempty code range'', iv, x)
      else (case disarm xw iv x of (iv, x) \<Rightarrow>
        (case xw_register xw x of
          (None, x) \<Rightarrow> (failure ExecutableWatchRegistrationFailed
            ''Xenia refused the automatic executable-write callback'',
            iv\<lparr>inv_memory := False, inv_callback_handle := None, inv_code_range := no_code_range\<rparr>, x)
        | (Some handle, x) \<Rightarrow>
            let iv = iv\<lparr>inv_memory := True, inv_callback_handle := Some handle,
              inv_code_range := code\<rparr> in
            (case rearm xw iv x of (armed, x) \<Rightarrow>
              if armed then (no_failure, iv, x)
              else (case disarm xw iv x of (iv, x) \<Rightarrow>
                (failure ExecutableWatchRegistrationFailed
                  ''Xenia refused the authenticated executable watch range'', iv, x))))))"

text \<open>\<open>RecordVirtualWrite\<close> without interference: the loop's first exchange succeeds.\<close>

definition clip_write :: "code_range \<Rightarrow> u32 \<Rightarrow> nat \<Rightarrow> (nat \<times> nat) option" where
  "clip_write code address write_end =
     (let start = max (unat address) (unat (code_base code));
          past = min write_end (code_end code) in
      if start \<ge> past then None else Some (start, past))"

definition record_virtual_write ::
  "u32 \<Rightarrow> u32 \<Rightarrow> invalidation \<Rightarrow> jit_statistics \<Rightarrow> 'w thread_state \<Rightarrow>
   invalidation \<times> jit_statistics \<times> 'w thread_state" where
  "record_virtual_write address len iv stats t =
     (if len = 0 \<or> \<not> inv_memory iv then (iv, stats, t)
      else case clip_write (inv_code_range iv) address (unat address + unat len) of
        None \<Rightarrow> (iv, stats, t)
      | Some (start, past) \<Rightarrow>
          (iv\<lparr>inv_pending_write := merge_range (inv_pending_write iv) (word_of_nat start)
             (word_of_nat (past - 1))\<rparr>,
           stats\<lparr>st_observed_executable_writes := st_observed_executable_writes stats + 1\<rparr>,
           mark_guest_executable_write_observed t))"

text \<open>\<open>Notify\<close>: every function that contains an instruction of the range is removed once.\<close>

fun remove_functions ::
  "'x xenia_watch \<Rightarrow> guest_address list \<Rightarrow> guest_address list \<Rightarrow> jit_statistics \<Rightarrow> 'x \<Rightarrow>
   guest_address list \<times> jit_statistics \<times> 'x" where
  "remove_functions xw [] invalidated stats x = (invalidated, stats, x)"
| "remove_functions xw (f # fs) invalidated stats x =
     (if f \<in> set invalidated then remove_functions xw fs invalidated stats x
      else remove_functions xw fs (f # invalidated)
        (stats\<lparr>st_translation_invalidations := st_translation_invalidations stats + 1\<rparr>)
        (xw_remove_function xw f x))"

function notify_loop ::
  "'x xenia_watch \<Rightarrow> nat \<Rightarrow> nat \<Rightarrow> guest_address list \<Rightarrow> jit_statistics \<Rightarrow> 'x \<Rightarrow>
   guest_address list \<times> jit_statistics \<times> 'x" where
  "notify_loop xw instruction write_end invalidated stats x =
     (if instruction < write_end
      then case remove_functions xw (xw_find_functions xw (word_of_nat instruction) x) invalidated stats x of
        (invalidated, stats, x) \<Rightarrow> notify_loop xw (instruction + 4) write_end invalidated stats x
      else (invalidated, stats, x))"
  by pat_completeness auto
termination
  by (relation "measure (\<lambda>(_, instruction, write_end, _). write_end - instruction)") auto

declare notify_loop.simps [simp del]

definition notify ::
  "'x xenia_watch \<Rightarrow> code_range \<Rightarrow> guest_address \<Rightarrow> u32 \<Rightarrow> jit_statistics \<Rightarrow> 'x \<Rightarrow>
   runtime_failure \<times> jit_statistics \<times> 'x" where
  "notify xw code address len stats x =
     (let write_end = unat address + unat len in
      if len = 0 \<or> address < code_base code \<or> write_end > code_end code
      then (failure ExecutableRangeInvalid
        ''executable write must be non-empty and inside the authenticated code range'', stats, x)
      else case notify_loop xw (unat (address AND NOT 3)) write_end [] stats x of
        (_, stats, x) \<Rightarrow> (no_failure, stats, x))"

text \<open>What a drain makes of the word it took: the part of the watched code to notify, or nothing.\<close>

definition drained_range :: "code_range \<Rightarrow> u64 \<Rightarrow> (nat \<times> nat) option" where
  "drained_range code packed =
     (let virtual_start = packed_first packed; virtual_last = packed_last packed in
      if virtual_start \<noteq> 0xFFFFFFFF \<and> virtual_start \<le> virtual_last
      then clip_write code virtual_start (unat virtual_last + 1) else None)"

definition drain_observed_writes ::
  "'x xenia_watch \<Rightarrow> invalidation \<Rightarrow> jit_statistics \<Rightarrow> 'x \<Rightarrow>
   runtime_failure \<times> invalidation \<times> jit_statistics \<times> 'x" where
  "drain_observed_writes xw iv stats x =
     (let packed = inv_pending_write iv;
          iv = iv\<lparr>inv_pending_write := k_no_pending_write\<rparr>;
          code = inv_code_range iv;
          notified = (case drained_range code packed of
                Some (start, past) \<Rightarrow> notify xw code (word_of_nat start) (word_of_nat (past - start)) stats x
              | None \<Rightarrow> (no_failure, stats, x)) in
      case notified of (f, stats, x) \<Rightarrow>
        if fails f then (f, iv, stats, x)
        else (case rearm xw iv x of (armed, x) \<Rightarrow>
          if armed then (no_failure, iv, stats, x)
          else (failure ExecutableWatchRearmFailed
            ''Xenia refused to rearm the authenticated executable watch range'', iv, stats, x)))"

section \<open>Packing\<close>

lemma packed_first_pack [simp]: "packed_first (pack_range a b) = a"
proof (rule bit_word_eqI)
  fix n assume "n < LENGTH(32)"
  then show "bit (packed_first (pack_range a b)) n = bit a n"
    using bit_imp_le_length [of b "32 + n"]
    by (auto simp: packed_first_def pack_range_def bit_simps)
qed

lemma packed_last_pack [simp]: "packed_last (pack_range a b) = b"
proof (rule bit_word_eqI)
  fix n assume "n < LENGTH(32)"
  then show "bit (packed_last (pack_range a b)) n = bit b n"
    by (auto simp: packed_last_def pack_range_def bit_simps)
qed

lemma no_pending_write: "packed_first k_no_pending_write = 0xFFFFFFFF" "packed_last k_no_pending_write = 0"
  by (simp_all add: packed_first_def packed_last_def k_no_pending_write_def)

text \<open>The bytes a packed word stands for.\<close>

definition covered :: "u64 \<Rightarrow> nat set" where
  "covered p = {unat (packed_first p)..unat (packed_last p)}"

lemma covered_merge:
  "covered (merge_range p first final) =
     {min (unat (packed_first p)) (unat first)..max (unat (packed_last p)) (unat final)}"
proof -
  have "unat (min a b) = min (unat a) (unat b)" "unat (max a b) = max (unat a) (unat b)" for a b :: u32
    by (auto simp: min_def max_def word_le_nat_alt)
  then show ?thesis by (simp add: covered_def merge_range_def)
qed

lemma covered_no_pending: "covered k_no_pending_write = {}"
  by (simp add: covered_def no_pending_write)

lemma merge_range_covers:
  "covered p \<subseteq> covered (merge_range p first final)"
  "{unat first..unat final} \<subseteq> covered (merge_range p first final)"
  by (auto simp: covered_merge) (auto simp: covered_def)

section \<open>Writers, drains and disarming interleaved\<close>

text \<open>
  A host thread that runs \<open>RecordVirtualWrite\<close> clips its write against the watched code and loads the
  packed word, then tries to exchange it; the exchange may fail spuriously, and then reloads it. A drain
  exchanges the word in one step and notifies what \<open>drained_range\<close> makes of it; disarming stores the empty
  word and forgets the code, and arming does the same before it watches a validated code range. A writer
  under way survives both. \<open>rac_written\<close> records the writes exchanged since the watch was last disarmed,
  \<open>rac_notified\<close> the ranges that drains have notified since.
\<close>

datatype writer = Idle | Trying nat nat u64

record race =
  rac_code :: code_range
  rac_pending :: u64
  rac_writers :: "nat \<Rightarrow> writer"
  rac_written :: "(nat \<times> nat) list"
  rac_notified :: "(nat \<times> nat) list"

definition forget_race :: "code_range \<Rightarrow> race \<Rightarrow> race" where
  "forget_race code s = s\<lparr>rac_code := code, rac_pending := k_no_pending_write, rac_written := [], rac_notified := []\<rparr>"

inductive race_step :: "race \<Rightarrow> race \<Rightarrow> bool" where
  load: "rac_writers s i = Idle \<Longrightarrow> (len :: u32) \<noteq> 0 \<Longrightarrow>
    clip_write (rac_code s) address (unat address + unat len) = Some (start, past) \<Longrightarrow>
    race_step s (s\<lparr>rac_writers := (rac_writers s)(i := Trying start past (rac_pending s))\<rparr>)"
| exchange: "rac_writers s i = Trying start past current \<Longrightarrow> rac_pending s = current \<Longrightarrow>
    race_step s (s\<lparr>rac_pending := merge_range current (word_of_nat start) (word_of_nat (past - 1)),
      rac_writers := (rac_writers s)(i := Idle), rac_written := (start, past) # rac_written s\<rparr>)"
| reload: "rac_writers s i = Trying start past current \<Longrightarrow>
    race_step s (s\<lparr>rac_writers := (rac_writers s)(i := Trying start past (rac_pending s))\<rparr>)"
| drain: "race_step s (s\<lparr>rac_pending := k_no_pending_write,
    rac_notified := (case drained_range (rac_code s) (rac_pending s) of None \<Rightarrow> rac_notified s
      | Some taken \<Rightarrow> taken # rac_notified s)\<rparr>)"
| disarm: "race_step s (forget_race no_code_range s)"
| arm: "code_base code \<noteq> 0 \<Longrightarrow> code_size code \<noteq> 0 \<Longrightarrow> code_end code \<le> 2 ^ 32 \<Longrightarrow>
    race_step s (forget_race code s)"

inductive races :: "race \<Rightarrow> race \<Rightarrow> bool" where
  refl: "races s s"
| step: "races s s' \<Longrightarrow> race_step s' s'' \<Longrightarrow> races s s''"

definition start_race :: race where
  "start_race = \<lparr>rac_code = no_code_range, rac_pending = k_no_pending_write, rac_writers = (\<lambda>_. Idle),
     rac_written = [], rac_notified = []\<rparr>"

text \<open>
  A write is kept while the pending word covers it and is not taken for the empty one; once drained, what
  of it lies in the watched code has been notified.
\<close>

definition write_kept :: "race \<Rightarrow> nat \<times> nat \<Rightarrow> bool" where
  "write_kept s r \<longleftrightarrow>
     (packed_first (rac_pending s) \<noteq> 0xFFFFFFFF \<and> {fst r..<snd r} \<subseteq> covered (rac_pending s))
     \<or> {fst r..<snd r} \<inter> {unat (code_base (rac_code s))..<code_end (rac_code s)}
         \<subseteq> (\<Union>(a, b)\<in>set (rac_notified s). {a..<b})"

definition race_ok :: "race \<Rightarrow> bool" where
  "race_ok s \<longleftrightarrow> code_end (rac_code s) \<le> 2 ^ 32
     \<and> (\<forall>i start past current. rac_writers s i = Trying start past current \<longrightarrow> start < past \<and> past \<le> 2 ^ 32)
     \<and> (\<forall>r\<in>set (rac_written s). fst r \<noteq> 0xFFFFFFFF \<longrightarrow> write_kept s r)"

lemma unat_u32_of_nat: "n < 2 ^ 32 \<Longrightarrow> unat (word_of_nat n :: u32) = n"
  by (simp add: unsigned_of_nat take_bit_nat_def)

lemma clip_write_Some:
  "clip_write code address past0 = Some (start, past) \<longleftrightarrow>
     start = max (unat address) (unat (code_base code)) \<and> past = min past0 (code_end code) \<and> start < past"
  by (auto simp: clip_write_def Let_def)

lemma exchanged_kept:
  assumes "start < past" "past \<le> 2 ^ 32"
  shows "{start..<past} \<subseteq> covered (merge_range p (word_of_nat start) (word_of_nat (past - 1)))"
    and "start \<noteq> 0xFFFFFFFF \<Longrightarrow> packed_first (merge_range p (word_of_nat start) final) \<noteq> 0xFFFFFFFF"
    and "packed_first p \<noteq> 0xFFFFFFFF \<Longrightarrow> packed_first (merge_range p first final) \<noteq> 0xFFFFFFFF"
proof -
  have words: "unat (word_of_nat start :: u32) = start" "unat (word_of_nat (past - 1) :: u32) = past - 1"
    using assms by (intro unat_u32_of_nat; linarith)+
  show "{start..<past} \<subseteq> covered (merge_range p (word_of_nat start) (word_of_nat (past - 1)))"
  proof -
    have "{start..past - 1} = {start..<past}" using assms(1) by auto
    with merge_range_covers(2) [of "word_of_nat start" "word_of_nat (past - 1)" p] show ?thesis
      unfolding words by (simp only:)
  qed
  have first: "packed_first (merge_range p f l) = min (packed_first p) f" for f l
    by (simp add: merge_range_def)
  have top: "a = 0xFFFFFFFF" if "min b a = 0xFFFFFFFF" for a b :: u32
  proof -
    have "unat a \<le> 4294967295" using unat_u32_less [of a] by linarith
    then have "a \<le> 0xFFFFFFFF" by (simp add: word_le_nat_alt)
    with that show ?thesis by (metis min.cobounded2 order_antisym)
  qed
  show "packed_first (merge_range p (word_of_nat start) final) \<noteq> 0xFFFFFFFF" if "start \<noteq> 0xFFFFFFFF"
  proof
    assume "packed_first (merge_range p (word_of_nat start) final) = 0xFFFFFFFF"
    then have "(word_of_nat start :: u32) = 0xFFFFFFFF" unfolding first by (rule top)
    then have "unat (word_of_nat start :: u32) = unat (0xFFFFFFFF :: u32)" by (simp only:)
    with words(1) that show False by simp
  qed
  show "packed_first (merge_range p first final) \<noteq> 0xFFFFFFFF" if "packed_first p \<noteq> 0xFFFFFFFF"
    using that top [of first "packed_first p"] by (auto simp: first min.commute)
qed

lemma drained_kept:
  assumes "write_kept s r" "s' = s\<lparr>rac_pending := k_no_pending_write,
    rac_notified := (case drained_range (rac_code s) (rac_pending s) of None \<Rightarrow> rac_notified s
      | Some taken \<Rightarrow> taken # rac_notified s)\<rparr>"
  shows "write_kept s' r"
proof (cases "packed_first (rac_pending s) \<noteq> 0xFFFFFFFF \<and> {fst r..<snd r} \<subseteq> covered (rac_pending s)")
  case True
  let ?p = "rac_pending s" and ?code = "rac_code s"
  have "{fst r..<snd r} \<inter> {unat (code_base ?code)..<code_end ?code}
      \<subseteq> (case drained_range ?code ?p of None \<Rightarrow> {} | Some (a, b) \<Rightarrow> {a..<b})"
  proof
    fix b assume "b \<in> {fst r..<snd r} \<inter> {unat (code_base ?code)..<code_end ?code}"
    with True have b: "unat (packed_first ?p) \<le> b" "b \<le> unat (packed_last ?p)"
        "unat (code_base ?code) \<le> b" "b < code_end ?code"
      by (auto simp: covered_def subset_iff)
    then have "packed_first ?p \<le> packed_last ?p" by (simp add: word_le_nat_alt)
    with True have "drained_range ?code ?p = clip_write ?code (packed_first ?p) (unat (packed_last ?p) + 1)"
      by (simp add: drained_range_def)
    with b show "b \<in> (case drained_range ?code ?p of None \<Rightarrow> {} | Some (a, b) \<Rightarrow> {a..<b})"
      by (auto simp: clip_write_def Let_def)
  qed
  then show ?thesis by (auto simp: assms(2) write_kept_def split: option.splits)
next
  case False
  with assms(1) have "{fst r..<snd r} \<inter> {unat (code_base (rac_code s))..<code_end (rac_code s)}
      \<subseteq> (\<Union>(a, b)\<in>set (rac_notified s). {a..<b})"
    by (auto simp: write_kept_def)
  then show ?thesis by (auto simp: assms(2) write_kept_def split: option.splits)
qed

lemma race_ok_step:
  assumes "race_step s s'" and ok: "race_ok s"
  shows "race_ok s'"
  using assms(1)
proof (cases rule: race_step.cases)
  case (load i len address start past)
  then have "start < past" "past \<le> 2 ^ 32" using ok by (auto simp: clip_write_Some race_ok_def)
  with load ok show ?thesis by (auto simp: race_ok_def write_kept_def)
next
  case (exchange i start past current)
  let ?p = "merge_range current (word_of_nat start) (word_of_nat (past - 1))"
  from exchange ok have range: "start < past" "past \<le> 2 ^ 32" by (auto simp: race_ok_def)
  note kept = exchanged_kept [OF range]
  have "write_kept s' r" if "r \<in> set (rac_written s')" "fst r \<noteq> 0xFFFFFFFF" for r
  proof (cases "r = (start, past)")
    case True
    with that(2) exchange show ?thesis using kept(1) [of current] kept(2) by (simp add: write_kept_def)
  next
    case False
    with that exchange ok have "write_kept s r" by (auto simp: race_ok_def)
    from this [unfolded write_kept_def] show ?thesis
    proof (elim disjE conjE)
      assume p: "packed_first (rac_pending s) \<noteq> 0xFFFFFFFF" "{fst r..<snd r} \<subseteq> covered (rac_pending s)"
      with exchange(3) have "packed_first ?p \<noteq> 0xFFFFFFFF" "{fst r..<snd r} \<subseteq> covered ?p"
        using kept(3) [of current] merge_range_covers(1) [of current] by (blast, blast)
      with exchange(1) show ?thesis by (simp add: write_kept_def)
    qed (use exchange(1) in \<open>simp add: write_kept_def\<close>)
  qed
  with exchange ok show ?thesis by (auto simp: race_ok_def)
next
  case (reload i start past current)
  with ok have "start < past" "past \<le> 2 ^ 32" by (auto simp: race_ok_def)
  with reload ok show ?thesis by (auto simp: race_ok_def write_kept_def)
next
  case drain
  with ok drained_kept [OF _ drain] show ?thesis by (auto simp: race_ok_def)
next
  case disarm
  with ok show ?thesis by (auto simp: race_ok_def forget_race_def no_code_range_def code_end_def)
next
  case (arm code)
  with ok show ?thesis by (auto simp: race_ok_def forget_race_def)
qed

lemma races_ok: "races s s' \<Longrightarrow> race_ok s \<Longrightarrow> race_ok s'"
  by (induction rule: races.induct) (blast intro: race_ok_step)+

lemma start_race_ok: "race_ok start_race"
  by (simp add: race_ok_def start_race_def no_code_range_def code_end_def)

section \<open>Removing what a write touches\<close>

text \<open>What Xenia documents: a removed function is found at no address, and no other one is lost.\<close>

definition functions_by_address :: "'x xenia_watch \<Rightarrow> bool" where
  "functions_by_address xw \<longleftrightarrow>
     (\<forall>f a x. xw_find_functions xw a (xw_remove_function xw f x) =
        filter (\<lambda>g. g \<noteq> f) (xw_find_functions xw a x))"

definition removed_so_far ::
  "'x xenia_watch \<Rightarrow> 'x \<Rightarrow> jit_statistics \<Rightarrow> guest_address list \<times> jit_statistics \<times> 'x \<Rightarrow> bool" where
  "removed_so_far xw x0 stats0 = (\<lambda>(removed, stats, x).
     (\<forall>a. xw_find_functions xw a x = filter (\<lambda>g. g \<notin> set removed) (xw_find_functions xw a x0))
     \<and> distinct removed
     \<and> stats = stats0\<lparr>st_translation_invalidations :=
         st_translation_invalidations stats0 + word_of_nat (length removed)\<rparr>)"

lemma remove_functions_ok:
  assumes "functions_by_address xw" and "removed_so_far xw x0 stats0 (removed, stats, x)"
  shows "removed_so_far xw x0 stats0 (remove_functions xw fs removed stats x)
    \<and> set (fst (remove_functions xw fs removed stats x)) = set removed \<union> set fs"
  using assms(2)
proof (induction fs arbitrary: removed stats x)
  case (Cons f fs)
  let ?stats = "stats\<lparr>st_translation_invalidations := st_translation_invalidations stats + 1\<rparr>"
  show ?case
  proof (cases "f \<in> set removed")
    case False
    then have "removed_so_far xw x0 stats0 (f # removed, ?stats, xw_remove_function xw f x)"
      using Cons.prems assms(1)
      by (auto simp: removed_so_far_def functions_by_address_def conj_commute intro!: filter_cong)
    from Cons.IH [OF this] False show ?thesis by auto
  qed (use Cons in auto)
qed simp

definition instructions :: "nat \<Rightarrow> nat \<Rightarrow> nat set" where
  "instructions first write_end = {i. \<exists>k. i = first + 4 * k \<and> i < write_end}"

lemma instructions_step:
  "first < write_end \<Longrightarrow> instructions first write_end = insert first (instructions (first + 4) write_end)"
proof (intro set_eqI iffI)
  fix i assume "i \<in> instructions first write_end"
  then obtain k where "i = first + 4 * k" "i < write_end" by (auto simp: instructions_def)
  then show "i \<in> insert first (instructions (first + 4) write_end)"
    by (cases k) (auto simp: instructions_def)
next
  fix i assume "first < write_end" "i \<in> insert first (instructions (first + 4) write_end)"
  then consider "i = first" | k where "i = first + 4 + 4 * k" "i < write_end"
    by (auto simp: instructions_def)
  then show "i \<in> instructions first write_end"
  proof cases
    case 1
    with \<open>first < write_end\<close> show ?thesis by (auto simp: instructions_def intro: exI [of _ 0])
  next
    case 2
    then show ?thesis by (auto simp: instructions_def intro!: exI [of _ "Suc k"])
  qed
qed

definition touched :: "'x xenia_watch \<Rightarrow> 'x \<Rightarrow> nat set \<Rightarrow> guest_address set" where
  "touched xw x is = (\<Union>i\<in>is. set (xw_find_functions xw (word_of_nat i) x))"

lemma notify_loop_ok:
  assumes "functions_by_address xw" and "removed_so_far xw x0 stats0 (removed, stats, x)"
  shows "removed_so_far xw x0 stats0 (notify_loop xw first write_end removed stats x)
    \<and> set (fst (notify_loop xw first write_end removed stats x)) =
        set removed \<union> touched xw x0 (instructions first write_end)"
  using assms(2)
proof (induction "write_end - first" arbitrary: first removed stats x rule: less_induct)
  case less
  show ?case
  proof (cases "first < write_end")
    case True
    define fs where "fs = xw_find_functions xw (word_of_nat first) x"
    obtain removed1 stats1 x1 where
      r: "remove_functions xw fs removed stats x = (removed1, stats1, x1)"
      by (cases "remove_functions xw fs removed stats x")
    have "removed_so_far xw x0 stats0 (removed1, stats1, x1)" "set removed1 = set removed \<union> set fs"
      using remove_functions_ok [OF assms(1) less.prems, of fs] r by auto
    moreover have "set removed \<union> set fs =
        set removed \<union> set (xw_find_functions xw (word_of_nat first) x0)"
      using less.prems by (auto simp: removed_so_far_def fs_def)
    ultimately show ?thesis
      using less.hyps [of "first + 4" removed1 stats1 x1] True r
      by (auto simp: notify_loop.simps [of xw first] fs_def instructions_step touched_def)
  next
    case False
    then show ?thesis
      using less.prems by (auto simp: notify_loop.simps [of xw first] instructions_def touched_def)
  qed
qed

text \<open>The words of the code that a write of \<open>len\<close> bytes at \<open>address\<close> touches.\<close>

definition written_instructions :: "guest_address \<Rightarrow> nat \<Rightarrow> nat set" where
  "written_instructions address write_end = instructions (unat (address AND NOT 3)) write_end"

definition invalidated :: "'x xenia_watch \<Rightarrow> guest_address set \<Rightarrow> 'x \<Rightarrow> 'x \<Rightarrow> bool" where
  "invalidated xw gone x x' \<longleftrightarrow>
     (\<forall>a. xw_find_functions xw a x' = filter (\<lambda>g. g \<notin> gone) (xw_find_functions xw a x))"

lemma notify_ok:
  assumes "functions_by_address xw"
  shows "case notify xw code address len stats x of (f, stats', x') \<Rightarrow>
    if len \<noteq> 0 \<and> code_base code \<le> address \<and> unat address + unat len \<le> code_end code
    then (let gone = touched xw x (written_instructions address (unat address + unat len)) in
      f = no_failure \<and> invalidated xw gone x x'
      \<and> stats' = stats\<lparr>st_translation_invalidations :=
          st_translation_invalidations stats + word_of_nat (card gone)\<rparr>)
    else fail_error f = ExecutableRangeInvalid \<and> stats' = stats \<and> x' = x"
proof -
  let ?first = "unat (address AND NOT 3)" and ?past = "unat address + unat len"
  have "removed_so_far xw x stats ([], stats, x)" by (simp add: removed_so_far_def)
  note loop = notify_loop_ok [OF assms this, of ?first ?past]
  obtain removed stats' x' where r: "notify_loop xw ?first ?past [] stats x = (removed, stats', x')"
    by (cases "notify_loop xw ?first ?past [] stats x")
  with loop have "length removed = card (touched xw x (written_instructions address ?past))"
    by (auto simp: removed_so_far_def written_instructions_def distinct_card [symmetric])
  with loop r show ?thesis
    by (auto simp: notify_def Let_def removed_so_far_def invalidated_def written_instructions_def not_le
        not_less)
qed

lemma and_3_mod: "unat (a AND 3 :: u32) = unat a mod 4"
proof -
  have "a AND 3 = take_bit 2 a" by (simp add: take_bit_eq_mask mask_eq_exp_minus_1 and.commute)
  moreover have "unat (take_bit 2 a) = take_bit 2 (unat a)" by (rule unsigned_take_bit_eq)
  ultimately show ?thesis by (simp only: take_bit_nat_def) simp
qed

lemma mod_sum_below:
  assumes "(m + v) mod 4294967296 = u" and "v \<le> u" and "m < 4" and "u < (4294967296 :: nat)"
  shows "v = u - m"
proof (cases "m + v < 4294967296")
  case True
  with assms(1) have "m + v = u" by (simp only: mod_less)
  then show ?thesis by linarith
next
  case False
  then have "(m + v) mod 4294967296 = (m + v - 4294967296) mod 4294967296"
    by (intro le_mod_geq) linarith
  also have "\<dots> = m + v - 4294967296" by (rule mod_less) (use assms in linarith)
  finally show ?thesis using assms False by linarith
qed

lemma aligned_down: "unat (a AND NOT 3 :: u32) = unat a - unat a mod 4"
proof -
  have "(a AND 3) + (a AND NOT 3) = (a AND 3) OR (a AND NOT 3)"
    by (rule disjunctive_add_eq_or) (rule bit_word_eqI, auto simp: bit_simps)
  also have "\<dots> = a" by (rule bit_word_eqI) (auto simp: bit_simps)
  finally have "(unat (a AND 3) + unat (a AND NOT 3)) mod 2 ^ LENGTH(32) = unat a"
    by (metis unat_word_ariths(1))
  then have "(unat a mod 4 + unat (a AND NOT 3)) mod 4294967296 = unat a"
    unfolding and_3_mod by (simp only: len_num0 len_bit0 len_num1 len_bit1) simp
  moreover have "unat (a AND NOT 3) \<le> unat a"
    using word_and_le2 [of a "NOT 3"] unfolding word_le_nat_alt .
  ultimately show ?thesis by (rule mod_sum_below) simp_all
qed

lemma word_boundaries: "(\<exists>k. i = u - u mod 4 + 4 * k) \<longleftrightarrow> 4 dvd i \<and> u < i + (4 :: nat)"
proof
  assume "\<exists>k. i = u - u mod 4 + 4 * k"
  then obtain k where i: "i = 4 * (u div 4) + 4 * k" by (auto simp: minus_mod_eq_mult_div)
  then have "4 dvd i" by simp
  moreover have "u < 4 * (u div 4) + 4" using mult_div_mod_eq [of 4 u] mod_less_divisor [of 4 u] by linarith
  ultimately show "4 dvd i \<and> u < i + 4" using i by simp
next
  assume a: "4 dvd i \<and> u < i + 4"
  then obtain j where j: "i = 4 * j" by blast
  with a have "u div 4 \<le> j" by (simp add: less_mult_imp_div_less less_Suc_eq_le [symmetric])
  with j show "\<exists>k. i = u - u mod 4 + 4 * k"
    by (intro exI [of _ "j - u div 4"]) (simp add: minus_mod_eq_mult_div diff_mult_distrib2)
qed

lemma written_instructions_eq:
  "written_instructions address write_end = {i. 4 dvd i \<and> unat address < i + 4 \<and> i < write_end}"
  unfolding written_instructions_def instructions_def aligned_down
  using word_boundaries [of _ "unat address"] by blast

section \<open>Draining\<close>

text \<open>The instructions of the watched code that the bytes of a packed word touch.\<close>

definition pending_instructions :: "invalidation \<Rightarrow> nat set" where
  "pending_instructions iv =
     {i. 4 dvd i \<and> (\<exists>b. b \<in> covered (inv_pending_write iv) \<and> i \<le> b \<and> b < i + 4
        \<and> unat (code_base (inv_code_range iv)) \<le> b \<and> b < code_end (inv_code_range iv))}"

lemma clip_write_instructions:
  assumes "clip_write (inv_code_range iv) (packed_first (inv_pending_write iv))
    (unat (packed_last (inv_pending_write iv)) + 1) = Some (start, past)"
    and "code_end (inv_code_range iv) \<le> 2 ^ 32"
  shows "written_instructions (word_of_nat start) past = pending_instructions iv"
proof -
  have start: "start = max (unat (packed_first (inv_pending_write iv))) (unat (code_base (inv_code_range iv)))"
    and past: "past = min (unat (packed_last (inv_pending_write iv)) + 1) (code_end (inv_code_range iv))"
    and "start < past"
    using assms(1) by (auto simp: clip_write_def Let_def split: if_splits)
  then have "unat (word_of_nat start :: u32) = start"
    using assms(2) by (intro unat_word_of_nat_u32) simp
  moreover have "(\<exists>b. b \<in> covered (inv_pending_write iv) \<and> i \<le> b \<and> b < i + 4
        \<and> unat (code_base (inv_code_range iv)) \<le> b \<and> b < code_end (inv_code_range iv))
      \<longleftrightarrow> start < i + 4 \<and> i < past" for i
  proof
    assume "start < i + 4 \<and> i < past"
    with \<open>start < past\<close> show "\<exists>b. b \<in> covered (inv_pending_write iv) \<and> i \<le> b \<and> b < i + 4
        \<and> unat (code_base (inv_code_range iv)) \<le> b \<and> b < code_end (inv_code_range iv)"
      by (intro exI [of _ "max start i"]) (auto simp: start past covered_def)
  qed (auto simp: start past covered_def)
  ultimately show ?thesis
    by (simp add: written_instructions_eq pending_instructions_def)
qed

lemma clip_write_nothing:
  assumes "clip_write (inv_code_range iv) (packed_first (inv_pending_write iv))
    (unat (packed_last (inv_pending_write iv)) + 1) = None
    \<or> \<not> packed_first (inv_pending_write iv) \<le> packed_last (inv_pending_write iv)"
  shows "pending_instructions iv = {}"
  using assms
  by (auto simp: clip_write_def Let_def pending_instructions_def covered_def word_le_nat_alt
      split: if_splits)

definition enable_keeps_functions :: "'x xenia_watch \<Rightarrow> bool" where
  "enable_keeps_functions xw \<longleftrightarrow> (\<forall>h b s x a.
     xw_find_functions xw a (snd (xw_enable xw h b s x)) = xw_find_functions xw a x)"

lemma rearm_find:
  "enable_keeps_functions xw \<Longrightarrow>
   xw_find_functions xw a (snd (rearm xw iv x)) = xw_find_functions xw a x"
  by (simp add: rearm_def enable_keeps_functions_def split: option.split)

text \<open>The part of a drain before the watch is rearmed.\<close>

definition drained_notify ::
  "'x xenia_watch \<Rightarrow> invalidation \<Rightarrow> jit_statistics \<Rightarrow> 'x \<Rightarrow> runtime_failure \<times> jit_statistics \<times> 'x" where
  "drained_notify xw iv stats x =
     (case drained_range (inv_code_range iv) (inv_pending_write iv) of
         Some (start, past) \<Rightarrow> notify xw (inv_code_range iv) (word_of_nat start)
           (word_of_nat (past - start)) stats x
       | None \<Rightarrow> (no_failure, stats, x))"

lemma drained_notify_ok:
  assumes "functions_by_address xw" and "code_base (inv_code_range iv) \<noteq> 0"
    and "code_end (inv_code_range iv) \<le> 2 ^ 32"
    and "packed_first (inv_pending_write iv) \<noteq> 0xFFFFFFFF \<or> inv_pending_write iv = k_no_pending_write"
  shows "\<exists>x'. drained_notify xw iv stats x = (no_failure,
      stats\<lparr>st_translation_invalidations := st_translation_invalidations stats
        + word_of_nat (card (touched xw x (pending_instructions iv)))\<rparr>, x')
    \<and> invalidated xw (touched xw x (pending_instructions iv)) x x'"
proof (cases "packed_first (inv_pending_write iv) \<noteq> 0xFFFFFFFF
    \<and> packed_first (inv_pending_write iv) \<le> packed_last (inv_pending_write iv)
    \<and> clip_write (inv_code_range iv) (packed_first (inv_pending_write iv))
        (unat (packed_last (inv_pending_write iv)) + 1) \<noteq> None")
  case False
  moreover have "pending_instructions iv = {}"
  proof (cases "inv_pending_write iv = k_no_pending_write")
    case True
    then show ?thesis by (simp add: pending_instructions_def covered_no_pending)
  next
    case pending: False
    show ?thesis by (rule clip_write_nothing) (use False pending assms(4) in blast)
  qed
  ultimately show ?thesis
    by (auto simp: drained_notify_def drained_range_def touched_def invalidated_def Let_def split: option.split)
next
  case True
  then obtain start past where clip: "clip_write (inv_code_range iv)
      (packed_first (inv_pending_write iv)) (unat (packed_last (inv_pending_write iv)) + 1) = Some (start, past)"
    and order: "packed_first (inv_pending_write iv) \<le> packed_last (inv_pending_write iv)"
    and first: "packed_first (inv_pending_write iv) \<noteq> 0xFFFFFFFF"
    by auto
  have range: "unat (code_base (inv_code_range iv)) \<le> start" "start < past"
      "past \<le> code_end (inv_code_range iv)"
    using clip by (auto simp: clip_write_def Let_def split: if_splits)
  have "0 < unat (code_base (inv_code_range iv))" using assms(2) by (simp add: unat_gt_0)
  with range assms(3) have words: "unat (word_of_nat start :: u32) = start"
      "unat (word_of_nat (past - start) :: u32) = past - start"
    by - (rule unat_word_of_nat_u32; simp)+
  have "(word_of_nat (past - start) :: u32) \<noteq> 0"
    using words(2) range(2) by (metis unat_0 zero_less_diff less_numeral_extra(3))
  then show ?thesis
    using notify_ok [OF assms(1), where code = "inv_code_range iv" and address = "word_of_nat start"
        and len = "word_of_nat (past - start)" and stats = stats and x = x]
      clip order first range words clip_write_instructions [OF clip assms(3)]
    by (auto simp: drained_notify_def drained_range_def word_le_nat_alt Let_def)
qed

lemma drain_ok:
  assumes "functions_by_address xw" and "enable_keeps_functions xw"
    and "code_base (inv_code_range iv) \<noteq> 0" and "code_end (inv_code_range iv) \<le> 2 ^ 32"
    and "packed_first (inv_pending_write iv) \<noteq> 0xFFFFFFFF \<or> inv_pending_write iv = k_no_pending_write"
  shows "case drain_observed_writes xw iv stats x of (f, iv', stats', x') \<Rightarrow>
    (f = no_failure \<or> fail_error f = ExecutableWatchRearmFailed)
    \<and> iv' = iv\<lparr>inv_pending_write := k_no_pending_write\<rparr>
    \<and> invalidated xw (touched xw x (pending_instructions iv)) x x'
    \<and> stats' = stats\<lparr>st_translation_invalidations := st_translation_invalidations stats
        + word_of_nat (card (touched xw x (pending_instructions iv)))\<rparr>"
proof -
  let ?iv = "iv\<lparr>inv_pending_write := k_no_pending_write\<rparr>"
  obtain x1 where x1: "drained_notify xw iv stats x = (no_failure,
      stats\<lparr>st_translation_invalidations := st_translation_invalidations stats
        + word_of_nat (card (touched xw x (pending_instructions iv)))\<rparr>, x1)"
    "invalidated xw (touched xw x (pending_instructions iv)) x x1"
    using drained_notify_ok [OF assms(1,3,4,5)] by blast
  obtain armed x2 where x2: "rearm xw ?iv x1 = (armed, x2)" by (cases "rearm xw ?iv x1")
  then have "invalidated xw (touched xw x (pending_instructions iv)) x x2"
    using x1(2) rearm_find [OF assms(2), of _ ?iv x1] by (simp add: invalidated_def)
  moreover have "drain_observed_writes xw iv stats x =
      (case drained_notify xw iv stats x of (f, stats, x) \<Rightarrow>
        if fails f then (f, ?iv, stats, x)
        else (case rearm xw ?iv x of (armed, x) \<Rightarrow>
          if armed then (no_failure, ?iv, stats, x)
          else (failure ExecutableWatchRearmFailed
            ''Xenia refused to rearm the authenticated executable watch range'', ?iv, stats, x)))"
    by (simp add: drain_observed_writes_def drained_notify_def Let_def cong: option.case_cong)
  ultimately show ?thesis using x1(1) x2 by simp
qed

section \<open>Arming\<close>

lemma arm_ok:
  "case arm xw code iv x of (f, iv', x') \<Rightarrow>
     (if f = no_failure
      then inv_memory iv' \<and> inv_callback_handle iv' \<noteq> None \<and> inv_code_range iv' = code
        \<and> code_base code \<noteq> 0 \<and> code_size code \<noteq> 0 \<and> inv_pending_write iv' = k_no_pending_write
      else fail_error f = ExecutableWatchRegistrationFailed
        \<and> (iv' = iv \<or> \<not> inv_memory iv' \<and> inv_callback_handle iv' = None))"
  by (auto simp: arm_def Let_def disarm_def new_invalidation_def failure_def no_failure_def
      split: prod.splits option.splits if_splits)

text \<open>The packed word that stands for no write is also what a write of the last byte of the address
  space leaves as its start: a drain takes it for no write.\<close>

lemma drain_ignores_last_byte:
  assumes "packed_first (inv_pending_write iv) = 0xFFFFFFFF"
  shows "drained_notify xw iv stats x = (no_failure, stats, x)"
  using assms by (simp add: drained_notify_def drained_range_def)

lemma record_last_byte:
  assumes "inv_memory iv" and "code_end (inv_code_range iv) = 2 ^ 32"
    and "inv_pending_write iv = k_no_pending_write" and "code_size (inv_code_range iv) \<noteq> 0"
  shows "inv_pending_write (fst (record_virtual_write 0xFFFFFFFF 1 iv stats t)) =
    pack_range 0xFFFFFFFF 0xFFFFFFFF"
proof -
  have "unat (code_base (inv_code_range iv)) \<le> 4294967295"
    using unat_u32_less [of "code_base (inv_code_range iv)"] by linarith
  then show ?thesis
    using assms by (simp add: record_virtual_write_def clip_write_def merge_range_def
        no_pending_write max_def Let_def)
qed

section \<open>A concrete watch\<close>

text \<open>Functions as address ranges of whole words, for the witnesses.\<close>

definition listed_watch :: "(guest_address \<times> nat) list xenia_watch" where
  "listed_watch =
     \<lparr>xw_register = (\<lambda>x. (Some 1, x)), xw_enable = (\<lambda>_ _ _ x. (True, x)), xw_unregister = (\<lambda>_ x. x),
      xw_find_functions = (\<lambda>a x. map fst (filter (\<lambda>(f, n). unat f \<le> unat a \<and> unat a < unat f + n) x)),
      xw_remove_function = (\<lambda>f x. filter (\<lambda>(g, n). g \<noteq> f) x)\<rparr>"

lemma listed_watch_ok: "functions_by_address listed_watch" "enable_keeps_functions listed_watch"
proof -
  have "map fst (filter (\<lambda>(g, n). P g n) (filter (\<lambda>(g, n). g \<noteq> f) x)) =
      filter (\<lambda>g. g \<noteq> f) (map fst (filter (\<lambda>(g, n). P g n) x))"
    for P f and x :: "(guest_address \<times> nat) list"
    by (induction x) auto
  then show "functions_by_address listed_watch"
    by (simp add: functions_by_address_def listed_watch_def)
  show "enable_keeps_functions listed_watch"
    by (simp add: enable_keeps_functions_def listed_watch_def)
qed

section \<open>Properties\<close>

text \<open>C10: writes reported by any number of host threads, interleaved with each other, with drains and with
  disarming and arming at every atomic access, are not lost, but for a write that starts at the last byte
  of the address space: every byte of any other write exchanged since the watch was last disarmed, if it
  lies in the watched code, is still covered by the pending word, which a drain will not take for the
  empty one, or lies in a range that a drain has notified.\<close>

theorem concurrent_writes_never_lost:
  assumes "races start_race s" "(start, past) \<in> set (rac_written s)" "start \<noteq> 0xFFFFFFFF"
    and "start \<le> b" "b < past" "unat (code_base (rac_code s)) \<le> b" "b < code_end (rac_code s)"
  shows "packed_first (rac_pending s) \<noteq> 0xFFFFFFFF \<and> unat (packed_first (rac_pending s)) \<le> b
      \<and> b \<le> unat (packed_last (rac_pending s))
    \<or> (\<exists>(m, n)\<in>set (rac_notified s). m \<le> b \<and> b < n)"
proof -
  have "write_kept s (start, past)"
    using races_ok [OF assms(1) start_race_ok] assms(2,3) by (auto simp: race_ok_def)
  from this [unfolded write_kept_def] show ?thesis
  proof (elim disjE conjE)
    assume "packed_first (rac_pending s) \<noteq> 0xFFFFFFFF" "{fst (start, past)..<snd (start, past)} \<subseteq> covered (rac_pending s)"
    moreover from this(2) assms(4,5) have "b \<in> covered (rac_pending s)" by auto
    ultimately show ?thesis by (simp add: covered_def)
  next
    assume "{fst (start, past)..<snd (start, past)} \<inter> {unat (code_base (rac_code s))..<code_end (rac_code s)}
      \<subseteq> (\<Union>(m, n)\<in>set (rac_notified s). {m..<n})"
    moreover have "b \<in> {fst (start, past)..<snd (start, past)} \<inter> {unat (code_base (rac_code s))..<code_end (rac_code s)}"
      using assms(4-7) by simp
    ultimately have "b \<in> (\<Union>(m, n)\<in>set (rac_notified s). {m..<n})" by (rule subsetD)
    then show ?thesis by auto
  qed
qed

text \<open>A write is recorded under a watch on one code page, and a drain takes it.\<close>

definition sample_watch :: code_range where
  "sample_watch = \<lparr>code_base = 0x1000, code_size = 0x1000\<rparr>"

definition drained_race :: race where
  "drained_race = \<lparr>rac_code = sample_watch, rac_pending = k_no_pending_write,
     rac_writers = (\<lambda>_. Idle), rac_written = [(0x1008, 0x100C)], rac_notified = [(0x1008, 0x100C)]\<rparr>"

lemma drained_race_reached: "races start_race drained_race"
proof -
  let ?s1 = "forget_race sample_watch start_race"
  let ?s2 = "?s1\<lparr>rac_writers := (rac_writers ?s1)(1 := Trying 0x1008 0x100C k_no_pending_write)\<rparr>"
  let ?p = "merge_range k_no_pending_write (word_of_nat 0x1008) (word_of_nat (0x100C - 1))"
  let ?s3 = "?s2\<lparr>rac_pending := ?p, rac_writers := (rac_writers ?s2)(1 := Idle), rac_written := (0x1008, 0x100C) # rac_written ?s2\<rparr>"
  have p: "packed_first ?p = 0x1008" "packed_last ?p = 0x100B"
    by (simp_all add: merge_range_def no_pending_write min_def max_def)
  have step1: "race_step start_race ?s1"
    by (rule race_step.arm) (simp_all add: sample_watch_def code_end_def)
  have step2: "race_step ?s1 ?s2"
    using race_step.load [of ?s1 1 4 "0x1008" "0x1008" "0x100C"]
    by (simp add: forget_race_def start_race_def clip_write_def sample_watch_def code_end_def)
  have step3: "race_step ?s2 ?s3"
    by (rule race_step.exchange) (simp_all add: forget_race_def)
  have step4: "race_step ?s3 drained_race"
  proof -
    have "drained_range sample_watch ?p = Some (0x1008, 0x100C)"
      using p by (simp add: drained_range_def clip_write_def sample_watch_def code_end_def)
    then have "?s3\<lparr>rac_pending := k_no_pending_write, rac_notified := (case drained_range (rac_code ?s3) (rac_pending ?s3) of
        None \<Rightarrow> rac_notified ?s3 | Some taken \<Rightarrow> taken # rac_notified ?s3)\<rparr> = drained_race"
      by (simp add: drained_race_def forget_race_def start_race_def fun_eq_iff)
    with race_step.drain [of ?s3] show ?thesis by (simp only:)
  qed
  show ?thesis
    by (rule races.step [OF races.step [OF races.step [OF races.step [OF races.refl step1] step2] step3] step4])
qed

theorem concurrent_writes_never_lost_witness:
  "\<exists>(m, n)\<in>set (rac_notified drained_race). m \<le> 0x100A \<and> 0x100A < n"
proof -
  have "(0x1008, 0x100C) \<in> set (rac_written drained_race)" by (simp add: drained_race_def)
  from concurrent_writes_never_lost [OF drained_race_reached this, of "0x100A"] show ?thesis
    by (simp add: drained_race_def sample_watch_def code_end_def no_pending_write)
qed

text \<open>The excluded write is lost: recorded alone, a drain takes its word for the empty one.\<close>

lemma last_byte_write_is_lost:
  "\<exists>s. races start_race s \<and> (0xFFFFFFFF, 2 ^ 32) \<in> set (rac_written s) \<and> code_end (rac_code s) = 2 ^ 32
     \<and> rac_pending s = k_no_pending_write \<and> rac_notified s = []"
proof -
  let ?code = "\<lparr>code_base = 0xFFFF0000, code_size = 0x10000\<rparr>"
  let ?s1 = "forget_race ?code start_race"
  let ?s2 = "?s1\<lparr>rac_writers := (rac_writers ?s1)(1 := Trying 0xFFFFFFFF (2 ^ 32) k_no_pending_write)\<rparr>"
  let ?p = "merge_range k_no_pending_write (word_of_nat 0xFFFFFFFF) (word_of_nat (2 ^ 32 - 1))"
  let ?s3 = "?s2\<lparr>rac_pending := ?p, rac_writers := (rac_writers ?s2)(1 := Idle), rac_written := (0xFFFFFFFF, 2 ^ 32) # rac_written ?s2\<rparr>"
  let ?s4 = "?s3\<lparr>rac_pending := k_no_pending_write\<rparr>"
  have "packed_first ?p = 0xFFFFFFFF" by (simp add: merge_range_def no_pending_write)
  then have drained: "drained_range ?code ?p = None" by (simp add: drained_range_def)
  have step1: "race_step start_race ?s1" by (rule race_step.arm) (simp_all add: code_end_def)
  have step2: "race_step ?s1 ?s2"
    using race_step.load [of ?s1 1 1 "0xFFFFFFFF" "0xFFFFFFFF" "2 ^ 32"]
    by (simp add: forget_race_def start_race_def clip_write_def code_end_def)
  have step3: "race_step ?s2 ?s3" by (rule race_step.exchange) (simp_all add: forget_race_def)
  have step4: "race_step ?s3 ?s4"
    using race_step.drain [of ?s3] drained by (simp add: forget_race_def start_race_def)
  have "races start_race ?s4"
    by (rule races.step [OF races.step [OF races.step [OF races.step [OF races.refl step1] step2] step3] step4])
  then show ?thesis by (intro exI [where x = ?s4]) (simp add: forget_race_def code_end_def)
qed



text \<open>Notifying an explicit write removes exactly the functions that contain one of its words, each
  counted once, and refuses an empty write or one outside the code without touching anything.\<close>

lemma notify_removes_written_functions:
  assumes "functions_by_address xw"
  shows "case notify xw code address len stats x of (f, stats', x') \<Rightarrow>
    if len \<noteq> 0 \<and> code_base code \<le> address \<and> unat address + unat len \<le> code_end code
    then (let gone = touched xw x {i. 4 dvd i \<and> unat address < i + 4 \<and> i < unat address + unat len} in
      f = no_failure \<and> invalidated xw gone x x'
      \<and> stats' = stats\<lparr>st_translation_invalidations :=
          st_translation_invalidations stats + word_of_nat (card gone)\<rparr>)
    else fail_error f = ExecutableRangeInvalid \<and> stats' = stats \<and> x' = x"
  using notify_ok [OF assms, where code = code and address = address and len = len
    and stats = stats and x = x] by (simp only: written_instructions_eq)

theorem notify_removes_written_functions_witness:
  "fst (notify listed_watch \<lparr>code_base = 0x82000000, code_size = 16\<rparr> 0x82000006 4 no_statistics
     [(0x82000000, 8), (0x82000008, 8)]) = no_failure"
  using notify_removes_written_functions [OF listed_watch_ok(1),
    where code = "\<lparr>code_base = 0x82000000, code_size = 16\<rparr>" and address = "0x82000006"
      and len = 4 and stats = no_statistics and x = "[(0x82000000, 8), (0x82000008, 8)]"]
  by (simp add: code_end_def split_beta Let_def)

text \<open>Arming either leaves the watch registered on the code range with nothing pending, or refuses
  with a registration failure; a refused watch is left as it was or not registered at all.\<close>

lemma arm_registers_or_refuses:
  "case arm xw code iv x of (f, iv', x') \<Rightarrow>
     (if f = no_failure
      then inv_memory iv' \<and> inv_callback_handle iv' \<noteq> None \<and> inv_code_range iv' = code
        \<and> code_base code \<noteq> 0 \<and> code_size code \<noteq> 0 \<and> inv_pending_write iv' = k_no_pending_write
      else fail_error f = ExecutableWatchRegistrationFailed
        \<and> (iv' = iv \<or> \<not> inv_memory iv' \<and> inv_callback_handle iv' = None))"
  by (rule arm_ok)

end
