(* ===== verification/Runtime.thy ===== *)
theory Runtime imports Runtime_Imports Override_Dispatch Device_Dispatch Guest_Thread Instance_Lease Interpreter_Fallback Executable_Invalidation begin

text \<open>
  The runtime: \<open>RuntimeContext\<close> of \<open>src/runtime.cpp\<close>, which owns the other parts, loads one
  authenticated image, routes calls to overrides, translated code or the interpreter, and tears
  everything down.

  All of Xenia is one parameter (\<open>xenia\<close>) over its state \<open>'x\<close>. The thread's world holds that state
  with what guest code can change besides it: the write observation and the statistics. Handlers and
  resolvers are host code. Running out of host memory, which C++ reports by an exception, is not
  modelled; the code's \<open>catch\<close> clauses only mark the context as failed and pass it on.
\<close>

section \<open>Xenia\<close>

record 'x runtime_world =
  rw_xenia :: 'x
  rw_invalidation :: "invalidation option"
  rw_statistics :: jit_statistics

type_synonym 'x runtime_thread = "'x runtime_world thread_state"

record 'x xenia =
  xn_memory :: "'x xenia_memory"
  xn_linker :: "'x xenia_linker"
  xn_watch :: "'x xenia_watch"
  xn_redirects :: "'x xenia_redirects"
  xn_devices :: "'x xenia_devices"
  xn_processor :: "'x runtime_world xenia_processor"
  xn_initialize_memory :: "'x \<Rightarrow> bool \<times> 'x"
  xn_setup_processor :: "'x \<Rightarrow> bool \<times> 'x"
  xn_pre_launch :: "'x \<Rightarrow> 'x"
  xn_alloc_fixed :: "nat \<Rightarrow> guest_address \<Rightarrow> u32 \<Rightarrow> 'x \<Rightarrow> bool \<times> 'x"
  xn_heap_release :: "nat \<Rightarrow> guest_address \<Rightarrow> 'x \<Rightarrow> 'x"
  xn_add_module :: "code_range \<Rightarrow> 'x \<Rightarrow> bool \<times> 'x"

section \<open>State\<close>

text \<open>
  The pointers \<open>memory_\<close>, \<open>processor_\<close>, \<open>fault_guard_\<close> and \<open>module_\<close> are whether they are set.
  \<open>rt_owner\<close> identifies the lease object.
\<close>

record ('x, 'c, 'r, 'v) runtime =
  rt_owner :: nat
  rt_load_failed :: bool
  rt_memory :: bool
  rt_guest_memory :: guest_memory
  rt_processor :: bool
  rt_guest_thread :: guest_thread
  rt_fault_guard :: bool
  rt_imports :: "(('x runtime_world, 'c) import_handler, 'c) owned_table list option"
  rt_module :: bool
  rt_code_range :: code_range
  rt_image_address :: guest_address
  rt_overrides :: "(('x runtime_world, 'c) override_handler, 'c, 'x runtime_world failure_sink) override_dispatch"
  rt_devices :: "('r, 'v, 'c) device_range list"
  rt_thread :: "'x runtime_thread"

definition fresh_thread :: "'x \<Rightarrow> 'x runtime_thread" where
  "fresh_thread x = \<lparr>thr_context = \<lparr>ppc_r = (\<lambda>_. 0), ppc_lr = 0, ppc_execution_budget = None\<rparr>,
     thr_active_budget = None, thr_active_refusal = None, thr_active_failure = None, thr_objects = [],
     thr_world = \<lparr>rw_xenia = x, rw_invalidation = None, rw_statistics = no_statistics\<rparr>\<rparr>"

definition new_runtime :: "nat \<Rightarrow> 'x \<Rightarrow> ('x, 'c, 'r, 'v) runtime" where
  "new_runtime owner x = \<lparr>rt_owner = owner, rt_load_failed = False, rt_memory = False,
     rt_guest_memory = new_guest_memory, rt_processor = False, rt_guest_thread = new_guest_thread,
     rt_fault_guard = False, rt_imports = None, rt_module = False, rt_code_range = no_code_range,
     rt_image_address = 0, rt_overrides = new_override_dispatch, rt_devices = [],
     rt_thread = fresh_thread x\<rparr>"

definition thread_xenia :: "'x runtime_thread \<Rightarrow> 'x" where
  "thread_xenia t = rw_xenia (thr_world t)"

definition with_xenia :: "'x \<Rightarrow> 'x runtime_thread \<Rightarrow> 'x runtime_thread" where
  "with_xenia x t = t\<lparr>thr_world := (thr_world t)\<lparr>rw_xenia := x\<rparr>\<rparr>"

definition with_statistics :: "jit_statistics \<Rightarrow> 'x runtime_thread \<Rightarrow> 'x runtime_thread" where
  "with_statistics st t = t\<lparr>thr_world := (thr_world t)\<lparr>rw_statistics := st\<rparr>\<rparr>"

abbreviation rt_xenia :: "('x, 'c, 'r, 'v) runtime \<Rightarrow> 'x" where
  "rt_xenia rt \<equiv> thread_xenia (rt_thread rt)"

definition set_xenia :: "'x \<Rightarrow> ('x, 'c, 'r, 'v) runtime \<Rightarrow> ('x, 'c, 'r, 'v) runtime" where
  "set_xenia x rt = rt\<lparr>rt_thread := with_xenia x (rt_thread rt)\<rparr>"

definition set_invalidation ::
  "invalidation option \<Rightarrow> ('x, 'c, 'r, 'v) runtime \<Rightarrow> ('x, 'c, 'r, 'v) runtime" where
  "set_invalidation iv rt = rt\<lparr>rt_thread := (rt_thread rt)
     \<lparr>thr_world := (thr_world (rt_thread rt))\<lparr>rw_invalidation := iv\<rparr>\<rparr>\<rparr>"

section \<open>Initialize and the destructor\<close>

definition runtime_initialize ::
  "'x xenia \<Rightarrow> leases \<Rightarrow> ('x, 'c, 'r, 'v) runtime \<Rightarrow>
   runtime_failure \<times> leases \<times> ('x, 'c, 'r, 'v) runtime" where
  "runtime_initialize xn ls rt =
     (case acquire_lease (rt_owner rt) ls of (acquired, ls) \<Rightarrow>
      if \<not> acquired
      then (failure InstanceAlreadyActive
        ''Xenia guest memory uses a process-wide fixed mapping; only one x360port runtime or system session may be active'',
        ls, rt)
      else (case xn_initialize_memory xn (rt_xenia rt) of (ok, x) \<Rightarrow>
       (let rt = set_xenia x (rt\<lparr>rt_memory := True\<rparr>) in
        if \<not> ok
        then (failure MemoryInitializationFailed
          ''Xenia Memory::Initialize refused its guest address-space mapping'', ls, rt)
        else (case xn_setup_processor xn x of (ok, x) \<Rightarrow>
         (let rt = set_xenia x (rt\<lparr>rt_guest_memory := gm_initialize (rt_guest_memory rt),
                rt_processor := True\<rparr>) in
          if \<not> ok
          then (failure BackendInitializationFailed
            ''Xenia Processor::Setup refused the host dynarec backend'', ls, rt)
          else (case thread_initialize (xn_memory xn) (rt_guest_thread rt) x of (f, th, x) \<Rightarrow>
           (let rt = set_xenia x (rt\<lparr>rt_fault_guard := True, rt_guest_thread := th\<rparr>) in
            if fails f then (f, ls, rt)
            else (no_failure, ls, set_xenia (xn_pre_launch xn x) rt))))))))"

definition release_image :: "'x xenia \<Rightarrow> ('x, 'c, 'r, 'v) runtime \<Rightarrow> 'x \<Rightarrow> 'x" where
  "release_image xn rt x =
     (if rt_memory rt \<and> rt_image_address rt \<noteq> 0
      then (case xm_lookup_heap (xn_memory xn) (rt_image_address rt) of
          Some heap \<Rightarrow> xn_heap_release xn heap (rt_image_address rt) x
        | None \<Rightarrow> x)
      else x)"

definition disarm_invalidation :: "'x xenia \<Rightarrow> invalidation option \<Rightarrow> 'x \<Rightarrow> 'x" where
  "disarm_invalidation xn iv x =
     (case iv of Some iv \<Rightarrow> snd (disarm (xn_watch xn) iv x) | None \<Rightarrow> x)"

definition destroy_runtime ::
  "'x xenia \<Rightarrow> leases \<Rightarrow> ('x, 'c, 'r, 'v) runtime \<Rightarrow> leases \<times> 'x" where
  "destroy_runtime xn ls rt =
     (let x = snd (thread_reset (xn_memory xn) (rt_guest_thread rt) (rt_xenia rt));
          x = release_image xn rt x;
          x = snd (gm_reset (xn_memory xn) (rt_guest_memory rt) x);
          x = disarm_invalidation xn (rw_invalidation (thr_world (rt_thread rt))) x
      in (release_lease (rt_owner rt) ls, x))"

text \<open>\<open>Create\<close>: a failed initialization destroys the half-built context at once.\<close>

definition runtime_create ::
  "'x xenia \<Rightarrow> nat \<Rightarrow> leases \<Rightarrow> 'x \<Rightarrow>
   runtime_failure \<times> leases \<times> (('x, 'c, 'r, 'v) runtime + 'x)" where
  "runtime_create xn owner ls x =
     (case runtime_initialize xn ls (new_runtime owner x) of (f, ls, rt) \<Rightarrow>
        if fails f then (case destroy_runtime xn ls rt of (ls, x) \<Rightarrow> (f, ls, Inr x))
        else (no_failure, ls, Inl (rt\<lparr>rt_overrides := bind_overrides None (rt_overrides rt)\<rparr>)))"

section \<open>LoadModule\<close>

text \<open>\<open>GuestRangeReservation\<close>: the range is released when the scope ends without \<open>Commit\<close>.\<close>

definition drop_reservation ::
  "'x xenia \<Rightarrow> nat \<times> guest_address \<Rightarrow> ('x, 'c, 'r, 'v) runtime \<Rightarrow> ('x, 'c, 'r, 'v) runtime" where
  "drop_reservation xn reservation rt =
     set_xenia (xn_heap_release xn (fst reservation) (snd reservation) (rt_xenia rt)) rt"

text \<open>What follows the allocation of the image; the flag says whether the reservation was committed.\<close>

definition load_image ::
  "'x xenia \<Rightarrow> guest_module \<Rightarrow> (('x runtime_world, 'c) import_handler, 'c) owned_table list \<Rightarrow>
   ('x, 'c, 'r, 'v) runtime \<Rightarrow> bool \<times> runtime_failure \<times> ('x, 'c, 'r, 'v) runtime" where
  "load_image xn module tables rt =
     (let descriptor = mod_descriptor module;
          x = xm_store (xn_memory xn) (img_base (desc_image descriptor)) (mod_image_bytes module) (rt_xenia rt) in
      case attach_imports (xn_memory xn) (xn_linker xn) tables x of (f, tables, x) \<Rightarrow>
       (let rt = set_xenia x (rt\<lparr>rt_imports := Some tables\<rparr>) in
        if fails f then (False, f, rt\<lparr>rt_load_failed := True\<rparr>)
        else (case xn_add_module xn (desc_code descriptor) x of (added, x) \<Rightarrow>
         (let rt = set_xenia x rt in
          if \<not> added
          then (False, failure ModuleRegistrationFailed
            ''Xenia refused the authenticated RawModule registration'', rt\<lparr>rt_load_failed := True\<rparr>)
          else (case arm (xn_watch xn) (desc_code descriptor) new_invalidation x of (f, iv, x) \<Rightarrow>
           (let rt = set_invalidation (Some iv) (set_xenia x (rt\<lparr>rt_module := True,
                  rt_code_range := desc_code descriptor,
                  rt_image_address := img_base (desc_image descriptor)\<rparr>)) in
            if fails f then (False, f, rt\<lparr>rt_load_failed := True\<rparr>) else (True, no_failure, rt)))))))"

definition load_module ::
  "'x xenia \<Rightarrow> ('s \<Rightarrow> 'c option \<Rightarrow> guest_address) \<Rightarrow> guest_module \<Rightarrow>
   (('x runtime_world, 'c) import_handler, 's, 'c) import_binding list \<Rightarrow> ('x, 'c, 'r, 'v) runtime \<Rightarrow>
   (runtime_failure \<times> ('x, 'c, 'r, 'v) runtime) option" where
  "load_module xn resolve module bindings rt =
     (if rt_load_failed rt
      then Some (failure LoadStateInvalid
        ''a previous import/module attachment failed; recreate the context'', rt)
      else if rt_module rt
      then Some (failure ModuleAlreadyLoaded
        ''a RuntimeContext owns exactly one authenticated guest image'', rt)
      else (let v = validate_module module in
       if \<not> accepted v
       then Some (failure ModuleValidationFailed
         (validation_error_name (val_error v) @ '': '' @ val_detail v), rt)
       else (let v = validate_imports module bindings in
        if \<not> accepted v
        then Some (failure ImportValidationFailed
          (validation_error_name (val_error v) @ '': '' @ val_detail v), rt)
        else (case create_imports resolve (mod_import_manifest module) bindings of
            None \<Rightarrow> None
          | Some (Inl f) \<Rightarrow> Some (f, rt)
          | Some (Inr tables) \<Rightarrow>
             (let image_id = desc_image (mod_descriptor module);
                  refused = failure ImageAllocationFailed
                    ''Xenia refused the authenticated image's exact guest range'' in
              case xm_lookup_heap (xn_memory xn) (img_base image_id) of
                None \<Rightarrow> Some (refused, rt)
              | Some heap \<Rightarrow>
                  (case xn_alloc_fixed xn heap (img_base image_id) (img_size image_id) (rt_xenia rt) of
                    (allocated, x) \<Rightarrow>
                     (let rt = set_xenia x rt in
                      if \<not> allocated then Some (refused, rt)
                      else (case load_image xn module tables rt of (committed, f, rt) \<Rightarrow>
                        Some (f, if committed then rt
                          else drop_reservation xn (heap, img_base image_id) rt)))))))))"

section \<open>Overrides, devices, writes\<close>

definition runtime_install_override ::
  "'x xenia \<Rightarrow> guest_address \<Rightarrow> ('x runtime_world, 'c) override_handler option \<Rightarrow> 'c option \<Rightarrow>
   ('x, 'c, 'r, 'v) runtime \<Rightarrow> runtime_failure \<times> ('x, 'c, 'r, 'v) runtime" where
  "runtime_install_override xn address handler context rt =
     (if \<not> rt_module rt
      then (failure LoadStateInvalid ''native overrides require an authenticated image to be loaded'', rt)
      else (case install_override (xn_redirects xn) address handler context (rt_code_range rt)
          (rt_overrides rt) (rt_xenia rt) of
        (f, ovd, x) \<Rightarrow> (f, set_xenia x (rt\<lparr>rt_overrides := ovd\<rparr>))))"

definition runtime_remove_override ::
  "'x xenia \<Rightarrow> guest_address \<Rightarrow> ('x, 'c, 'r, 'v) runtime \<Rightarrow> runtime_failure \<times> ('x, 'c, 'r, 'v) runtime" where
  "runtime_remove_override xn address rt =
     (case remove_override (xn_redirects xn) address (rt_overrides rt) (rt_xenia rt) of
        (f, ovd, x) \<Rightarrow> (f, set_xenia x (rt\<lparr>rt_overrides := ovd\<rparr>)))"

definition runtime_register_device ::
  "'x xenia \<Rightarrow> ('r, 'v, 'c) device_request \<Rightarrow> ('x, 'c, 'r, 'v) runtime \<Rightarrow>
   runtime_failure \<times> ('x, 'c, 'r, 'v) runtime" where
  "runtime_register_device xn req rt =
     (case register_device (xn_devices xn) req (rt_devices rt) (rt_xenia rt) of
        (f, ranges, x) \<Rightarrow> (f, set_xenia x (rt\<lparr>rt_devices := ranges\<rparr>)))"

definition notify_executable_write ::
  "'x xenia \<Rightarrow> guest_address \<Rightarrow> u32 \<Rightarrow> ('x, 'c, 'r, 'v) runtime \<Rightarrow>
   runtime_failure \<times> ('x, 'c, 'r, 'v) runtime" where
  "notify_executable_write xn address n rt =
     (case rw_invalidation (thr_world (rt_thread rt)) of
        None \<Rightarrow> (failure LoadStateInvalid
          ''executable writes require an authenticated image to be loaded'', rt)
      | Some iv \<Rightarrow>
          (case notify (xn_watch xn) (rt_code_range rt) address n
              (rw_statistics (thr_world (rt_thread rt))) (rt_xenia rt) of
            (f, st, x) \<Rightarrow>
              (f, rt\<lparr>rt_thread := with_statistics st (with_xenia x (rt_thread rt))\<rparr>)))"

section \<open>Executing the guest\<close>

text \<open>
  \<open>ExecuteOriginal\<close> on the thread, so that a handler can be given it: draining the observed writes,
  entering translated code or the interpreter, and the counters.
\<close>

definition drain_thread ::
  "'x xenia \<Rightarrow> 'x runtime_thread \<Rightarrow> runtime_failure \<times> 'x runtime_thread" where
  "drain_thread xn t =
     (case rw_invalidation (thr_world t) of
        None \<Rightarrow> (no_failure, t)
      | Some iv \<Rightarrow>
          (case drain_observed_writes (xn_watch xn) iv (rw_statistics (thr_world t)) (thread_xenia t) of
            (f, iv, st, x) \<Rightarrow> (f, t\<lparr>thr_world :=
              \<lparr>rw_xenia = x, rw_invalidation = Some iv, rw_statistics = st\<rparr>\<rparr>)))"

definition account_result :: "execution_result \<Rightarrow> jit_statistics \<Rightarrow> jit_statistics" where
  "account_result r st =
     (let e = fail_error (exr_failure r);
          st = (if e = ExecutionBudgetExceeded
            then st\<lparr>st_execution_budget_exhaustions := st_execution_budget_exhaustions st + 1\<rparr> else st);
          st = (if e = ExecutionInvalidated
            then st\<lparr>st_execution_invalidations := st_execution_invalidations st + 1\<rparr> else st);
          st = (if e = ImportServiceRefused
            then st\<lparr>st_import_service_refusals := st_import_service_refusals st + 1\<rparr> else st);
          st = (if e = GuestAccessViolation
            then st\<lparr>st_guest_access_violations := st_guest_access_violations st + 1\<rparr> else st)
      in if succeeds r then st\<lparr>st_execution_calls := st_execution_calls st + 1\<rparr> else st)"

definition count_translation :: "u64 \<Rightarrow> jit_statistics \<Rightarrow> jit_statistics" where
  "count_translation n st = st\<lparr>st_translated_functions := st_translated_functions st + 1,
     st_emitted_host_bytes := st_emitted_host_bytes st + n\<rparr>"

definition count_translation_failure :: "jit_statistics \<Rightarrow> jit_statistics" where
  "count_translation_failure st = st\<lparr>st_translation_failures := st_translation_failures st + 1\<rparr>"

definition update_statistics ::
  "(jit_statistics \<Rightarrow> jit_statistics) \<Rightarrow> 'x runtime_thread \<Rightarrow> 'x runtime_thread" where
  "update_statistics g t = with_statistics (g (rw_statistics (thr_world t))) t"

definition execute_original ::
  "'x xenia \<Rightarrow> bool \<Rightarrow> code_range \<Rightarrow> guest_address \<Rightarrow> u64 list \<Rightarrow> execution_limits \<Rightarrow> 'x runtime_thread \<Rightarrow>
   (execution_result \<times> 'x runtime_thread) option" where
  "execute_original xn loaded code address arguments limits t =
     (case drain_thread xn t of (f, t) \<Rightarrow>
      if fails f then Some (refused_call f, t)
      else if \<not> (loaded \<and> range_contains code address)
      then Some (refused_call (failure EntryOutsideCode
        ''guest entry is outside the authenticated executable range''), t)
      else (let cached = xp_query_function (xn_processor xn) address (thr_world t);
                had_machine_code = is_translated cached in
       case xp_resolve_function (xn_processor xn) address (thr_world t) of (function, w) \<Rightarrow>
        (let t = t\<lparr>thr_world := w\<rparr> in
         case (if is_translated function then function else None) of
           None \<Rightarrow>
             Some (execute_interpreter_fallback update_statistics (xn_processor xn) address arguments limits
               (update_statistics count_translation_failure t))
         | Some g \<Rightarrow>
             (let t = (if \<not> had_machine_code
                then update_statistics (count_translation (gfn_machine_code_length g)) t else t) in
              do {
                rt \<leftarrow> execute_guest_function (gfn_call g) arguments limits t;
                Some (fst rt, update_statistics (account_result (fst rt)) (snd rt)) }))))"

definition call_original ::
  "'x xenia \<Rightarrow> bool \<Rightarrow> code_range \<Rightarrow> guest_address \<Rightarrow> u64 list \<Rightarrow> execution_limits \<Rightarrow> 'x runtime_thread \<Rightarrow>
   (execution_result \<times> 'x runtime_thread) option" where
  "call_original xn loaded code address arguments limits t =
     execute_original xn loaded code address arguments limits
       (update_statistics (\<lambda>st. st\<lparr>st_original_calls := st_original_calls st + 1\<rparr>) t)"

text \<open>The limits of a call that names none.\<close>

definition default_limits :: execution_limits where
  "default_limits = \<lparr>lim_max_guest_blocks = 1000000, lim_max_interpreter_instructions = 100000\<rparr>"

definition call_original_body ::
  "'x xenia \<Rightarrow> bool \<Rightarrow> code_range \<Rightarrow> guest_address \<Rightarrow> u64 list \<Rightarrow> 'x runtime_thread \<Rightarrow>
   (execution_result \<times> 'x runtime_thread) option" where
  "call_original_body xn loaded code address arguments t =
     call_original xn loaded code address arguments default_limits t"

text \<open>A null handler cannot be in the table; calling one is undefined behaviour.\<close>

definition runtime_execute ::
  "'x xenia \<Rightarrow> guest_address \<Rightarrow> u64 list \<Rightarrow> execution_limits \<Rightarrow> ('x, 'c, 'r, 'v) runtime \<Rightarrow>
   (execution_result \<times> ('x, 'c, 'r, 'v) runtime) option" where
  "runtime_execute xn address arguments limits rt =
     (case find_override (rt_overrides rt) address of
        Some entry \<Rightarrow>
          (let t = update_statistics count_native_override (rt_thread rt) in
           case ovr_handler entry of
             None \<Rightarrow> None
           | Some handler \<Rightarrow> do {
               r \<leftarrow> handler address arguments (ovr_context entry) (t, rw_statistics (thr_world t));
               Some (fst r, rt\<lparr>rt_thread := with_statistics (snd (snd r)) (fst (snd r))\<rparr>) })
      | None \<Rightarrow> do {
          r \<leftarrow> execute_original xn (rt_module rt) (rt_code_range rt) address arguments limits (rt_thread rt);
          Some (fst r, rt\<lparr>rt_thread := snd r\<rparr>) })"

definition runtime_call_original ::
  "'x xenia \<Rightarrow> guest_address \<Rightarrow> u64 list \<Rightarrow> execution_limits \<Rightarrow> ('x, 'c, 'r, 'v) runtime \<Rightarrow>
   (execution_result \<times> ('x, 'c, 'r, 'v) runtime) option" where
  "runtime_call_original xn address arguments limits rt = do {
     r \<leftarrow> call_original xn (rt_module rt) (rt_code_range rt) address arguments limits (rt_thread rt);
     Some (fst r, rt\<lparr>rt_thread := snd r\<rparr>) }"

section \<open>Guest memory\<close>

definition allocate_guest_memory ::
  "'x xenia \<Rightarrow> u32 \<Rightarrow> ('x, 'c, 'r, 'v) runtime \<Rightarrow>
   guest_memory_allocation_result \<times> ('x, 'c, 'r, 'v) runtime" where
  "allocate_guest_memory xn n rt =
     (case gm_allocate (xn_memory xn) n (rt_guest_memory rt) (rt_xenia rt) of
        (r, gm, x) \<Rightarrow> (r, set_xenia x (rt\<lparr>rt_guest_memory := gm\<rparr>)))"

definition read_guest_memory ::
  "'x xenia \<Rightarrow> guest_address \<Rightarrow> bytes \<Rightarrow> ('x, 'c, 'r, 'v) runtime \<Rightarrow> runtime_failure \<times> bytes" where
  "read_guest_memory xn a dst rt = gm_read (xn_memory xn) (rt_guest_memory rt) a dst (rt_xenia rt)"

definition write_guest_memory ::
  "'x xenia \<Rightarrow> guest_address \<Rightarrow> bytes \<Rightarrow> ('x, 'c, 'r, 'v) runtime \<Rightarrow>
   runtime_failure \<times> ('x, 'c, 'r, 'v) runtime" where
  "write_guest_memory xn a bs rt =
     (case gm_write (xn_memory xn) (rt_guest_memory rt) a bs (rt_xenia rt) of (f, x) \<Rightarrow> (f, set_xenia x rt))"

definition read_mapped_guest_memory ::
  "'x xenia \<Rightarrow> guest_address \<Rightarrow> bytes \<Rightarrow> ('x, 'c, 'r, 'v) runtime \<Rightarrow> runtime_failure \<times> bytes" where
  "read_mapped_guest_memory xn a dst rt =
     gm_read_mapped (xn_memory xn) (rt_guest_memory rt) a dst (rt_xenia rt)"

definition write_mapped_guest_memory ::
  "'x xenia \<Rightarrow> guest_address \<Rightarrow> bytes \<Rightarrow> ('x, 'c, 'r, 'v) runtime \<Rightarrow>
   runtime_failure \<times> ('x, 'c, 'r, 'v) runtime" where
  "write_mapped_guest_memory xn a bs rt =
     (case gm_write_mapped (xn_memory xn) (rt_guest_memory rt) a bs (rt_xenia rt) of
        (f, x) \<Rightarrow> (f, set_xenia x rt))"

definition release_guest_memory ::
  "'x xenia \<Rightarrow> guest_memory_allocation \<Rightarrow> ('x, 'c, 'r, 'v) runtime \<Rightarrow>
   runtime_failure \<times> ('x, 'c, 'r, 'v) runtime" where
  "release_guest_memory xn a rt =
     (case gm_release (xn_memory xn) a (rt_guest_memory rt) (rt_xenia rt) of
        (f, gm, x) \<Rightarrow> (f, set_xenia x (rt\<lparr>rt_guest_memory := gm\<rparr>)))"

end
