(* ===== verification/Loaded_Image.thy ===== *)
theory Loaded_Image imports Runtime begin

text \<open>
  What a loaded image holds in guest memory: the module's bytes, but where the attached imports wrote their
  thunks and records, and import tables that find exactly the manifest's exports. \<open>Runtime_Lifecycle\<close> uses
  it for the outcome of \<open>LoadModule\<close>.
\<close>

section \<open>The tables after Attach\<close>

definition marked :: "('h, 'c) owned_export \<Rightarrow> ('h, 'c) owned_export" where
  "marked e = e\<lparr>oe_memory := True\<rparr>"

lemma attach_exports_marks:
  "attach_exports xm xl l ti j es x = (f, es', x') \<Longrightarrow> \<not> fails f \<Longrightarrow> es' = map marked es"
  by (induction es arbitrary: j x es') (auto simp: Let_def marked_def split: prod.splits if_splits)

lemma attach_tables_marks:
  "attach_tables xm xl ti ts x = (f, ts', x') \<Longrightarrow> \<not> fails f \<Longrightarrow>
     ts' = map (\<lambda>t. t\<lparr>ot_exports := map marked (ot_exports t)\<rparr>) ts"
  by (induction ts arbitrary: ti x ts') (auto simp: Let_def dest: attach_exports_marks split: prod.splits if_splits)

lemma lookup_marked:
  assumes "list_all table_ok ts"
  shows "lookup_export (map (\<lambda>t. t\<lparr>ot_exports := map marked (ot_exports t)\<rparr>) ts) l k =
    map_option marked (lookup_export ts l k)"
  using assms
proof (induction ts)
  case (Cons t ts)
  have "table_export (t\<lparr>ot_exports := map marked (ot_exports t)\<rparr>) k = map_option marked (table_export t k)"
  proof (cases "k < length (ot_by_ordinal t)")
    case True
    then have "ot_by_ordinal t ! k \<in> set (ot_by_ordinal t)" by simp
    with Cons.prems True show ?thesis
      by (cases "ot_by_ordinal t ! k") (auto simp: table_export_def table_ok_def)
  qed (simp add: table_export_def)
  with Cons show ?case by (simp add: lookup_export_def)
qed (simp add: lookup_export_def)

text \<open>The exports of the tables are those of the manifest, in its order.\<close>

lemma add_export_exports:
  "concat (map ot_exports (add_export ordinal e tables)) = concat (map ot_exports tables) @ [e]"
  by (cases tables rule: rev_cases) (simp_all add: add_export_eq add_to_table_def Let_def)

lemma create_loop_exports:
  "list_all2 binding_fits reqs bs \<Longrightarrow> create_loop resolve reqs bs tables = Some (Inr tables') \<Longrightarrow>
     concat (map ot_exports tables') = concat (map ot_exports tables) @ map (export_of resolve) (zip reqs bs)"
proof (induction arbitrary: tables rule: list_all2_induct)
  case (Cons req reqs b bs)
  from Cons.prems have "create_loop resolve reqs bs
      (add_export (unat (imp_ordinal req)) (export_of resolve (req, b)) tables) = Some (Inr tables')"
    by (auto simp: create_loop_step [OF Cons.hyps(1)] simp del: create_loop.simps split: if_splits)
  from Cons.IH [OF this] show ?case by (simp add: add_export_exports)
qed simp

lemma created_tables:
  assumes "list_all2 binding_fits reqs bs" "sorted_wrt (<) (map import_key_of reqs)"
    and "create_imports resolve reqs bs = Some (Inr tables)"
  shows "list_all table_ok tables"
    and "lookup_export tables l k = map_option (export_of resolve) (find (keyed l k) (zip reqs bs))"
    and "concat (map ot_exports tables) = map (export_of resolve) (zip reqs bs)"
proof -
  have "tables_ok []" by (simp add: tables_ok_def)
  then have "tables_ok tables \<and> (\<forall>l k. lookup_export tables l k =
      (case find (keyed l k) (zip reqs bs) of Some rb \<Rightarrow> Some (export_of resolve rb) | None \<Rightarrow> lookup_export [] l k))"
    using create_loop_ok [OF assms(1,2), of "[]" resolve] assms(3) by (auto simp: create_imports_def)
  then show "list_all table_ok tables"
    and "lookup_export tables l k = map_option (export_of resolve) (find (keyed l k) (zip reqs bs))"
    by (auto simp: tables_ok_def lookup_export_def split: option.splits)
  show "concat (map ot_exports tables) = map (export_of resolve) (zip reqs bs)"
    using create_loop_exports [OF assms(1), of resolve "[]" tables] assms(3) by (simp add: create_imports_def)
qed

section \<open>The bytes\<close>

text \<open>What one import of the manifest puts into the image: a function the four words of its thunk, a variable
  the address it resolved to.\<close>

definition import_writes ::
  "('r \<Rightarrow> 'c option \<Rightarrow> guest_address) \<Rightarrow> import_requirement \<times> ('h, 'r, 'c) import_binding \<Rightarrow>
   (guest_address \<times> bytes) list" where
  "import_writes resolve rb =
     (let req = fst rb in
      if imp_kind req = Function
      then [(imp_address req, be_bytes32 0x44000042), (imp_address req + 4, be_bytes32 0x4E800020),
        (imp_address req + 8, be_bytes32 0x60000000), (imp_address req + 12, be_bytes32 0x60000000)]
      else [(imp_record_address req, be_bytes32 (resolved_of resolve rb))])"

definition manifest_writes ::
  "('r \<Rightarrow> 'c option \<Rightarrow> guest_address) \<Rightarrow> guest_module \<Rightarrow> ('h, 'r, 'c) import_binding list \<Rightarrow>
   (guest_address \<times> bytes) list" where
  "manifest_writes resolve module bindings =
     concat (map (import_writes resolve) (zip (mod_import_manifest module) bindings))"

text \<open>Every byte of the image no import writes is the module's, and every import's words are there, unless the
  imports overlap.\<close>

definition image_in_memory ::
  "'x xenia_memory \<Rightarrow> guest_module \<Rightarrow> (guest_address \<times> bytes) list \<Rightarrow> 'x \<Rightarrow> bool" where
  "image_in_memory xm module ws x \<longleftrightarrow>
     (let base = img_base (desc_image (mod_descriptor module)); img_bytes = mod_image_bytes module in
      (\<forall>i<length img_bytes. (\<forall>(a, bs)\<in>set ws. unat base + i \<notin> span_of a (length bs)) \<longrightarrow>
         xm_load xm (base + word_of_nat i) 1 x = [img_bytes ! i])
      \<and> (sorted_wrt writes_apart ws \<longrightarrow> (\<forall>(a, bs)\<in>set ws. xm_load xm a (length bs) x = bs)))"

text \<open>What the code relies on: Xenia's memory keeps what is stored, its linker, module table and watch leave the
  guest's bytes alone, a mapped variable is found again, and an image lies in one heap.\<close>

definition loader_keeps_bytes :: "'x xenia \<Rightarrow> bool" where
  "loader_keeps_bytes xn \<longleftrightarrow>
     (\<forall>c. linker_keeps (xn_memory xn) (\<lambda>x. snd (xn_add_module xn c x)))
     \<and> linker_keeps (xn_memory xn) (\<lambda>x. snd (xw_register (xn_watch xn) x))
     \<and> (\<forall>h a n. linker_keeps (xn_memory xn) (\<lambda>x. snd (xw_enable (xn_watch xn) h a n x)))"

definition image_laws ::
  "'x xenia \<Rightarrow> ('r \<Rightarrow> 'c option \<Rightarrow> guest_address) \<Rightarrow> guest_module \<Rightarrow>
   (('x runtime_world, 'c) import_handler, 'r, 'c) import_binding list \<Rightarrow> bool" where
  "image_laws xn resolve module bindings \<longleftrightarrow>
     heap_bytes (xn_memory xn) \<and> linker_keeps_bytes (xn_memory xn) (xn_linker xn) \<and> loader_keeps_bytes xn
     \<and> (case create_imports resolve (mod_import_manifest module) bindings of
          Some (Inr tables) \<Rightarrow> linker_maps_variables (xn_linker xn) tables | _ \<Rightarrow> True)
     \<and> (let img = desc_image (mod_descriptor module) in
        \<exists>h. \<forall>i<unat (img_size img). xm_lookup_heap (xn_memory xn) (img_base img + word_of_nat i) = Some h)"

lemma export_writes_of: "export_writes (export_of resolve rb) = import_writes resolve rb"
  by (simp add: export_writes_def export_of_def new_owned_export_def import_writes_def Let_def)

lemma created_writes:
  assumes "list_all2 binding_fits (mod_import_manifest module) bindings"
    and "sorted_wrt (<) (map import_key_of (mod_import_manifest module))"
    and "create_imports resolve (mod_import_manifest module) bindings = Some (Inr tables)"
  shows "concat (map table_writes tables) = manifest_writes resolve module bindings"
proof -
  have "concat (map table_writes tables) = concat (map export_writes (concat (map ot_exports tables)))"
    by (induction tables) (simp_all add: table_writes_def)
  also have "\<dots> = manifest_writes resolve module bindings"
    unfolding created_tables(3) [OF assms] by (simp add: manifest_writes_def comp_def export_writes_of)
  finally show ?thesis .
qed

text \<open>An address of the image, as the base and an offset.\<close>

lemma image_address:
  assumes "unat (base :: u32) + n \<le> 2 ^ 32" "unat base \<le> unat a" "unat a < unat base + n"
  shows "a = base + word_of_nat (unat a - unat base)"
proof -
  have "word_of_nat (unat base + (unat a - unat base)) = (word_of_nat (unat a) :: u32)" using assms by simp
  then show ?thesis by (simp only: of_nat_add) simp
qed

lemma image_offset_unat:
  assumes "unat (base :: u32) + n \<le> 2 ^ 32" "i < n"
  shows "unat (base + word_of_nat i) = unat base + i"
proof -
  have "unat (word_of_nat (unat base + i) :: u32) = unat base + i" using assms by (intro unat_u32_of_nat) linarith
  then show ?thesis by simp
qed

text \<open>The words of an accepted import lie in the image.\<close>

lemma accepted_writes:
  assumes "valid_import d (fst rb)" "code_end (desc_code d) \<le> image_end (desc_image d)"
    and "img_base (desc_image d) \<le> code_base (desc_code d)" "image_end (desc_image d) \<le> 2 ^ 32"
    and "(a, bs) \<in> set (import_writes resolve rb)"
  shows "unat (img_base (desc_image d)) \<le> unat a \<and> unat a + 4 \<le> image_end (desc_image d) \<and> length bs = 4"
proof (cases "imp_kind (fst rb) = Function")
  case True
  let ?f = "imp_address (fst rb)"
  from True assms(1) have f: "unat (code_base (desc_code d)) \<le> unat ?f" "unat ?f + 16 \<le> code_end (desc_code d)"
    by (auto simp: valid_import_def import_addresses_valid_def is_inside_def Let_def)
  have low: "unat (img_base (desc_image d)) \<le> unat ?f" using assms(3) f(1) by (simp add: word_le_nat_alt)
  have "unat (?f + 4) = unat ?f + 4" "unat (?f + 8) = unat ?f + 8" "unat (?f + 12) = unat ?f + 12"
    using f(2) assms(2,4) image_offset_unat [of ?f 16 4] image_offset_unat [of ?f 16 8]
      image_offset_unat [of ?f 16 12] by simp_all
  with True assms(2,5) f(2) low show ?thesis by (auto simp: import_writes_def Let_def)
next
  case False
  with assms(1,5) show ?thesis
    by (auto simp: import_writes_def valid_import_def import_addresses_valid_def word_le_nat_alt Let_def)
qed

lemma manifest_writes_in_heap:
  assumes "well_formed_module module" "list_all2 binding_fits (mod_import_manifest module) bindings"
    and "\<forall>i<unat (img_size (desc_image (mod_descriptor module))).
      xm_lookup_heap xm (img_base (desc_image (mod_descriptor module)) + word_of_nat i) = Some h"
  shows "list_all (in_heap xm h) (manifest_writes resolve module bindings)"
proof -
  let ?d = "mod_descriptor module" and ?img = "desc_image (mod_descriptor module)"
  have image: "image_end ?img \<le> 2 ^ 32" "img_base ?img \<le> code_base (desc_code ?d)"
    "code_end (desc_code ?d) \<le> image_end ?img" "list_all (valid_import ?d) (mod_import_manifest module)"
    using assms(1) by (auto simp: well_formed_module_def valid_manifest_def Let_def)
  have "in_heap xm h (a, bs)" if "(a, bs) \<in> set (manifest_writes resolve module bindings)" for a bs
  proof -
    from that obtain rb where rb: "rb \<in> set (zip (mod_import_manifest module) bindings)"
        "(a, bs) \<in> set (import_writes resolve rb)" by (auto simp: manifest_writes_def)
    then have "valid_import ?d (fst rb)" using image(4) by (metis list_all_iff prod.collapse set_zip_leftD)
    from accepted_writes [OF this image(3,2,1) rb(2)] have
      a: "unat (img_base ?img) \<le> unat a" "unat a + 4 \<le> image_end ?img" "length bs = 4" by blast+
    then have "a = img_base ?img + word_of_nat (unat a - unat (img_base ?img))"
      using image(1) by (intro image_address [of _ "unat (img_size ?img)"]) (simp_all add: image_end_def)
    moreover have "unat a - unat (img_base ?img) < unat (img_size ?img)" using a by (simp add: image_end_def)
    ultimately have "xm_lookup_heap xm a = Some h" using assms(3) by metis
    then show ?thesis using a image(1) by (simp add: in_heap_def fits_def)
  qed
  then show ?thesis by (auto simp: list_all_iff)
qed

lemma same_bytes_keeps:
  "linker_keeps xm f \<Longrightarrow> same_bytes xm h (f x) y \<longleftrightarrow> same_bytes xm h x y"
  by (simp add: same_bytes_def linker_keeps_def)

lemma arm_keeps_bytes:
  assumes "loader_keeps_bytes xn" "arm (xn_watch xn) code new_invalidation x = (f, iv, x')" "\<not> fails f"
  shows "same_bytes (xn_memory xn) h x' y \<longleftrightarrow> same_bytes (xn_memory xn) h x y"
proof -
  note keeps = assms(1) [unfolded loader_keeps_bytes_def]
  obtain r x1 where r: "xw_register (xn_watch xn) x = (r, x1)" by fastforce
  then have one: "same_bytes (xn_memory xn) h x1 y \<longleftrightarrow> same_bytes (xn_memory xn) h x y"
    using same_bytes_keeps [of _ "\<lambda>x. snd (xw_register (xn_watch xn) x)" h x y] keeps by simp
  from assms(2,3) r obtain handle ok where "r = Some handle" "ok"
    "xw_enable (xn_watch xn) handle (code_base code) (code_size code) x1 = (ok, x')"
    by (auto simp: arm_def disarm_def new_invalidation_def rearm_def Let_def split: if_splits option.splits prod.splits)
  then show ?thesis
    using one same_bytes_keeps [of _ "\<lambda>x. snd (xw_enable (xn_watch xn) handle (code_base code) (code_size code) x)" h x1 y]
      keeps by simp
qed

text \<open>A loaded image holds its module.\<close>

lemma store_all_image:
  assumes "heap_bytes xm" "unat base + length img_bytes \<le> 2 ^ 32" "list_all (in_heap xm h) ws"
    and "\<forall>i<length img_bytes. xm_lookup_heap xm (base + word_of_nat i) = Some h"
    and "i < length img_bytes" "\<forall>(a, bs)\<in>set ws. unat base + i \<notin> span_of a (length bs)"
  shows "xm_load xm (base + word_of_nat i) 1 (store_all xm ws (xm_store xm base img_bytes x)) = [img_bytes ! i]"
proof -
  let ?a = "base + word_of_nat i"
  have a: "unat ?a = unat base + i" by (rule image_offset_unat [OF assms(2,5)])
  have fit: "fits ?a 1" "fits base (length img_bytes)" using a assms(2,5) by (simp_all add: fits_def)
  have heap: "xm_lookup_heap xm ?a = Some h" using assms(4,5) by blast
  have "0 < length img_bytes" using assms(5) by linarith
  from assms(4) [rule_format, OF this] have base: "xm_lookup_heap xm base = Some h" by simp
  have "xm_load xm (fst (?a, [img_bytes ! i])) (length (snd (?a, [img_bytes ! i]))) (store_all xm ws (xm_store xm base img_bytes x))
      = xm_load xm (fst (?a, [img_bytes ! i])) (length (snd (?a, [img_bytes ! i]))) (xm_store xm base img_bytes x)"
    by (rule store_all_other [OF assms(1,3)])
      (use fit heap a assms(5,6) in \<open>auto simp: in_heap_def writes_apart_def span_of_def\<close>)
  then have other: "xm_load xm ?a 1 (store_all xm ws (xm_store xm base img_bytes x)) =
      xm_load xm ?a 1 (xm_store xm base img_bytes x)" by simp
  have "xm_load xm ?a 1 (xm_store xm base img_bytes x) ! 0 =
      (if unat ?a + 0 \<in> span_of base (length img_bytes) then img_bytes ! (unat ?a + 0 - unat base)
       else xm_load xm ?a 1 x ! 0)"
    by (rule heap_bytes_nth [OF assms(1) _ fit(2,1)]) (simp_all only: heap base, simp_all)
  then have "xm_load xm ?a 1 (xm_store xm base img_bytes x) ! 0 = img_bytes ! i"
    by (simp only: a span_of_def) (use assms(5) in auto)
  moreover have "length (xm_load xm ?a 1 (xm_store xm base img_bytes x)) = 1"
    using assms(1) by (simp only: heap_bytes_def)
  ultimately show ?thesis unfolding other by (simp add: length_Suc_conv) force
qed

lemma loaded_image_in_memory:
  assumes "image_laws xn resolve module bindings" "well_formed_module module"
    and "list_all2 binding_fits (mod_import_manifest module) bindings"
    and "create_imports resolve (mod_import_manifest module) bindings = Some (Inr tables)"
    and "load_image xn module tables rt = (True, f, rt')"
  shows "image_in_memory (xn_memory xn) module (manifest_writes resolve module bindings) (rt_xenia rt')"
proof -
  let ?xm = "xn_memory xn" and ?img = "desc_image (mod_descriptor module)"
  let ?ws = "manifest_writes resolve module bindings" and ?image = "mod_image_bytes module"
  from assms(1) obtain h where laws: "heap_bytes ?xm" "linker_keeps_bytes ?xm (xn_linker xn)" "loader_keeps_bytes xn"
    "linker_maps_variables (xn_linker xn) tables"
    and heap: "\<forall>i<unat (img_size ?img). xm_lookup_heap ?xm (img_base ?img + word_of_nat i) = Some h"
    using assms(4) by (auto simp: image_laws_def Let_def)
  have image: "length ?image = unat (img_size ?img)" "unat (img_base ?img) + length ?image \<le> 2 ^ 32"
    and sorted: "sorted_wrt (<) (map import_key_of (mod_import_manifest module))"
    using assms(2) by (auto simp: well_formed_module_def valid_manifest_def image_end_def Let_def)
  note writes = created_writes [OF assms(3) sorted assms(4)]
  note inside = manifest_writes_in_heap [OF assms(2,3) heap, of resolve]
  let ?x0 = "xm_store ?xm (img_base ?img) ?image (rt_xenia rt)"
  obtain g tables' x1 where attach: "attach_imports ?xm (xn_linker xn) tables ?x0 = (g, tables', x1)"
    by (metis prod_cases3)
  obtain added x2 where add: "xn_add_module xn (desc_code (mod_descriptor module)) x1 = (added, x2)" by fastforce
  obtain e iv x3 where arm: "arm (xn_watch xn) (desc_code (mod_descriptor module)) new_invalidation x2 = (e, iv, x3)"
    by (metis prod_cases3)
  from assms(5) attach add arm have ok: "\<not> fails g" "added" "\<not> fails e" "rt_xenia rt' = x3"
    by (auto simp: load_image_def Let_def set_xenia_def set_invalidation_def with_xenia_def thread_xenia_def
        split: if_splits)
  have "same_bytes ?xm h x1 (store_all ?xm (concat (map table_writes tables)) ?x0)"
    by (rule attach_tables_bytes [OF laws(1,2) _ _ attach [unfolded attach_imports_def] ok(1)])
      (use laws(4) inside writes in \<open>auto simp: linker_maps_variables_def\<close>)
  then have "same_bytes ?xm h x2 (store_all ?xm ?ws ?x0)"
    using add laws(3) same_bytes_keeps [of ?xm "\<lambda>x. snd (xn_add_module xn (desc_code (mod_descriptor module)) x)" h x1]
    by (simp add: writes loader_keeps_bytes_def)
  then have final: "same_bytes ?xm h (rt_xenia rt') (store_all ?xm ?ws ?x0)"
    using arm_keeps_bytes [OF laws(3) arm ok(3)] ok(4) by simp
  have "xm_load ?xm (img_base ?img + word_of_nat i) 1 (rt_xenia rt') = [?image ! i]"
    if "i < length ?image" "\<forall>(a, bs)\<in>set ?ws. unat (img_base ?img) + i \<notin> span_of a (length bs)" for i
  proof -
    have "fits (img_base ?img + word_of_nat i) 1"
      using image_offset_unat [OF image(2) that(1)] image(2) that(1) by (simp add: fits_def)
    with final heap that(1) image(1) show ?thesis
      using store_all_image [OF laws(1) image(2) inside _ that] by (simp add: same_bytes_def)
  qed
  moreover have "xm_load ?xm a (length bs) (rt_xenia rt') = bs"
    if "sorted_wrt writes_apart ?ws" "(a, bs) \<in> set ?ws" for a bs
  proof -
    have "in_heap ?xm h (a, bs)" using inside that(2) by (auto simp: list_all_iff)
    with final have "xm_load ?xm a (length bs) (rt_xenia rt') = xm_load ?xm a (length bs) (store_all ?xm ?ws ?x0)"
      by (simp add: same_bytes_def in_heap_def)
    with store_all_there [OF laws(1) inside that] show ?thesis by simp
  qed
  ultimately show ?thesis by (auto simp: image_in_memory_def Let_def)
qed

text \<open>What the tables hold of one import: the requirement, the handler and context of its binding, and access to
  the guest's memory.\<close>

definition loaded_export ::
  "('r \<Rightarrow> 'c option \<Rightarrow> guest_address) \<Rightarrow> import_requirement \<times> ('h, 'r, 'c) import_binding \<Rightarrow>
   ('h, 'c) owned_export" where
  "loaded_export resolve rb = (case rb of (req, binding) \<Rightarrow>
     \<lparr>oe_library = imp_library req, oe_name = imp_name req, oe_ordinal = ucast (imp_ordinal req),
      oe_kind = imp_kind req, oe_address = imp_address req, oe_record_address = imp_record_address req,
      oe_handler = bind_function_handler binding, oe_context = bind_function_context binding,
      oe_resolved_variable = resolved_of resolve rb, oe_memory = True\<rparr>)"

lemma loaded_export_eq: "loaded_export resolve = marked \<circ> export_of resolve"
  by (rule ext) (simp add: loaded_export_def marked_def export_of_def new_owned_export_def split: prod.splits)

text \<open>Its tables find the manifest's exports, each with access to the guest's memory.\<close>

lemma loaded_tables:
  assumes "well_formed_module module" "list_all2 binding_fits (mod_import_manifest module) bindings"
    and "create_imports resolve (mod_import_manifest module) bindings = Some (Inr tables)"
    and "load_image xn module tables rt = (True, f, rt')"
  shows "\<exists>tables'. rt_imports rt' = Some tables' \<and> (\<forall>l k. lookup_export tables' l k =
    map_option (loaded_export resolve) (find (keyed l k) (zip (mod_import_manifest module) bindings)))"
proof -
  have sorted: "sorted_wrt (<) (map import_key_of (mod_import_manifest module))"
    using assms(1) by (auto simp: well_formed_module_def valid_manifest_def Let_def)
  note created = created_tables [OF assms(2) sorted assms(3)]
  let ?x0 = "xm_store (xn_memory xn) (img_base (desc_image (mod_descriptor module))) (mod_image_bytes module) (rt_xenia rt)"
  obtain g tables' x1 where attach: "attach_imports (xn_memory xn) (xn_linker xn) tables ?x0 = (g, tables', x1)"
    by (metis prod_cases3)
  with assms(4) have "\<not> fails g" "rt_imports rt' = Some tables'"
    by (auto simp: load_image_def Let_def set_xenia_def set_invalidation_def split: if_splits prod.splits)
  with attach_tables_marks [OF attach [unfolded attach_imports_def]] show ?thesis
    by (simp add: lookup_marked [OF created(1)] created(2) option.map_comp loaded_export_eq)
qed

text \<open>And Xenia's state is the one in which the module was registered and then watched.\<close>

lemma loaded_registered:
  assumes "load_image xn module tables rt = (True, f, rt')"
  shows "\<exists>y z e. xn_add_module xn (desc_code (mod_descriptor module)) y = (True, z) \<and> \<not> fails e
    \<and> (case rw_invalidation (thr_world (rt_thread rt')) of None \<Rightarrow> False | Some iv \<Rightarrow>
        arm (xn_watch xn) (desc_code (mod_descriptor module)) new_invalidation z = (e, iv, rt_xenia rt'))"
  using assms
  apply (auto simp: load_image_def Let_def set_xenia_def set_invalidation_def with_xenia_def thread_xenia_def
      split: if_splits prod.splits)
  apply blast
  done

end
