(* ===== verification/Sample_Image.thy ===== *)
theory Sample_Image imports Module_Validation begin

text \<open>
  A sealed module for the witnesses: a 32-byte image that returns to its caller, with room for the thunk of
  one function import. Its digest is computed by the standard's rounds.
\<close>

definition sample_image :: bytes where
  "sample_image = [0x4E, 0x80, 0x00, 0x20] @ replicate 28 0"

definition sample_words :: "u32 list" where
  "sample_words =
    [0x4E800020, 0x00000000, 0x00000000, 0x00000000, 0x00000000, 0x00000000, 0x00000000,
     0x00000000, 0x80000000, 0x00000000, 0x00000000, 0x00000000, 0x00000000, 0x00000000,
     0x00000000, 0x00000100, 0x4E800020, 0x00A00000, 0x00078E90, 0x00002844, 0x369A01E0,
     0x112A800A, 0x40C1BC1E, 0x6F802030, 0x6A3CD817, 0x140D68C8, 0xF713FFB3, 0x50120DBD,
     0x913CC19E, 0x883EC2A6, 0x6898F5DB, 0x6CA78763, 0xC6EFA872, 0xEE9FF0A7, 0xF33121E5,
     0xDE8010DB, 0x29D0D187, 0xDFA2CF44, 0x8585690D, 0x8A831D75, 0x3AFE8EB1, 0x7B560550,
     0x5FE147B9, 0x5B620C83, 0xE8DA151D, 0xDC403F87, 0x65C8F80E, 0xD6F6B7A0, 0x538C7477,
     0x798C3F1B, 0xAB90C4AC, 0x9ED348D7, 0xA2946137, 0x64BB1645, 0x5629A7E1, 0x8E89246F,
     0xCA6C4BF9, 0x062E1C58, 0x3A602B4A, 0x6F2A82CE, 0x7A295E77, 0x72002FBB, 0x6FD902A9,
     0xAD649D69]"

text \<open>The image padded to its one block.\<close>

definition sample_block :: bytes where
  "sample_block = sample_image @ [0x80] @ replicate 23 0 @ [0, 0, 0, 0, 0, 0, 1, 0]"

lemma sample_padded: "message_blocks (sha256_pad sample_image) = [sample_block]"
proof -
  have "sha256_pad sample_image = sample_block"
    by (simp add: sha256_pad_def sample_block_def sample_image_def be_bytes64_def upt_rec)
  moreover have "length sample_block = 64" by (simp add: sample_block_def sample_image_def)
  ultimately show ?thesis by (simp add: message_blocks_def)
qed

text \<open>A list that starts with the block's words and obeys the recurrence is the schedule.\<close>

lemma schedule_words:
  assumes "list_all (\<lambda>t. ws ! t = load_guest_word block (4 * t)) [0..<16]"
    and "list_all (\<lambda>t. ws ! t = ws ! (t - 16) + spec_sigma 7 18 3 (ws ! (t - 15)) + ws ! (t - 7)
      + spec_sigma 17 19 10 (ws ! (t - 2))) [16..<64]"
    and "t < 64"
  shows "schedule_word block t = ws ! t"
  using assms(3)
proof (induction t rule: less_induct)
  case (less t)
  show ?case
  proof (cases "t < 16")
    case True
    then have "t \<in> set [0..<16]" by (simp only: set_upt) simp
    with assms(1) have "ws ! t = load_guest_word block (4 * t)" unfolding list_all_iff by (rule bspec)
    with True show ?thesis by (simp add: schedule_word.simps [of block t])
  next
    case False
    with less.prems have "t \<in> set [16..<64]" by (simp only: set_upt) simp
    with assms(2) have "ws ! t = ws ! (t - 16) + spec_sigma 7 18 3 (ws ! (t - 15)) + ws ! (t - 7)
      + spec_sigma 17 19 10 (ws ! (t - 2))" unfolding list_all_iff by (rule bspec)
    with False less show ?thesis by (simp add: schedule_word.simps [of block t])
  qed
qed

lemmas rounds = spec_rotations_def rotr32_def spec_ch_def spec_maj_def Let_def

lemma sample_schedule: "t < 64 \<Longrightarrow> schedule_word sample_block t = sample_words ! t"
proof (rule schedule_words)
  show "list_all (\<lambda>t. sample_words ! t = load_guest_word sample_block (4 * t)) [0..<16]"
    by (simp add: sample_words_def sample_block_def sample_image_def load_guest_word_def word_of_be_def upt_rec nth_append)
  show "list_all (\<lambda>t. sample_words ! t = sample_words ! (t - 16) + spec_sigma 7 18 3 (sample_words ! (t - 15))
      + sample_words ! (t - 7) + spec_sigma 17 19 10 (sample_words ! (t - 2))) [16..<64]"
    by (simp add: sample_words_def spec_sigma_def rotr32_def upt_rec)
qed

lemma fold_nth_zip:
  assumes "length ks = length ws"
  shows "fold (\<lambda>t. f (ks ! t) (ws ! t)) [0..<length ks] st = fold (\<lambda>(k, w). f k w) (zip ks ws) st"
proof -
  have "zip ks ws = map (\<lambda>t. (ks ! t, ws ! t)) [0..<length ks]"
    using assms by (intro nth_equalityI) simp_all
  then show ?thesis by (simp add: fold_map comp_def)
qed

text \<open>The rounds, 4 at a time.\<close>

lemma sample_rounds_0:
  "fold (\<lambda>(k, w). spec_round k w)
     [(0x428A2F98, 0x4E800020), (0x71374491, 0x00000000), (0xB5C0FBCF, 0x00000000),
      (0xE9B5DBA5, 0x00000000)]
     [0x6A09E667, 0xBB67AE85, 0x3C6EF372, 0xA54FF53A, 0x510E527F, 0x9B05688C, 0x1F83D9AB,
      0x5BE0CD19] =
     [0x38DAF084, 0x7E3CBA12, 0x77E57068, 0x4A88886D, 0x664387EA, 0xC39F453C, 0x1660F200,
      0xE747E2C2]"
  by (simp add: rounds)

lemma sample_rounds_1:
  "fold (\<lambda>(k, w). spec_round k w)
     [(0x3956C25B, 0x00000000), (0x59F111F1, 0x00000000), (0x923F82A4, 0x00000000),
      (0xAB1C5ED5, 0x00000000)]
     [0x38DAF084, 0x7E3CBA12, 0x77E57068, 0x4A88886D, 0x664387EA, 0xC39F453C, 0x1660F200,
      0xE747E2C2] =
     [0x8BA59E32, 0x8310C71A, 0x9B573BB6, 0x48AAA7B6, 0x5E61A3B4, 0xC0E2FF3D, 0x957BC3EE,
      0x3260D60E]"
  by (simp add: rounds)

lemma sample_rounds_2:
  "fold (\<lambda>(k, w). spec_round k w)
     [(0xD807AA98, 0x80000000), (0x12835B01, 0x00000000), (0x243185BE, 0x00000000),
      (0x550C7DC3, 0x00000000)]
     [0x8BA59E32, 0x8310C71A, 0x9B573BB6, 0x48AAA7B6, 0x5E61A3B4, 0xC0E2FF3D, 0x957BC3EE,
      0x3260D60E] =
     [0x40C4B934, 0x2F2C290F, 0xC419ECFA, 0x33228479, 0x722B5B4D, 0x7DB7B2CE, 0xF73FC5B0,
      0x2BB19C6F]"
  by (simp add: rounds)

lemma sample_rounds_3:
  "fold (\<lambda>(k, w). spec_round k w)
     [(0x72BE5D74, 0x00000000), (0x80DEB1FE, 0x00000000), (0x9BDC06A7, 0x00000000),
      (0xC19BF174, 0x00000100)]
     [0x40C4B934, 0x2F2C290F, 0xC419ECFA, 0x33228479, 0x722B5B4D, 0x7DB7B2CE, 0xF73FC5B0,
      0x2BB19C6F] =
     [0x21133BCE, 0x2E4EC11A, 0x2D44D8D4, 0xECF78247, 0x7D4A8A23, 0x1223452F, 0x4D6E8429,
      0x10956417]"
  by (simp add: rounds)

lemma sample_rounds_4:
  "fold (\<lambda>(k, w). spec_round k w)
     [(0xE49B69C1, 0x4E800020), (0xEFBE4786, 0x00A00000), (0x0FC19DC6, 0x00078E90),
      (0x240CA1CC, 0x00002844)]
     [0x21133BCE, 0x2E4EC11A, 0x2D44D8D4, 0xECF78247, 0x7D4A8A23, 0x1223452F, 0x4D6E8429,
      0x10956417] =
     [0xEB69317A, 0x9ADE6435, 0xAB12B401, 0x08D83DB6, 0x43169F7E, 0x2000F490, 0xA08CC1A8,
      0xADADE731]"
  by (simp add: rounds)

lemma sample_rounds_5:
  "fold (\<lambda>(k, w). spec_round k w)
     [(0x2DE92C6F, 0x369A01E0), (0x4A7484AA, 0x112A800A), (0x5CB0A9DC, 0x40C1BC1E),
      (0x76F988DA, 0x6F802030)]
     [0xEB69317A, 0x9ADE6435, 0xAB12B401, 0x08D83DB6, 0x43169F7E, 0x2000F490, 0xA08CC1A8,
      0xADADE731] =
     [0xCA012947, 0x16173562, 0x3C464FB0, 0x9168A28A, 0x2EE33D66, 0x8BDEC4AE, 0x396C59D5,
      0x591DAF55]"
  by (simp add: rounds)

lemma sample_rounds_6:
  "fold (\<lambda>(k, w). spec_round k w)
     [(0x983E5152, 0x6A3CD817), (0xA831C66D, 0x140D68C8), (0xB00327C8, 0xF713FFB3),
      (0xBF597FC7, 0x50120DBD)]
     [0xCA012947, 0x16173562, 0x3C464FB0, 0x9168A28A, 0x2EE33D66, 0x8BDEC4AE, 0x396C59D5,
      0x591DAF55] =
     [0xDD96BB9B, 0xE6F00734, 0x68F0FC3A, 0x976A33CC, 0x009FC7D0, 0x7A87721E, 0xFBC314A5,
      0x4EB0A384]"
  by (simp add: rounds)

lemma sample_rounds_7:
  "fold (\<lambda>(k, w). spec_round k w)
     [(0xC6E00BF3, 0x913CC19E), (0xD5A79147, 0x883EC2A6), (0x06CA6351, 0x6898F5DB),
      (0x14292967, 0x6CA78763)]
     [0xDD96BB9B, 0xE6F00734, 0x68F0FC3A, 0x976A33CC, 0x009FC7D0, 0x7A87721E, 0xFBC314A5,
      0x4EB0A384] =
     [0xC2143FAC, 0x67D6938C, 0x8607628A, 0xF6BC3490, 0xD93C1CF7, 0xCFD0A5A5, 0x8E492C15,
      0x2FE07BFD]"
  by (simp add: rounds)

lemma sample_rounds_8:
  "fold (\<lambda>(k, w). spec_round k w)
     [(0x27B70A85, 0xC6EFA872), (0x2E1B2138, 0xEE9FF0A7), (0x4D2C6DFC, 0xF33121E5),
      (0x53380D13, 0xDE8010DB)]
     [0xC2143FAC, 0x67D6938C, 0x8607628A, 0xF6BC3490, 0xD93C1CF7, 0xCFD0A5A5, 0x8E492C15,
      0x2FE07BFD] =
     [0xFD806F76, 0xC99C602C, 0xAD80B226, 0x309DDF83, 0xD375D52E, 0x584059D8, 0x89B27558,
      0xC4263445]"
  by (simp add: rounds)

lemma sample_rounds_9:
  "fold (\<lambda>(k, w). spec_round k w)
     [(0x650A7354, 0x29D0D187), (0x766A0ABB, 0xDFA2CF44), (0x81C2C92E, 0x8585690D),
      (0x92722C85, 0x8A831D75)]
     [0xFD806F76, 0xC99C602C, 0xAD80B226, 0x309DDF83, 0xD375D52E, 0x584059D8, 0x89B27558,
      0xC4263445] =
     [0xB87DFF1B, 0xD4325B4B, 0xCB0B6E1C, 0x032BA74D, 0x0C93E734, 0x63265B2B, 0xDAC3F454,
      0x80DEF882]"
  by (simp add: rounds)

lemma sample_rounds_10:
  "fold (\<lambda>(k, w). spec_round k w)
     [(0xA2BFE8A1, 0x3AFE8EB1), (0xA81A664B, 0x7B560550), (0xC24B8B70, 0x5FE147B9),
      (0xC76C51A3, 0x5B620C83)]
     [0xB87DFF1B, 0xD4325B4B, 0xCB0B6E1C, 0x032BA74D, 0x0C93E734, 0x63265B2B, 0xDAC3F454,
      0x80DEF882] =
     [0x24C68BD2, 0x722793E9, 0x83774D27, 0x699A5CFD, 0x1C7F5CF2, 0x48053AF7, 0x814A2D9D,
      0xB34BB267]"
  by (simp add: rounds)

lemma sample_rounds_11:
  "fold (\<lambda>(k, w). spec_round k w)
     [(0xD192E819, 0xE8DA151D), (0xD6990624, 0xDC403F87), (0xF40E3585, 0x65C8F80E),
      (0x106AA070, 0xD6F6B7A0)]
     [0x24C68BD2, 0x722793E9, 0x83774D27, 0x699A5CFD, 0x1C7F5CF2, 0x48053AF7, 0x814A2D9D,
      0xB34BB267] =
     [0xDA1A5264, 0x1ECF2F42, 0xE83BE0D9, 0x50514D68, 0xE5673B1C, 0x9D601B0A, 0xC1083187,
      0xC9F4522F]"
  by (simp add: rounds)

lemma sample_rounds_12:
  "fold (\<lambda>(k, w). spec_round k w)
     [(0x19A4C116, 0x538C7477), (0x1E376C08, 0x798C3F1B), (0x2748774C, 0xAB90C4AC),
      (0x34B0BCB5, 0x9ED348D7)]
     [0xDA1A5264, 0x1ECF2F42, 0xE83BE0D9, 0x50514D68, 0xE5673B1C, 0x9D601B0A, 0xC1083187,
      0xC9F4522F] =
     [0x4FFB0A95, 0x04E0AE3A, 0x28FBDB8F, 0x07279B23, 0xB2E0DD36, 0x204A74B7, 0x6C6B4D1E,
      0xB073AF28]"
  by (simp add: rounds)

lemma sample_rounds_13:
  "fold (\<lambda>(k, w). spec_round k w)
     [(0x391C0CB3, 0xA2946137), (0x4ED8AA4A, 0x64BB1645), (0x5B9CCA4F, 0x5629A7E1),
      (0x682E6FF3, 0x8E89246F)]
     [0x4FFB0A95, 0x04E0AE3A, 0x28FBDB8F, 0x07279B23, 0xB2E0DD36, 0x204A74B7, 0x6C6B4D1E,
      0xB073AF28] =
     [0x63A3B0F2, 0x5B2076A7, 0x0B3BE7AD, 0xFD5D2867, 0x763CFB1A, 0x804DE624, 0x1D755A00,
      0x0C0A50A9]"
  by (simp add: rounds)

lemma sample_rounds_14:
  "fold (\<lambda>(k, w). spec_round k w)
     [(0x748F82EE, 0xCA6C4BF9), (0x78A5636F, 0x062E1C58), (0x84C87814, 0x3A602B4A),
      (0x8CC70208, 0x6F2A82CE)]
     [0x63A3B0F2, 0x5B2076A7, 0x0B3BE7AD, 0xFD5D2867, 0x763CFB1A, 0x804DE624, 0x1D755A00,
      0x0C0A50A9] =
     [0x106E3797, 0x48FEEB2A, 0x492E6676, 0x461BEA2E, 0xFB11AA3D, 0x48937591, 0x61E9E831,
      0x669CE33F]"
  by (simp add: rounds)

lemma sample_rounds_15:
  "fold (\<lambda>(k, w). spec_round k w)
     [(0x90BEFFFA, 0x7A295E77), (0xA4506CEB, 0x72002FBB), (0xBEF9A3F7, 0x6FD902A9),
      (0xC67178F2, 0xAD649D69)]
     [0x106E3797, 0x48FEEB2A, 0x492E6676, 0x461BEA2E, 0xFB11AA3D, 0x48937591, 0x61E9E831,
      0x669CE33F] =
     [0xB541D03A, 0x9ABDF391, 0xFDF0BA1F, 0xFBF0962C, 0xBBD16653, 0xFC6069A7, 0xA05D1F87,
      0x3920C64F]"
  by (simp add: rounds)

lemma sample_pairs:
  "zip round_constants sample_words =
     [(0x428A2F98, 0x4E800020), (0x71374491, 0x00000000), (0xB5C0FBCF, 0x00000000),
      (0xE9B5DBA5, 0x00000000)] @
     [(0x3956C25B, 0x00000000), (0x59F111F1, 0x00000000), (0x923F82A4, 0x00000000),
      (0xAB1C5ED5, 0x00000000)] @
     [(0xD807AA98, 0x80000000), (0x12835B01, 0x00000000), (0x243185BE, 0x00000000),
      (0x550C7DC3, 0x00000000)] @
     [(0x72BE5D74, 0x00000000), (0x80DEB1FE, 0x00000000), (0x9BDC06A7, 0x00000000),
      (0xC19BF174, 0x00000100)] @
     [(0xE49B69C1, 0x4E800020), (0xEFBE4786, 0x00A00000), (0x0FC19DC6, 0x00078E90),
      (0x240CA1CC, 0x00002844)] @
     [(0x2DE92C6F, 0x369A01E0), (0x4A7484AA, 0x112A800A), (0x5CB0A9DC, 0x40C1BC1E),
      (0x76F988DA, 0x6F802030)] @
     [(0x983E5152, 0x6A3CD817), (0xA831C66D, 0x140D68C8), (0xB00327C8, 0xF713FFB3),
      (0xBF597FC7, 0x50120DBD)] @
     [(0xC6E00BF3, 0x913CC19E), (0xD5A79147, 0x883EC2A6), (0x06CA6351, 0x6898F5DB),
      (0x14292967, 0x6CA78763)] @
     [(0x27B70A85, 0xC6EFA872), (0x2E1B2138, 0xEE9FF0A7), (0x4D2C6DFC, 0xF33121E5),
      (0x53380D13, 0xDE8010DB)] @
     [(0x650A7354, 0x29D0D187), (0x766A0ABB, 0xDFA2CF44), (0x81C2C92E, 0x8585690D),
      (0x92722C85, 0x8A831D75)] @
     [(0xA2BFE8A1, 0x3AFE8EB1), (0xA81A664B, 0x7B560550), (0xC24B8B70, 0x5FE147B9),
      (0xC76C51A3, 0x5B620C83)] @
     [(0xD192E819, 0xE8DA151D), (0xD6990624, 0xDC403F87), (0xF40E3585, 0x65C8F80E),
      (0x106AA070, 0xD6F6B7A0)] @
     [(0x19A4C116, 0x538C7477), (0x1E376C08, 0x798C3F1B), (0x2748774C, 0xAB90C4AC),
      (0x34B0BCB5, 0x9ED348D7)] @
     [(0x391C0CB3, 0xA2946137), (0x4ED8AA4A, 0x64BB1645), (0x5B9CCA4F, 0x5629A7E1),
      (0x682E6FF3, 0x8E89246F)] @
     [(0x748F82EE, 0xCA6C4BF9), (0x78A5636F, 0x062E1C58), (0x84C87814, 0x3A602B4A),
      (0x8CC70208, 0x6F2A82CE)] @
     [(0x90BEFFFA, 0x7A295E77), (0xA4506CEB, 0x72002FBB), (0xBEF9A3F7, 0x6FD902A9),
      (0xC67178F2, 0xAD649D69)]"
  by (simp add: round_constants_def sample_words_def)

lemma sample_digest:
  "sha256 sample_image = concat (map be_bytes32
     [0x1F4BB6A1, 0x5625A216, 0x3A5FAD91, 0xA1408B66, 0x0CDFB8D2, 0x9765D233, 0xBFE0F932,
      0x95019368])"
proof -
  have "fold (\<lambda>t. spec_round (round_constants ! t) (schedule_word sample_block t)) [0..<64] st
      = fold (\<lambda>t. spec_round (round_constants ! t) (sample_words ! t)) [0..<64] st" for st
    by (rule fold_cong [OF refl refl]) (simp add: sample_schedule)
  moreover have "length round_constants = 64" "length sample_words = 64"
    by (simp_all add: round_constants_def sample_words_def)
  ultimately have "fold (\<lambda>t. spec_round (round_constants ! t) (schedule_word sample_block t)) [0..<64] st
      = fold (\<lambda>(k, w). spec_round k w) (zip round_constants sample_words) st" for st
    using fold_nth_zip [of round_constants sample_words spec_round st] by simp
  moreover have "fold (\<lambda>(k, w). spec_round k w) (zip round_constants sample_words) initial_state =
     [0xB541D03A, 0x9ABDF391, 0xFDF0BA1F, 0xFBF0962C, 0xBBD16653, 0xFC6069A7, 0xA05D1F87,
      0x3920C64F]"
    unfolding sample_pairs initial_state_def
    by (simp only: fold_append comp_apply sample_rounds_0 sample_rounds_1 sample_rounds_2 sample_rounds_3 sample_rounds_4 sample_rounds_5 sample_rounds_6 sample_rounds_7 sample_rounds_8 sample_rounds_9 sample_rounds_10 sample_rounds_11 sample_rounds_12 sample_rounds_13 sample_rounds_14 sample_rounds_15)
  ultimately show ?thesis by (simp only: sha256_def sample_padded fold_simps spec_block_def) (simp add: initial_state_def)
qed

end
