(* ===== verification/Runtime_Lifecycle.thy ===== *)
theory Runtime_Lifecycle imports Loaded_Image Sample_Image begin

text \<open>
  What holds of a \<open>RuntimeContext\<close> from \<open>Create\<close> to its destructor: the outcome of a load, the image's
  range across a failed load, the invariant of every reachable context (\<open>runtime_reachable\<close>, one
  rule per public operation that changes state), that calls outside its code are refused, and that \<open>Create\<close> gives back what it took.
\<close>

section \<open>Loading\<close>

lemma attach_exports_error:
  "attach_exports xm xl l ti j es x = (f, es', x') \<Longrightarrow> fails f \<Longrightarrow> fail_error f = ImportAttachmentFailed"
  by (induction es arbitrary: j x f es' x')
    (auto simp: attach_export_def Let_def split: prod.splits if_splits option.splits)

lemma attach_tables_error:
  "attach_tables xm xl ti ts x = (f, ts', x') \<Longrightarrow> fails f \<Longrightarrow> fail_error f = ImportAttachmentFailed"
  by (induction ts arbitrary: ti x f ts' x')
    (auto simp: Let_def dest: attach_exports_error split: prod.splits if_splits)

lemma attach_imports_error:
  "attach_imports xm xl ts x = (f, ts', x') \<Longrightarrow> fails f \<Longrightarrow> fail_error f = ImportAttachmentFailed"
  unfolding attach_imports_def by (rule attach_tables_error)

definition armed :: "code_range \<Rightarrow> invalidation \<Rightarrow> bool" where
  "armed code iv \<longleftrightarrow> inv_memory iv \<and> inv_callback_handle iv \<noteq> None \<and> inv_code_range iv = code
     \<and> inv_pending_write iv = k_no_pending_write"

lemma arm_armed:
  "arm xw code iv x = (f, iv', x') \<Longrightarrow>
     if fails f then fail_error f = ExecutableWatchRegistrationFailed else armed code iv'"
  using arm_ok [where xw = xw and code = code and iv = iv and x = x] by (auto simp: armed_def fails_def no_failure_def split: if_splits)

lemmas runtime_access = set_xenia_def set_invalidation_def with_xenia_def thread_xenia_def

text \<open>What the part of a load that follows the allocation leaves, whatever Xenia answers.\<close>

lemma load_image_cases:
  assumes "load_image xn module tables rt = (committed, f, rt')"
  shows "committed \<longleftrightarrow> \<not> fails f"
    and "fails f \<Longrightarrow> rt_load_failed rt'" and "\<not> fails f \<Longrightarrow> rt_load_failed rt' = rt_load_failed rt"
    and "fails f \<Longrightarrow> fail_error f \<in>
      {ImportAttachmentFailed, ModuleRegistrationFailed, ExecutableWatchRegistrationFailed}"
    and "if \<not> fails f \<or> fail_error f = ExecutableWatchRegistrationFailed
      then rt_module rt' \<and> rt_code_range rt' = desc_code (mod_descriptor module)
        \<and> rt_image_address rt' = img_base (desc_image (mod_descriptor module))
      else rt_module rt' = rt_module rt \<and> rt_code_range rt' = rt_code_range rt
        \<and> rt_image_address rt' = rt_image_address rt"
    and "rt_imports rt' \<noteq> None"
    and "\<not> fails f \<Longrightarrow> \<exists>iv. rw_invalidation (thr_world (rt_thread rt')) = Some iv
      \<and> armed (desc_code (mod_descriptor module)) iv"
    and "rt_memory rt' = rt_memory rt" "rt_processor rt' = rt_processor rt"
      "rt_overrides rt' = rt_overrides rt" "rt_guest_memory rt' = rt_guest_memory rt"
      "rt_devices rt' = rt_devices rt" "rt_owner rt' = rt_owner rt"
      "rt_guest_thread rt' = rt_guest_thread rt"
  using assms
  by (auto simp: load_image_def Let_def runtime_access
      dest: attach_imports_error arm_armed split: prod.splits if_splits)


text \<open>The four ways a load ends.\<close>

lemma load_module_cases:
  assumes "load_module xn resolve module bindings rt = Some (f, rt')"
  obtains
    (refused) "fails f \<or> create_imports resolve (mod_import_manifest module) bindings = Some (Inl f)" "rt' = rt"
  | (allocation) x where "fail_error f = ImageAllocationFailed" "rt' = set_xenia x rt"
  | (image_failed) heap x tables rt1 where "\<not> rt_load_failed rt" "\<not> rt_module rt"
      "well_formed_module module"
      "xm_lookup_heap (xn_memory xn) (img_base (desc_image (mod_descriptor module))) = Some heap"
      "load_image xn module tables (set_xenia x rt) = (False, f, rt1)"
      "rt' = set_xenia (xn_heap_release xn heap (img_base (desc_image (mod_descriptor module)))
         (rt_xenia rt1)) rt1"
  | (loaded) x tables heap where "\<not> rt_load_failed rt" "\<not> rt_module rt"
      "well_formed_module module" "list_all2 binding_fits (mod_import_manifest module) bindings"
      "create_imports resolve (mod_import_manifest module) bindings = Some (Inr tables)"
      "load_image xn module tables (set_xenia x rt) = (True, f, rt')"
      "xm_lookup_heap (xn_memory xn) (img_base (desc_image (mod_descriptor module))) = Some heap"
      "xn_alloc_fixed xn heap (img_base (desc_image (mod_descriptor module)))
        (img_size (desc_image (mod_descriptor module))) (rt_xenia rt) = (True, x)"
proof -
  note run = assms [unfolded load_module_def Let_def accepted_iff_well_formed validate_imports_accepted]
  consider "rt_load_failed rt \<or> rt_module rt \<or> \<not> well_formed_module module \<or>
      \<not> list_all2 binding_fits (mod_import_manifest module) bindings"
    | "\<not> rt_load_failed rt" "\<not> rt_module rt" "well_formed_module module"
      "list_all2 binding_fits (mod_import_manifest module) bindings" by blast
  then show thesis
  proof cases
    case 1
    with run show ?thesis by (intro refused) (auto split: if_splits)
  next
    case 2
    note run = run [unfolded if_not_P [OF 2(1)] if_not_P [OF 2(2)], simplified 2 simp_thms if_False]
    show ?thesis
    proof (cases "create_imports resolve (mod_import_manifest module) bindings")
      case None
      with run show ?thesis by simp
    next
      case (Some r)
      show ?thesis
      proof (cases r)
        case (Inl e)
        with run Some show ?thesis by (intro refused) auto
      next
        case (Inr tables)
        let ?base = "img_base (desc_image (mod_descriptor module))"
        show ?thesis
        proof (cases "xm_lookup_heap (xn_memory xn) ?base")
          case None
          with run Some Inr show ?thesis by (intro refused) auto
        next
          case heap: (Some heap)
          obtain ok x where alloc: "xn_alloc_fixed xn heap ?base
            (img_size (desc_image (mod_descriptor module))) (rt_xenia rt) = (ok, x)"
            by fastforce
          obtain committed e rt1 where load: "load_image xn module tables (set_xenia x rt) = (committed, e, rt1)"
            using prod_cases3 by blast
          show ?thesis
          proof (cases ok)
            case False
            with run Some Inr heap alloc show ?thesis by (intro allocation) auto
          next
            case True
            with run Some Inr heap alloc load have "f = e"
              "rt' = (if committed then rt1 else drop_reservation xn (heap, ?base) rt1)" by auto
            with 2 Some Inr heap load True alloc show ?thesis
              by (cases committed) (auto simp: drop_reservation_def intro: image_failed loaded)
          qed
        qed
      qed
    qed
  qed
qed

lemma set_xenia_same [simp]: "set_xenia (rt_xenia rt) rt = rt"
  by (simp add: runtime_access)

lemma set_xenia_fields [simp]:
  "rt_xenia (set_xenia x rt) = x" "set_xenia y (set_xenia x rt) = set_xenia y rt"
  "rt_load_failed (set_xenia x rt) = rt_load_failed rt" "rt_module (set_xenia x rt) = rt_module rt"
  "rt_fault_guard (set_xenia x rt) = rt_fault_guard rt"
  "rt_memory (set_xenia x rt) = rt_memory rt" "rt_processor (set_xenia x rt) = rt_processor rt"
  "rt_code_range (set_xenia x rt) = rt_code_range rt"
  "rt_image_address (set_xenia x rt) = rt_image_address rt"
  "rt_overrides (set_xenia x rt) = rt_overrides rt" "rt_imports (set_xenia x rt) = rt_imports rt"
  "rt_guest_memory (set_xenia x rt) = rt_guest_memory rt" "rt_owner (set_xenia x rt) = rt_owner rt"
  "rt_guest_thread (set_xenia x rt) = rt_guest_thread rt"
  "rw_invalidation (thr_world (rt_thread (set_xenia x rt))) = rw_invalidation (thr_world (rt_thread rt))"
  by (simp_all add: runtime_access)

text \<open>An accepted manifest is in order, so its tables are always created or refused.\<close>

lemma create_imports_defined:
  assumes "well_formed_module module" "list_all2 binding_fits (mod_import_manifest module) bindings"
  shows "\<exists>r. create_imports resolve (mod_import_manifest module) bindings = Some r \<and>
    (case r of Inl f \<Rightarrow> fail_error f = VariableResolutionFailed | Inr _ \<Rightarrow> True)"
proof -
  have "sorted_wrt (<) (map import_key_of (mod_import_manifest module))"
    using well_formed_manifest [OF assms(1)] by (simp add: valid_manifest_def)
  moreover have "tables_ok []" by (simp add: tables_ok_def)
  ultimately obtain r where "create_loop resolve (mod_import_manifest module) bindings [] = Some r \<and>
      (case r of Inl f \<Rightarrow> fail_error f = VariableResolutionFailed | Inr _ \<Rightarrow> True)"
    using create_loop_ok [OF assms(2), of "[]" resolve] by (force split: sum.splits)
  then show ?thesis by (auto simp: create_imports_def)
qed

lemma load_module_defined: "load_module xn resolve module bindings rt \<noteq> None"
proof
  assume "load_module xn resolve module bindings rt = None"
  note run = this [unfolded load_module_def Let_def accepted_iff_well_formed validate_imports_accepted]
  then have ok: "well_formed_module module" "list_all2 binding_fits (mod_import_manifest module) bindings"
    by (simp_all split: if_splits)
  then show False using run create_imports_defined [OF ok, of resolve]
    by (auto split: if_splits option.splits prod.splits sum.splits)
qed

lemma load_module_refusal_fails:
  assumes "load_module xn resolve module bindings rt = Some (f, rt')"
    and "create_imports resolve (mod_import_manifest module) bindings = Some (Inl f)"
  shows "fails f"
proof -
  note run = assms(1) [unfolded load_module_def Let_def accepted_iff_well_formed validate_imports_accepted]
  show ?thesis
  proof (cases "well_formed_module module \<and> list_all2 binding_fits (mod_import_manifest module) bindings")
    case True
    with create_imports_defined [of module bindings resolve] assms(2) show ?thesis
      by (auto simp: fails_def)
  qed (use run in \<open>auto split: if_splits\<close>)
qed

section \<open>Properties of a load\<close>

text \<open>The image's range was granted by the heap that holds its base, and Xenia's state is the one in which the
  module was registered and its code range then watched.\<close>

definition image_granted :: "'x xenia \<Rightarrow> guest_module \<Rightarrow> 'x \<Rightarrow> bool" where
  "image_granted xn module x \<longleftrightarrow>
     (let img = desc_image (mod_descriptor module) in
      \<exists>heap. xm_lookup_heap (xn_memory xn) (img_base img) = Some heap
        \<and> fst (xn_alloc_fixed xn heap (img_base img) (img_size img) x))"

definition registered_and_watched :: "'x xenia \<Rightarrow> code_range \<Rightarrow> invalidation \<Rightarrow> 'x \<Rightarrow> bool" where
  "registered_and_watched xn code iv x \<longleftrightarrow>
     (\<exists>y z e. xn_add_module xn code y = (True, z) \<and> \<not> fails e \<and> arm (xn_watch xn) code new_invalidation z = (e, iv, x))"

definition loaded_as ::
  "'x xenia \<Rightarrow> ('s \<Rightarrow> 'c option \<Rightarrow> guest_address) \<Rightarrow> guest_module \<Rightarrow>
   (('x runtime_world, 'c) import_handler, 's, 'c) import_binding list \<Rightarrow> ('x, 'c, 'r, 'v) runtime \<Rightarrow> bool" where
  "loaded_as xn resolve module bindings rt \<longleftrightarrow> rt_module rt \<and> \<not> rt_load_failed rt
     \<and> rt_code_range rt = desc_code (mod_descriptor module)
     \<and> rt_image_address rt = img_base (desc_image (mod_descriptor module))
     \<and> (\<exists>tables. rt_imports rt = Some tables \<and> (\<forall>l k. lookup_export tables l k =
          map_option (loaded_export resolve) (find (keyed l k) (zip (mod_import_manifest module) bindings))))
     \<and> (\<exists>iv. rw_invalidation (thr_world (rt_thread rt)) = Some iv \<and> armed (desc_code (mod_descriptor module)) iv
          \<and> registered_and_watched xn (desc_code (mod_descriptor module)) iv (rt_xenia rt))"

lemma load_image_loaded_as:
  assumes "\<not> rt_load_failed rt" "well_formed_module module"
    and "list_all2 binding_fits (mod_import_manifest module) bindings"
    and "create_imports resolve (mod_import_manifest module) bindings = Some (Inr tables)"
    and "load_image xn module tables rt = (True, f, rt')"
  shows "loaded_as xn resolve module bindings rt'"
proof -
  note facts = load_image_cases [OF assms(5)]
  from facts(1) have "\<not> fails f" by simp
  with facts(7) obtain iv where iv: "rw_invalidation (thr_world (rt_thread rt')) = Some iv"
      "armed (desc_code (mod_descriptor module)) iv" by blast
  with loaded_registered [OF assms(5)] have "registered_and_watched xn (desc_code (mod_descriptor module)) iv (rt_xenia rt')"
    unfolding registered_and_watched_def by simp
  with iv \<open>\<not> fails f\<close> facts(3,5) assms(1) loaded_tables [OF assms(2-5)] show ?thesis
    by (simp add: loaded_as_def)
qed

text \<open>C22: \<open>LoadModule\<close> never reaches a null resolver. It succeeds only in a context that has no image
  and no failed load, for a module and bindings that the specification accepts and whose image range the
  heap grants. Then the context has the module's code range and image address, its import tables find for
  every key of the manifest the export with that requirement's addresses and that binding's handler and
  context, and nothing for any other key, the module is registered with Xenia and its code range watched,
  with nothing pending; and, as Xenia's memory keeps what is stored, the image's bytes are in guest memory,
  all of them but where an import's thunk or record is, and those hold the four words of the thunk or the
  resolved address unless they overlap. When it fails, either nothing but Xenia's state has changed, or the load is
  marked as failed, and a context with a failed load or an image refuses untouched.\<close>

theorem load_module_outcome:
  assumes "image_laws xn resolve module bindings"
  shows "case load_module xn resolve module bindings rt of
     None \<Rightarrow> False
   | Some (f, rt') \<Rightarrow>
       if rt_load_failed rt then fail_error f = LoadStateInvalid \<and> rt' = rt
       else if rt_module rt then fail_error f = ModuleAlreadyLoaded \<and> rt' = rt
       else if fails f then rt' = set_xenia (rt_xenia rt') rt \<or> rt_load_failed rt'
       else well_formed_module module \<and> list_all2 binding_fits (mod_import_manifest module) bindings
         \<and> image_granted xn module (rt_xenia rt)
         \<and> loaded_as xn resolve module bindings rt'
         \<and> image_in_memory (xn_memory xn) module (manifest_writes resolve module bindings) (rt_xenia rt')"
proof (cases "load_module xn resolve module bindings rt")
  case None
  then show ?thesis using load_module_defined by blast
next
  case (Some r)
  obtain f rt' where r: "r = (f, rt')" by (cases r)
  from Some r have run: "load_module xn resolve module bindings rt = Some (f, rt')" by simp
  show ?thesis
  proof (cases "rt_load_failed rt \<or> rt_module rt")
    case True
    with run show ?thesis by (auto simp: load_module_def)
  next
    case False
    from run have "if fails f then rt' = set_xenia (rt_xenia rt') rt \<or> rt_load_failed rt'
       else well_formed_module module \<and> list_all2 binding_fits (mod_import_manifest module) bindings
         \<and> image_granted xn module (rt_xenia rt) \<and> loaded_as xn resolve module bindings rt'
         \<and> image_in_memory (xn_memory xn) module (manifest_writes resolve module bindings) (rt_xenia rt')"
    proof (cases rule: load_module_cases)
      case refused
      with load_module_refusal_fails [OF run] show ?thesis by auto
    next
      case (image_failed heap x tables rt1)
      with load_image_cases(1,2) [OF image_failed(5)] show ?thesis by simp
    next
      case (loaded x tables heap)
      have "\<not> rt_load_failed (set_xenia x rt)" using loaded(1) by simp
      from load_image_loaded_as [OF this loaded(3-6)] loaded_image_in_memory [OF assms loaded(3-6)]
        load_image_cases(1) [OF loaded(6)] loaded(3,4,7,8)
      show ?thesis by (simp add: image_granted_def)
    qed (simp add: fails_def)
    with False run r show ?thesis by (simp add: Some)
  qed
qed

text \<open>C23: a load that failed after the image was allocated ends by releasing the image's range, and
  the destructor releases it a second time exactly when Xenia had refused the write observation: the
  context then already names the image, and the range was never committed to it.\<close>

theorem failed_load_releases:
  "case load_module xn resolve module bindings rt of
     None \<Rightarrow> False
   | Some (f, rt') \<Rightarrow>
       if \<not> rt_load_failed rt \<and> rt_load_failed rt' \<and> rt_image_address rt = 0 \<and> rt_memory rt
       then (\<exists>heap x1. xm_lookup_heap (xn_memory xn) (img_base (desc_image (mod_descriptor module))) = Some heap
         \<and> rt_xenia rt' = xn_heap_release xn heap (img_base (desc_image (mod_descriptor module))) x1
         \<and> (\<forall>x. release_image xn rt' x =
             (if fail_error f = ExecutableWatchRegistrationFailed
                 \<and> img_base (desc_image (mod_descriptor module)) \<noteq> 0
              then xn_heap_release xn heap (img_base (desc_image (mod_descriptor module))) x else x)))
       else True"
proof (cases "load_module xn resolve module bindings rt")
  case None
  then show ?thesis using load_module_defined by blast
next
  case (Some r)
  obtain f rt' where r: "r = (f, rt')" by (cases r)
  from Some r have run: "load_module xn resolve module bindings rt = Some (f, rt')" by simp
  show ?thesis
  proof (cases "\<not> rt_load_failed rt \<and> rt_load_failed rt' \<and> rt_image_address rt = 0 \<and> rt_memory rt")
    case True
    from run show ?thesis
    proof (cases rule: load_module_cases)
      case (image_failed heap x tables rt1)
      note facts = load_image_cases(1,2,5,8) [OF image_failed(5)]
      have "release_image xn rt' y =
          (if fail_error f = ExecutableWatchRegistrationFailed
              \<and> img_base (desc_image (mod_descriptor module)) \<noteq> 0
           then xn_heap_release xn heap (img_base (desc_image (mod_descriptor module))) y else y)" for y
        using facts True image_failed by (auto simp: release_image_def split: if_splits)
      with True image_failed Some r show ?thesis by auto
    next
      case (loaded x tables heap)
      with True load_image_cases(1,3) [OF loaded(6)] show ?thesis by simp
    qed (use True in auto)
  qed (auto simp: Some r)
qed

section \<open>Everything the embedder can do\<close>

text \<open>A context after \<open>Create\<close> and any calls of its operations, whatever they answered.\<close>

inductive runtime_reachable ::
  "'x xenia \<Rightarrow> ('s \<Rightarrow> 'c option \<Rightarrow> guest_address) \<Rightarrow> ('x, 'c, 'r, 'v) runtime \<Rightarrow> bool" for xn resolve where
  Created: "runtime_create xn owner ls x = (f, ls', Inl rt) \<Longrightarrow> runtime_reachable xn resolve rt"
| LoadModule: "runtime_reachable xn resolve rt \<Longrightarrow>
    load_module xn resolve module bindings rt = Some (f, rt') \<Longrightarrow> runtime_reachable xn resolve rt'"
| InstallOverride: "runtime_reachable xn resolve rt \<Longrightarrow>
    runtime_install_override xn address handler context rt = (f, rt') \<Longrightarrow> runtime_reachable xn resolve rt'"
| RemoveOverride: "runtime_reachable xn resolve rt \<Longrightarrow>
    runtime_remove_override xn address rt = (f, rt') \<Longrightarrow> runtime_reachable xn resolve rt'"
| RegisterDevice: "runtime_reachable xn resolve rt \<Longrightarrow>
    runtime_register_device xn req rt = (f, rt') \<Longrightarrow> runtime_reachable xn resolve rt'"
| Notify: "runtime_reachable xn resolve rt \<Longrightarrow>
    notify_executable_write xn address n rt = (f, rt') \<Longrightarrow> runtime_reachable xn resolve rt'"
| Execute: "runtime_reachable xn resolve rt \<Longrightarrow>
    runtime_execute xn address arguments limits rt = Some (r, rt') \<Longrightarrow> runtime_reachable xn resolve rt'"
| CallOriginal: "runtime_reachable xn resolve rt \<Longrightarrow>
    runtime_call_original xn address arguments limits rt = Some (r, rt') \<Longrightarrow> runtime_reachable xn resolve rt'"
| Allocate: "runtime_reachable xn resolve rt \<Longrightarrow>
    allocate_guest_memory xn n rt = (a, rt') \<Longrightarrow> runtime_reachable xn resolve rt'"
| Write: "runtime_reachable xn resolve rt \<Longrightarrow>
    write_guest_memory xn address bs rt = (f, rt') \<Longrightarrow> runtime_reachable xn resolve rt'"
| WriteMapped: "runtime_reachable xn resolve rt \<Longrightarrow>
    write_mapped_guest_memory xn address bs rt = (f, rt') \<Longrightarrow> runtime_reachable xn resolve rt'"
| Release: "runtime_reachable xn resolve rt \<Longrightarrow>
    release_guest_memory xn allocation rt = (f, rt') \<Longrightarrow> runtime_reachable xn resolve rt'"

definition overrides_inside ::
  "code_range \<Rightarrow> ('h, 'c, 'k) override_dispatch \<Rightarrow> bool" where
  "overrides_inside code ovd \<longleftrightarrow> ovd_bound ovd \<and> (\<forall>a e. find_override ovd a = Some e \<longrightarrow>
     ovr_address e = a \<and> ovr_handler e \<noteq> None \<and> range_contains code a)"

definition runtime_ok :: "('x, 'c, 'r, 'v) runtime \<Rightarrow> bool" where
  "runtime_ok rt \<longleftrightarrow> rt_memory rt \<and> rt_processor rt \<and> rt_fault_guard rt
     \<and> (if rt_module rt
        then rt_imports rt \<noteq> None \<and> (\<exists>module. well_formed_module module
          \<and> rt_code_range rt = desc_code (mod_descriptor module)
          \<and> rt_image_address rt = img_base (desc_image (mod_descriptor module)))
        else rt_code_range rt = no_code_range \<and> rt_image_address rt = 0)
     \<and> overrides_inside (rt_code_range rt) (rt_overrides rt)"

text \<open>What \<open>runtime_ok\<close> looks at.\<close>

definition same_image :: "('x, 'c, 'r, 'v) runtime \<Rightarrow> ('x, 'c, 'r, 'v) runtime \<Rightarrow> bool" where
  "same_image rt rt' \<longleftrightarrow> rt_memory rt' = rt_memory rt \<and> rt_processor rt' = rt_processor rt
     \<and> rt_fault_guard rt' = rt_fault_guard rt \<and> rt_module rt' = rt_module rt
     \<and> rt_imports rt' = rt_imports rt \<and> rt_code_range rt' = rt_code_range rt
     \<and> rt_image_address rt' = rt_image_address rt"

lemma runtime_ok_same:
  "same_image rt rt' \<Longrightarrow> runtime_ok rt \<Longrightarrow> overrides_inside (rt_code_range rt) (rt_overrides rt') \<Longrightarrow>
   runtime_ok rt'"
  by (simp add: runtime_ok_def same_image_def)

lemma range_contains_none [simp]: "\<not> range_contains no_code_range a"
  by (simp add: range_contains_def no_code_range_def not_le)

lemma empty_overrides_inside:
  "\<not> (\<exists>a. find_override ovd a \<noteq> None) \<Longrightarrow> ovd_bound ovd \<Longrightarrow> overrides_inside code ovd"
  by (auto simp: overrides_inside_def)

lemma install_inside:
  "install_override xr a h c code ovd x = (f, ovd', x') \<Longrightarrow> overrides_inside code ovd \<Longrightarrow>
   overrides_inside code ovd'"
  by (auto simp: overrides_inside_def override_defs split: if_splits prod.splits)

lemma remove_inside:
  "remove_override xr a ovd x = (f, ovd', x') \<Longrightarrow> overrides_inside code ovd \<Longrightarrow>
   overrides_inside code ovd'"
  by (auto simp: overrides_inside_def override_defs split: if_splits prod.splits)

lemma load_image_fault_guard:
  "load_image xn module tables rt = (committed, f, rt') \<Longrightarrow> rt_fault_guard rt' = rt_fault_guard rt"
  by (auto simp: load_image_def Let_def runtime_access split: prod.splits if_splits)

lemma same_image_set_xenia [simp]: "same_image rt (set_xenia x rt)"
  by (simp add: same_image_def runtime_access)

lemma runtime_ok_set_xenia [simp]: "runtime_ok (set_xenia x rt) \<longleftrightarrow> runtime_ok rt"
  by (simp add: runtime_ok_def runtime_access)

lemma load_image_ok:
  assumes "load_image xn module tables rt = (committed, f, rt')" "runtime_ok rt" "\<not> rt_module rt"
    and "well_formed_module module"
  shows "runtime_ok rt'"
proof -
  have "\<not> (\<exists>a. find_override (rt_overrides rt) a \<noteq> None)" "ovd_bound (rt_overrides rt)"
    using assms(2,3) by (auto simp: runtime_ok_def overrides_inside_def)
  then have "overrides_inside code (rt_overrides rt)" for code by (rule empty_overrides_inside)
  with assms load_image_cases [OF assms(1)] load_image_fault_guard [OF assms(1)]
  show ?thesis by (auto simp: runtime_ok_def split: if_splits)
qed

lemma load_module_ok:
  assumes "load_module xn resolve module bindings rt = Some (f, rt')" "runtime_ok rt"
  shows "runtime_ok rt'"
  using assms(1)
proof (cases rule: load_module_cases)
  case (image_failed heap x tables rt1)
  with assms(2) load_image_ok [OF image_failed(5)] show ?thesis by simp
next
  case (loaded x tables)
  with assms(2) load_image_ok [OF loaded(6)] show ?thesis by simp
qed (use assms(2) in simp_all)

lemma created_ok:
  assumes "runtime_create xn owner ls x = (f, ls', Inl rt)"
  shows "runtime_ok rt"
  using assms
  by (auto simp: runtime_create_def runtime_initialize_def Let_def runtime_ok_def new_runtime_def
      overrides_inside_def find_override_def bind_overrides_def new_override_dispatch_def
      split: prod.splits if_splits)

lemmas runtime_operations = runtime_install_override_def runtime_remove_override_def
  runtime_register_device_def notify_executable_write_def runtime_execute_def runtime_call_original_def
  allocate_guest_memory_def write_guest_memory_def write_mapped_guest_memory_def release_guest_memory_def

text \<open>Every operation but a load keeps the image, and all but installing and removing the overrides.\<close>

lemma operations_keep_image:
  "runtime_register_device xn req rt = (f, rt') \<Longrightarrow> same_image rt rt' \<and> rt_overrides rt' = rt_overrides rt"
  "notify_executable_write xn address n rt = (f, rt') \<Longrightarrow> same_image rt rt' \<and> rt_overrides rt' = rt_overrides rt"
  "runtime_execute xn address arguments limits rt = Some (r, rt') \<Longrightarrow>
     same_image rt rt' \<and> rt_overrides rt' = rt_overrides rt"
  "runtime_call_original xn address arguments limits rt = Some (r, rt') \<Longrightarrow>
     same_image rt rt' \<and> rt_overrides rt' = rt_overrides rt"
  "allocate_guest_memory xn n rt = (a, rt') \<Longrightarrow> same_image rt rt' \<and> rt_overrides rt' = rt_overrides rt"
  "write_guest_memory xn address bs rt = (f, rt') \<Longrightarrow> same_image rt rt' \<and> rt_overrides rt' = rt_overrides rt"
  "write_mapped_guest_memory xn address bs rt = (f, rt') \<Longrightarrow>
     same_image rt rt' \<and> rt_overrides rt' = rt_overrides rt"
  "release_guest_memory xn allocation rt = (f, rt') \<Longrightarrow> same_image rt rt' \<and> rt_overrides rt' = rt_overrides rt"
  by (auto simp: runtime_operations same_image_def runtime_access Let_def bind_eq_Some_conv
      split: prod.splits option.splits if_splits)

lemma install_keeps_image:
  assumes "runtime_install_override xn address handler context rt = (f, rt')"
    and "overrides_inside (rt_code_range rt) (rt_overrides rt)"
  shows "same_image rt rt' \<and> overrides_inside (rt_code_range rt) (rt_overrides rt')"
  using assms
  by (auto simp: runtime_install_override_def same_image_def runtime_access
      dest: install_inside split: prod.splits if_splits)

lemma remove_keeps_image:
  assumes "runtime_remove_override xn address rt = (f, rt')"
    and "overrides_inside (rt_code_range rt) (rt_overrides rt)"
  shows "same_image rt rt' \<and> overrides_inside (rt_code_range rt) (rt_overrides rt')"
  using assms
  by (auto simp: runtime_remove_override_def same_image_def runtime_access
      dest: remove_inside split: prod.splits if_splits)

lemma runtime_ok_kept:
  "same_image rt rt' \<and> rt_overrides rt' = rt_overrides rt \<Longrightarrow> runtime_ok rt \<Longrightarrow> runtime_ok rt'"
  by (auto simp: runtime_ok_def same_image_def)

lemma runtime_ok_inside: "runtime_ok rt \<Longrightarrow> overrides_inside (rt_code_range rt) (rt_overrides rt)"
  by (simp add: runtime_ok_def)

lemma reachable_ok: "runtime_reachable xn resolve rt \<Longrightarrow> runtime_ok rt"
proof (induction rule: runtime_reachable.induct)
  case Created
  then show ?case by (rule created_ok)
next
  case LoadModule
  then show ?case by (blast intro: load_module_ok)
next
  case InstallOverride
  then show ?case by (blast dest: install_keeps_image runtime_ok_inside intro: runtime_ok_same)
next
  case RemoveOverride
  then show ?case by (blast dest: remove_keeps_image runtime_ok_inside intro: runtime_ok_same)
qed (blast dest: operations_keep_image intro: runtime_ok_kept)+

text \<open>C24: in every context the embedder can reach, a loaded image has a validated code range that lies
  behind its base, and every installed override has a handler and an address inside that range; without
  an image there is no override and no address counts as code.\<close>

theorem reachable_runtime_image:
  assumes "runtime_reachable xn resolve rt"
  shows "rt_memory rt \<and> rt_processor rt \<and>
    (if rt_module rt
     then rt_imports rt \<noteq> None \<and> 65536 dvd unat (rt_image_address rt) \<and> 0 < code_size (rt_code_range rt)
       \<and> rt_image_address rt \<le> code_base (rt_code_range rt) \<and> code_end (rt_code_range rt) \<le> 2 ^ 32
       \<and> (\<forall>a. case find_override (rt_overrides rt) a of None \<Rightarrow> True
            | Some e \<Rightarrow> ovr_address e = a \<and> ovr_handler e \<noteq> None \<and> range_contains (rt_code_range rt) a)
     else rt_image_address rt = 0 \<and>
       (\<forall>a. find_override (rt_overrides rt) a = None \<and> \<not> range_contains (rt_code_range rt) a))"
proof -
  note ok = reachable_ok [OF assms, unfolded runtime_ok_def]
  show ?thesis
  proof (cases "rt_module rt")
    case True
    with ok obtain module where "well_formed_module module"
      "rt_code_range rt = desc_code (mod_descriptor module)"
      "rt_image_address rt = img_base (desc_image (mod_descriptor module))" by auto
    with ok True show ?thesis
      by (auto simp: well_formed_module_def Let_def overrides_inside_def split: option.splits)
  next
    case False
    with ok show ?thesis by (auto simp: overrides_inside_def)
  qed
qed

text \<open>Without an override the call goes to the original; at an address that is no code it only drains the
  writes the watch has seen.\<close>

lemma execute_original_outside:
  assumes "\<not> (loaded \<and> range_contains code address)"
  shows "execute_original xn loaded code address arguments limits t =
    (case drain_thread xn t of (f, t') \<Rightarrow> Some (refused_call (if fails f then f
       else failure EntryOutsideCode ''guest entry is outside the authenticated executable range''), t'))"
  using assms by (auto simp: execute_original_def split: prod.splits)

lemma outside_has_no_override:
  assumes "runtime_ok rt" "\<not> (rt_module rt \<and> range_contains (rt_code_range rt) address)"
  shows "find_override (rt_overrides rt) address = None"
  using assms by (cases "find_override (rt_overrides rt) address") (auto simp: runtime_ok_def overrides_inside_def
    split: if_splits)

text \<open>C25: in every context the embedder can reach, a call to an address outside the validated code range, or
  before an image is loaded, always returns, runs neither guest code nor a native override, and is refused
  with the failure of the pending drain or with \<open>EntryOutsideCode\<close>. Of the context only what the drain
  changes differs. Calling the original answers the same, after counting the call.\<close>

theorem only_validated_code_runs:
  assumes "runtime_reachable xn resolve rt"
    and "\<not> (rt_module rt \<and> range_contains (rt_code_range rt) address)"
  shows "(case drain_thread xn (rt_thread rt) of (f, t) \<Rightarrow>
      runtime_execute xn address arguments limits rt = Some (refused_call (if fails f then f
        else failure EntryOutsideCode ''guest entry is outside the authenticated executable range''),
        rt\<lparr>rt_thread := t\<rparr>))
    \<and> (case drain_thread xn (update_statistics (\<lambda>st. st\<lparr>st_original_calls := st_original_calls st + 1\<rparr>)
        (rt_thread rt)) of (f, t) \<Rightarrow>
      runtime_call_original xn address arguments limits rt = Some (refused_call (if fails f then f
        else failure EntryOutsideCode ''guest entry is outside the authenticated executable range''),
        rt\<lparr>rt_thread := t\<rparr>))"
  using outside_has_no_override [OF reachable_ok [OF assms(1)] assms(2)] assms(2)
  by (simp add: runtime_execute_def runtime_call_original_def call_original_def execute_original_outside
      split: prod.splits)

section \<open>Create\<close>

text \<open>What the code relies on of Xenia's start: it leaves the blocks of the system heap alone.\<close>

definition boot_keeps_blocks :: "'x xenia \<Rightarrow> ('x \<Rightarrow> live_blocks) \<Rightarrow> bool" where
  "boot_keeps_blocks xn live \<longleftrightarrow> (\<forall>x. live (snd (xn_initialize_memory xn x)) = live x
     \<and> live (snd (xn_setup_processor xn x)) = live x \<and> live (xn_pre_launch xn x) = live x)"

lemma destroy_without_image:
  assumes "rt_image_address rt = 0" "gm_allocations (rt_guest_memory rt) = []"
    and "rw_invalidation (thr_world (rt_thread rt)) = None"
  shows "destroy_runtime xn ls rt = (release_lease (rt_owner rt) ls,
    snd (thread_reset (xn_memory xn) (rt_guest_thread rt) (rt_xenia rt)))"
  using assms
  by (simp add: destroy_runtime_def release_image_def disarm_invalidation_def gm_reset_def Let_def)

definition fresh_runtime :: "nat \<Rightarrow> ('x, 'c, 'r, 'v) runtime \<Rightarrow> bool" where
  "fresh_runtime owner rt \<longleftrightarrow> rt_owner rt = owner \<and> rt_image_address rt = 0
     \<and> gm_allocations (rt_guest_memory rt) = [] \<and> rw_invalidation (thr_world (rt_thread rt)) = None"

lemma new_runtime_fields [simp]:
  "rt_xenia (new_runtime owner x) = x" "rt_owner (new_runtime owner x) = owner"
  "rt_image_address (new_runtime owner x) = 0" "rt_guest_memory (new_runtime owner x) = new_guest_memory"
  "rt_guest_thread (new_runtime owner x) = new_guest_thread"
  "rw_invalidation (thr_world (rt_thread (new_runtime owner x))) = None"
  by (simp_all add: new_runtime_def fresh_thread_def thread_xenia_def)

lemma new_guest_memory_empty [simp]: "gm_allocations new_guest_memory = []"
  by (simp add: new_guest_memory_def)

lemma thread_reset_new [simp]: "snd (thread_reset xm new_guest_thread x) = x"
  by (simp add: thread_reset_def new_guest_thread_def)

lemma initialize_outcome:
  assumes "system_heap (xn_memory xn) live" "boot_keeps_blocks xn live" "\<forall>b m. live x b = Some m \<longrightarrow> m \<noteq> 0"
    and "h \<noteq> Some owner"
    and "runtime_initialize xn (leases_of h) (new_runtime owner x :: ('x, 'c, 'r, 'v) runtime) = (f, ls, rt)"
  shows "fresh_runtime owner rt \<and> ls = leases_of (if h = None then Some owner else h)
    \<and> live (snd (thread_reset (xn_memory xn) (rt_guest_thread rt) (rt_xenia rt))) = live x
    \<and> (fail_error f = InstanceAlreadyActive \<longleftrightarrow> h \<noteq> None)
    \<and> (if fails f then True else thread_initialized (rt_guest_thread rt))"
proof (cases "h = None")
  case False
  with assms(4,5) show ?thesis
    by (auto simp: runtime_initialize_def acquire_leases_of fresh_runtime_def)
next
  case True
  obtain ok1 x1 where boot: "xn_initialize_memory xn x = (ok1, x1)" by fastforce
  obtain ok2 x2 where ready: "xn_setup_processor xn x1 = (ok2, x2)" by fastforce
  obtain tf th x3 where thread: "thread_initialize (xn_memory xn) new_guest_thread x2 = (tf, th, x3)"
    using prod_cases3 by blast
  have live: "live x1 = live x" "live x2 = live x" "live (xn_pre_launch xn x3) = live x3"
    using assms(2) boot ready by (auto simp: boot_keeps_blocks_def) (metis snd_conv)+
  have kept: "live (snd (thread_reset (xn_memory xn) th y)) = live x" if "live y = live x3" for y
    using thread_initialize_live(1,4) [OF assms(1) _ thread] assms(3) live(2)
      thread_reset_frees [OF assms(1), of th y] unfolding that by simp
  have tf: "fail_error tf \<noteq> InstanceAlreadyActive"
    using thread by (auto simp: thread_initialize_def Let_def no_failure_def split: prod.splits if_splits)
  have initialized: "fails tf \<longleftrightarrow> \<not> thread_initialized th"
    using thread_initialize_live(2) [OF assms(1) _ thread] assms(3) live(2) by simp
  note run = assms(5) [unfolded runtime_initialize_def True acquire_leases_of new_runtime_fields
      prod.case simp_thms if_True if_False Let_def boot ready set_xenia_fields]
  note facts = fresh_runtime_def gm_initialize_def
  consider "\<not> ok1" | "ok1" "\<not> ok2" | "ok1" "ok2" "fails tf" | "ok1" "ok2" "\<not> fails tf" by blast
  then show ?thesis
  proof cases
    case 1
    with run True live show ?thesis by (auto simp: facts)
  next
    case 2
    with run True live ready show ?thesis by (auto simp: facts)
  next
    case 3
    with run True live ready thread kept [of x3] tf show ?thesis by (auto simp: facts)
  next
    case 4
    with run True live ready thread kept [of "xn_pre_launch xn x3"] initialized show ?thesis
      by (auto simp: facts no_failure_def)
  qed
qed


text \<open>C26: \<open>Create\<close> succeeds only when no other owner holds the process-wide lease, and then holds it. When it
  fails, for the lease or for any refusal of Xenia on the way, the leases and the blocks of the system
  heap are those from before, so a later \<open>Create\<close> starts from the same place; destroying a context
  that loaded nothing gives both back too.\<close>

theorem create_or_restore:
  assumes "system_heap (xn_memory xn) live" "boot_keeps_blocks xn live" "\<forall>b m. live x b = Some m \<longrightarrow> m \<noteq> 0"
    and "h \<noteq> Some owner"
  shows "case (runtime_create xn owner (leases_of h) x
      :: runtime_failure \<times> leases \<times> (('x, 'c, 'r, 'v) runtime + 'x)) of (f, ls, created) \<Rightarrow>
    (case created of
       Inl rt \<Rightarrow> \<not> fails f \<and> h = None \<and> ls = leases_of (Some owner)
         \<and> (\<exists>x'. destroy_runtime xn ls rt = (leases_of None, x') \<and> live x' = live x)
     | Inr x' \<Rightarrow> fails f \<and> ls = leases_of h \<and> live x' = live x
         \<and> (fail_error f = InstanceAlreadyActive \<longleftrightarrow> h \<noteq> None))"
proof -
  obtain f ls rt where run: "runtime_initialize xn (leases_of h) (new_runtime owner x :: ('x, 'c, 'r, 'v) runtime) = (f, ls, rt)"
    using prod_cases3 by blast
  note out = initialize_outcome [OF assms run]
  then have "fresh_runtime owner rt" "fresh_runtime owner (rt\<lparr>rt_overrides := bind_overrides None (rt_overrides rt)\<rparr>)"
    by (auto simp: fresh_runtime_def)
  with out run assms(4) show ?thesis
    by (auto simp: runtime_create_def no_failure_def destroy_without_image fresh_runtime_def release_leases_of
        fails_def split: if_splits)
qed

section \<open>Witnesses\<close>

text \<open>A Xenia over the toy memory, whose backend accepts or refuses its setup, that translates nothing.\<close>

definition toy_xenia :: "bool \<Rightarrow> toy_state xenia" where
  "toy_xenia ok = \<lparr>xn_memory = toy_memory, xn_linker = toy_linker,
     xn_watch = \<lparr>xw_register = (\<lambda>x. (Some 0, x)), xw_enable = (\<lambda>h a n x. (True, x)),
       xw_unregister = (\<lambda>h x. x), xw_find_functions = (\<lambda>a x. []), xw_remove_function = (\<lambda>a x. x)\<rparr>,
     xn_redirects = \<lparr>xr_install = (\<lambda>a x. (True, x)), xr_remove = (\<lambda>a x. (True, x))\<rparr>,
     xn_devices = \<lparr>xd_page_size = 0x1000, xd_add = (\<lambda>a m n i x. (True, x))\<rparr>,
     xn_processor = \<lparr>xp_query_function = (\<lambda>a w. None), xp_resolve_function = (\<lambda>a w. (None, w)),
       xp_lookup_function = (\<lambda>a w. (None, w)),
       xp_execute_interpreter = (\<lambda>a n t. (\<lparr>itr_exit_reason = Invalid_Entry,
         itr_instructions_executed = 0, itr_guest_pc = a, itr_instruction = 0\<rparr>, t))\<rparr>,
     xn_initialize_memory = (\<lambda>x. (True, x)), xn_setup_processor = (\<lambda>x. (ok, x)),
     xn_pre_launch = (\<lambda>x. x), xn_alloc_fixed = (\<lambda>h a n x. (True, x)),
     xn_heap_release = (\<lambda>h a x. x), xn_add_module = (\<lambda>c x. (True, x))\<rparr>"

lemma toy_boot: "boot_keeps_blocks (toy_xenia ok) toy_live"
  by (simp add: boot_keeps_blocks_def toy_xenia_def)

lemmas toy_create_simps = toy_xenia_def runtime_create_def runtime_initialize_def acquire_leases_of
  thread_initialize_def toy_memory_def toy_candidate_def toy_start_def new_guest_thread_def
  k_stack_size_def k_pcr_size_def apart_def Let_def new_runtime_def fresh_thread_def thread_xenia_def

theorem create_or_restore_witness:
  "case (runtime_create (toy_xenia False) 1 (leases_of None) toy_start
      :: runtime_failure \<times> leases \<times> ((toy_state, unit, unit, unit) runtime + toy_state)) of (f, ls, created) \<Rightarrow>
    fail_error f = BackendInitializationFailed \<and> ls = leases_of None \<and>
    (\<exists>x'. created = Inr x' \<and> toy_live x' = toy_live toy_start)"
proof -
  let ?run = "runtime_create (toy_xenia False) 1 (leases_of None) toy_start
    :: runtime_failure \<times> leases \<times> ((toy_state, unit, unit, unit) runtime + toy_state)"
  have heap: "system_heap (xn_memory (toy_xenia False)) toy_live"
    using toy_system_heap by (simp add: toy_xenia_def)
  have "\<forall>b m. toy_live toy_start b = Some m \<longrightarrow> m \<noteq> 0" by (simp add: toy_live_def toy_start_def)
  note law = create_or_restore [OF heap toy_boot this, where 'c = unit and 'r = unit and 'v = unit and h = None and owner = 1]
  moreover have "fail_error (fst ?run) = BackendInitializationFailed"
    by (simp add: toy_create_simps split: prod.splits)
  ultimately show ?thesis by (auto simp: fails_def split: prod.splits sum.splits)
qed

definition toy_runtime :: "(toy_state, unit, unit, unit) runtime" where
  "toy_runtime = (case runtime_create (toy_xenia True) 1 (leases_of None) toy_start of
     (f, ls, Inl rt) \<Rightarrow> rt | _ \<Rightarrow> new_runtime 1 toy_start)"

lemma toy_runtime_created:
  "\<exists>f ls. runtime_create (toy_xenia True) 1 (leases_of None) toy_start = (f, ls, Inl toy_runtime)"
  by (simp add: toy_runtime_def toy_create_simps)

lemma toy_runtime_empty: "\<not> rt_module toy_runtime"
  by (simp add: toy_runtime_def toy_create_simps)

definition toy_resolver :: "unit \<Rightarrow> unit option \<Rightarrow> guest_address" where
  "toy_resolver s c = 0"

text \<open>A load of the sample image, whose one import is a function with its thunk at offset 16.\<close>

definition sample_import :: import_requirement where
  "sample_import = \<lparr>imp_kind = Function, imp_library = ''xam.xex'', imp_ordinal = 5, imp_name = ''f'',
     imp_address = 0x10010, imp_record_address = 0x10008\<rparr>"

definition sample_module :: guest_module where
  "sample_module =
     \<lparr>mod_descriptor = \<lparr>desc_image = \<lparr>img_sha256 = sha256 sample_image, img_base = 0x10000, img_size = 32,
          img_entry_point = 0x10000\<rparr>,
        desc_code = \<lparr>code_base = 0x10000, code_size = 32\<rparr>, desc_import_count = 1,
        desc_import_manifest_sha256 = sha256 (encode_manifest [sample_import])\<rparr>,
      mod_image_bytes = sample_image, mod_import_manifest = [sample_import]\<rparr>"

definition sample_service :: "(toy_state runtime_world, unit) import_handler" where
  "sample_service c ic w = (set_return_value 7 ic, w)"

definition sample_handlers :: "((toy_state runtime_world, unit) import_handler, unit, unit) import_binding list" where
  "sample_handlers = [\<lparr>bind_library = ''xam.xex'', bind_ordinal = 5, bind_kind = Function,
     bind_function_handler = Some sample_service, bind_function_context = Some (), bind_variable_resolver = None,
     bind_variable_context = None\<rparr>]"

lemma sample_module_ok: "well_formed_module sample_module"
proof -
  have "\<exists>b\<in>set (sha256 sample_image). b \<noteq> 0" by (simp add: sample_digest be_bytes32_def)
  moreover have "valid_import (mod_descriptor sample_module) sample_import"
    by (simp add: sample_module_def sample_import_def valid_import_def is_valid_library_def is_portable_key_character_def
        char_within_def is_valid_import_name_def encodable_def import_addresses_valid_def is_inside_def code_end_def
        image_end_def Let_def)
  ultimately show ?thesis
    by (simp add: well_formed_module_def sample_module_def valid_manifest_def image_end_def code_end_def is_inside_def
        sample_image_def Let_def)
qed

lemma sample_handlers_fit: "list_all2 binding_fits (mod_import_manifest sample_module) sample_handlers"
  by (simp add: sample_module_def sample_handlers_def sample_import_def binding_fits_def)

lemma sample_laws: "image_laws (toy_xenia ok) toy_resolver sample_module sample_handlers"
proof -
  have "xm_lookup_heap toy_memory (0x10000 + word_of_nat i) = Some 0" if "i < 32" for i
  proof -
    have "unat (0x10000 + word_of_nat i :: u32) = unat (0x10000 :: u32) + i"
      by (rule image_offset_unat [where n = 32]) (use that in simp_all)
    with that show ?thesis by (simp add: toy_memory_def word_less_nat_alt)
  qed
  moreover have "loader_keeps_bytes (toy_xenia ok)"
    by (simp add: loader_keeps_bytes_def linker_keeps_def toy_xenia_def)
  ultimately show ?thesis
    using toy_heap_bytes toy_linker_keeps toy_linker_maps
    by (simp add: image_laws_def toy_xenia_def sample_module_def split: option.splits sum.splits) blast
qed

lemma toy_attach_export: "attach_export toy_memory toy_linker l p e x = (f, x') \<Longrightarrow> \<not> fails f"
  by (auto simp: attach_export_def toy_linker_def Let_def fails_def no_failure_def split: if_splits)

lemma toy_attach_exports: "attach_exports toy_memory toy_linker l ti j es x = (f, es', x') \<Longrightarrow> \<not> fails f"
  by (induction es arbitrary: j x f es' x')
    (auto simp: Let_def fails_def no_failure_def dest: toy_attach_export [unfolded fails_def] split: prod.splits if_splits)

lemma toy_attach_tables: "attach_tables toy_memory toy_linker ti ts x = (f, ts', x') \<Longrightarrow> \<not> fails f"
  by (induction ts arbitrary: ti x f ts' x')
    (auto simp: Let_def fails_def no_failure_def dest: toy_attach_exports [unfolded fails_def] split: prod.splits if_splits)

lemma sample_load_image: "fst (load_image (toy_xenia ok) sample_module tables rt)"
proof -
  obtain f ts x where attach: "attach_tables toy_memory toy_linker 0 tables
      (xm_store toy_memory (img_base (desc_image (mod_descriptor sample_module))) (mod_image_bytes sample_module) (rt_xenia rt)) = (f, ts, x)"
    by (metis prod_cases3)
  with toy_attach_tables [OF attach] show ?thesis
    by (simp add: load_image_def toy_xenia_def attach_imports_def Let_def arm_def disarm_def new_invalidation_def
        rearm_def sample_module_def fails_def no_failure_def)
qed

lemma sample_load_succeeds:
  "\<exists>f rt. load_module (toy_xenia ok) toy_resolver sample_module sample_handlers toy_runtime = Some (f, rt) \<and> \<not> fails f"
proof -
  have fresh: "\<not> rt_load_failed toy_runtime" "\<not> rt_module toy_runtime"
    by (simp_all add: toy_runtime_def toy_create_simps)
  have "\<exists>tables. create_imports toy_resolver (mod_import_manifest sample_module) sample_handlers = Some (Inr tables)"
    by (simp add: create_imports_def sample_module_def sample_import_def sample_handlers_def)
  then obtain tables where tables:
    "create_imports toy_resolver (mod_import_manifest sample_module) sample_handlers = Some (Inr tables)" by blast
  obtain committed f rt where load: "load_image (toy_xenia ok) sample_module tables toy_runtime = (committed, f, rt)"
    by (metis prod_cases3)
  with sample_load_image [of ok tables toy_runtime] have "committed" by simp
  moreover from this load_image_cases(1) [OF load] have "\<not> fails f" by simp
  moreover have "xm_lookup_heap (xn_memory (toy_xenia ok)) (img_base (desc_image (mod_descriptor sample_module))) = Some 0"
    "xn_alloc_fixed (toy_xenia ok) h a n x = (True, x)" for h a n x
    by (simp_all add: toy_xenia_def toy_memory_def sample_module_def)
  ultimately show ?thesis using fresh tables load sample_module_ok sample_handlers_fit
    by (simp add: load_module_def accepted_iff_well_formed validate_imports_accepted Let_def)
qed

theorem load_module_outcome_witness:
  "case load_module (toy_xenia True) toy_resolver sample_module sample_handlers toy_runtime of
     None \<Rightarrow> False
   | Some (f, rt) \<Rightarrow> \<not> fails f \<and> xm_load toy_memory 0x10002 1 (rt_xenia rt) = [0x00]
       \<and> xm_load toy_memory 0x10001 1 (rt_xenia rt) = [0x80]
       \<and> xm_load toy_memory 0x10014 4 (rt_xenia rt) = be_bytes32 0x4E800020
       \<and> (case rt_imports rt of None \<Rightarrow> False | Some tables \<Rightarrow>
            map_option oe_context (lookup_export tables ''xam.xex'' 5) = Some (Some ())
            \<and> lookup_export tables ''xam.xex'' 4 = None)"
proof -
  let ?rt = "toy_runtime"
  obtain f rt where run: "load_module (toy_xenia True) toy_resolver sample_module sample_handlers ?rt = Some (f, rt)"
      and f: "\<not> fails f" using sample_load_succeeds by blast
  have fresh: "\<not> rt_load_failed ?rt" "\<not> rt_module ?rt" by (simp_all add: toy_runtime_def toy_create_simps)
  note law = load_module_outcome [OF sample_laws [of True], of ?rt, unfolded run, simplified fresh, simplified]
  then have memory: "image_in_memory toy_memory sample_module (manifest_writes toy_resolver sample_module sample_handlers) (rt_xenia rt)"
    and loaded: "loaded_as (toy_xenia True) toy_resolver sample_module sample_handlers rt"
    using f by (simp_all add: toy_xenia_def)
  let ?ws = "manifest_writes toy_resolver sample_module sample_handlers"
  have ws: "?ws = [(0x10010, be_bytes32 0x44000042), (0x10014, be_bytes32 0x4E800020),
      (0x10018, be_bytes32 0x60000000), (0x1001C, be_bytes32 0x60000000)]"
    by (simp add: manifest_writes_def import_writes_def sample_module_def sample_handlers_def sample_import_def)
  have "sorted_wrt writes_apart ?ws" unfolding ws by (simp add: writes_apart_def span_of_def)
  with memory have "\<forall>(a, bs)\<in>set ?ws. xm_load toy_memory a (length bs) (rt_xenia rt) = bs"
    by (simp add: image_in_memory_def Let_def)
  then have thunk: "xm_load toy_memory 0x10014 4 (rt_xenia rt) = be_bytes32 0x4E800020" unfolding ws by simp
  have byte: "xm_load toy_memory (0x10000 + word_of_nat i) 1 (rt_xenia rt) = [sample_image ! i]" if "i < 16" for i
  proof -
    have "\<forall>(a, bs)\<in>set ?ws. 0x10000 + i \<notin> span_of a (length bs)" unfolding ws using that by (simp add: span_of_def)
    then show ?thesis using memory that
      by (simp add: image_in_memory_def Let_def sample_module_def sample_image_def)
  qed
  from loaded obtain tables where tables: "rt_imports rt = Some tables" "\<forall>l k. lookup_export tables l k =
      map_option (loaded_export toy_resolver) (find (keyed l k) (zip (mod_import_manifest sample_module) sample_handlers))"
    by (auto simp: loaded_as_def)
  show ?thesis using run f thunk byte [of 2] byte [of 1] tables
    by (simp add: sample_image_def sample_module_def sample_handlers_def sample_import_def
        keyed_def loaded_export_def)
qed

theorem reachable_runtime_image_witness:
  "case allocate_guest_memory (toy_xenia True) 0x20 toy_runtime of (a, rt) \<Rightarrow>
     rt_processor rt \<and> rt_image_address rt = 0 \<and> find_override (rt_overrides rt) 4 = None"
proof -
  let ?run = "allocate_guest_memory (toy_xenia True) 0x20 toy_runtime"
  obtain f ls where "runtime_create (toy_xenia True) 1 (leases_of None) toy_start = (f, ls, Inl toy_runtime)"
    using toy_runtime_created by blast
  then have "runtime_reachable (toy_xenia True) toy_resolver toy_runtime" by (rule Created)
  then have "runtime_reachable (toy_xenia True) toy_resolver (snd ?run)" by (rule Allocate [OF _ prod.collapse [symmetric]])
  note law = reachable_runtime_image [OF this]
  have "rt_module (snd ?run) = rt_module toy_runtime"
    using operations_keep_image(5) [OF prod.collapse [symmetric, of ?run]] by (simp add: same_image_def)
  with law toy_runtime_empty show ?thesis by (simp add: case_prod_beta)
qed

theorem only_validated_code_runs_witness:
  "case runtime_execute (toy_xenia True) 0x82000000 [] default_limits toy_runtime of
     None \<Rightarrow> False | Some (r, rt) \<Rightarrow> fails (exr_failure r)"
proof -
  obtain f ls where "runtime_create (toy_xenia True) 1 (leases_of None) toy_start = (f, ls, Inl toy_runtime)"
    using toy_runtime_created by blast
  then have "runtime_reachable (toy_xenia True) toy_resolver toy_runtime" by (rule Created)
  from only_validated_code_runs [OF this, where address = "0x82000000" and arguments = "[]" and limits = default_limits] toy_runtime_empty show ?thesis
    by (auto simp: refused_call_def fails_def failure_def split: prod.splits)
qed

end
