(* ===== verification/Xam_Input.thy ===== *)
theory Xam_Input imports Guest_Import Runtime_Imports begin

text \<open>
  The platform's controller exports: \<open>XamInputService\<close> of \<open>src/xam_input.cpp\<close>. The two readers are host
  code given to the service; they may change the host's part of the world. The encoders store into
  fixed arrays, so they live in the option monad: \<open>None\<close> would be a store outside the array. The
  signed thumb axes are 16-bit words, which is what the casts in front of the stores leave.
\<close>

section \<open>Data\<close>

definition k_xam_input_device_not_connected :: u32 where "k_xam_input_device_not_connected = 0x48F"
definition k_xam_input_bad_arguments :: u32 where "k_xam_input_bad_arguments = 0xA0"
definition k_input_state_bytes :: nat where "k_input_state_bytes = 16"
definition k_input_capabilities_bytes :: nat where "k_input_capabilities_bytes = 20"

record xam_gamepad =
  pad_buttons :: u16
  pad_left_trigger :: byte
  pad_right_trigger :: byte
  pad_thumb_lx :: u16
  pad_thumb_ly :: u16
  pad_thumb_rx :: u16
  pad_thumb_ry :: u16

record xam_pad_snapshot =
  snap_connected :: bool
  snap_packet_number :: u32
  snap_gamepad :: xam_gamepad

record xam_pad_capabilities =
  cap_connected :: bool
  cap_type :: byte
  cap_sub_type :: byte
  cap_flags :: u16
  cap_supported_gamepad :: xam_gamepad
  cap_left_motor_speed :: u16
  cap_right_motor_speed :: u16

record xam_input_request =
  xir_user_index :: u32
  xir_flags :: u32

type_synonym ('s, 'c, 'x) pad_reader = "xam_input_request \<Rightarrow> 'c \<Rightarrow> 'x \<Rightarrow> 's \<times> 'x"

record ('c, 'x) xam_input_service =
  xis_state_reader :: "(xam_pad_snapshot, 'c, 'x) pad_reader option"
  xis_capabilities_reader :: "(xam_pad_capabilities, 'c, 'x) pad_reader option"
  xis_reader_context :: 'c

section \<open>Encoding\<close>

definition store_gamepad :: "bytes \<Rightarrow> nat \<Rightarrow> xam_gamepad \<Rightarrow> bytes option" where
  "store_gamepad bs offset g = do {
     bs \<leftarrow> store_be16 bs offset (pad_buttons g);
     bs \<leftarrow> put_byte bs (offset + 2) (pad_left_trigger g);
     bs \<leftarrow> put_byte bs (offset + 3) (pad_right_trigger g);
     bs \<leftarrow> store_be16 bs (offset + 4) (pad_thumb_lx g);
     bs \<leftarrow> store_be16 bs (offset + 6) (pad_thumb_ly g);
     bs \<leftarrow> store_be16 bs (offset + 8) (pad_thumb_rx g);
     store_be16 bs (offset + 10) (pad_thumb_ry g) }"

definition encode_state :: "xam_pad_snapshot \<Rightarrow> bytes option" where
  "encode_state snapshot =
     (let bs = replicate k_input_state_bytes 0 in
      if \<not> snap_connected snapshot then Some bs
      else do {
        bs \<leftarrow> store_be32 bs 0 (snap_packet_number snapshot);
        store_gamepad bs 4 (snap_gamepad snapshot) })"

definition encode_capabilities :: "xam_pad_capabilities \<Rightarrow> bytes option" where
  "encode_capabilities capabilities =
     (let bs = replicate k_input_capabilities_bytes 0 in
      if \<not> cap_connected capabilities then Some bs
      else do {
        bs \<leftarrow> put_byte bs 0 (cap_type capabilities);
        bs \<leftarrow> put_byte bs 1 (cap_sub_type capabilities);
        bs \<leftarrow> store_be16 bs 2 (cap_flags capabilities);
        bs \<leftarrow> store_gamepad bs 4 (cap_supported_gamepad capabilities);
        bs \<leftarrow> store_be16 bs 16 (cap_left_motor_speed capabilities);
        store_be16 bs 18 (cap_right_motor_speed capabilities) })"

section \<open>The exports\<close>

definition request_of :: "import_context \<Rightarrow> xam_input_request" where
  "request_of ic = \<lparr>xir_user_index = ucast (argument ic 0), xir_flags = ucast (argument ic 1)\<rparr>"

definition pad_status :: "bool \<Rightarrow> u64" where
  "pad_status connected = (if connected then 0 else ucast k_xam_input_device_not_connected)"

definition get_state ::
  "'x xenia_memory \<Rightarrow> ('c, 'x) xam_input_service \<Rightarrow> import_context \<Rightarrow> 'x \<Rightarrow>
   (import_context \<times> 'x) option" where
  "get_state xm svc ic x =
     (case xis_state_reader svc of
        None \<Rightarrow> Some (refuse_import HostUnavailable ic, x)
      | Some reader \<Rightarrow>
          (case reader (request_of ic) (xis_reader_context svc) x of (snapshot, x) \<Rightarrow>
           (let address = ucast (argument ic 2); done = set_return_value (pad_status (snap_connected snapshot)) ic in
            if address \<noteq> 0
            then do {
              bs \<leftarrow> encode_state snapshot;
              case write_memory xm ic address bs x of (ok, x) \<Rightarrow>
                Some (if \<not> ok then refuse_import InvalidGuestMemory ic else done, x) }
            else Some (done, x))))"

definition get_capabilities ::
  "'x xenia_memory \<Rightarrow> ('c, 'x) xam_input_service \<Rightarrow> import_context \<Rightarrow> 'x \<Rightarrow>
   (import_context \<times> 'x) option" where
  "get_capabilities xm svc ic x =
     (case xis_capabilities_reader svc of
        None \<Rightarrow> Some (refuse_import HostUnavailable ic, x)
      | Some reader \<Rightarrow>
          (let address = ucast (argument ic 2) in
           if address = 0 then Some (set_return_value (ucast k_xam_input_bad_arguments) ic, x)
           else (case reader (request_of ic) (xis_reader_context svc) x of (capabilities, x) \<Rightarrow> do {
             bs \<leftarrow> encode_capabilities capabilities;
             case write_memory xm ic address bs x of (ok, x) \<Rightarrow>
               Some (if \<not> ok then refuse_import InvalidGuestMemory ic
                 else set_return_value (pad_status (cap_connected capabilities)) ic, x) })))"

text \<open>\<open>Claims\<close>: the handlers are the two exports over the service, the context is the service.\<close>

definition xam_input_claims :: "'h \<Rightarrow> 'h \<Rightarrow> 'c \<Rightarrow> ('h, 'c) import_claim list" where
  "xam_input_claims state capabilities service =
     [\<lparr>clm_library = Xam, clm_export_name = ''XamInputGetState'', clm_handler = Some state,
       clm_context = Some service\<rparr>,
      \<lparr>clm_library = Xam, clm_export_name = ''XamInputGetCapabilities'', clm_handler = Some capabilities,
       clm_context = Some service\<rparr>]"

section \<open>What the guest decodes\<close>

definition gamepad_bytes :: "xam_gamepad \<Rightarrow> bytes" where
  "gamepad_bytes g = be_bytes16 (pad_buttons g) @ [pad_left_trigger g, pad_right_trigger g]
     @ be_bytes16 (pad_thumb_lx g) @ be_bytes16 (pad_thumb_ly g)
     @ be_bytes16 (pad_thumb_rx g) @ be_bytes16 (pad_thumb_ry g)"

lemma encode_state_eq:
  "encode_state s = Some (if snap_connected s
     then be_bytes32 (snap_packet_number s) @ gamepad_bytes (snap_gamepad s) else replicate 16 0)"
  by (simp add: encode_state_def store_gamepad_def byte_simps overwrite_def k_input_state_bytes_def
      gamepad_bytes_def be_bytes16_def be_bytes32_def numeral_eq_Suc Let_def)

lemma encode_capabilities_eq:
  "encode_capabilities c = Some (if cap_connected c
     then [cap_type c, cap_sub_type c] @ be_bytes16 (cap_flags c) @ gamepad_bytes (cap_supported_gamepad c)
       @ be_bytes16 (cap_left_motor_speed c) @ be_bytes16 (cap_right_motor_speed c)
     else replicate 20 0)"
  by (simp add: encode_capabilities_def store_gamepad_def byte_simps overwrite_def
      k_input_capabilities_bytes_def gamepad_bytes_def be_bytes16_def numeral_eq_Suc Let_def)


text \<open>The layouts of \<open>X_INPUT_STATE\<close> and \<open>X_INPUT_CAPABILITIES\<close> as the guest reads them.\<close>

definition decode_gamepad :: "bytes \<Rightarrow> nat \<Rightarrow> xam_gamepad option" where
  "decode_gamepad bs offset = do {
     buttons \<leftarrow> read_u16_be bs offset;
     lt \<leftarrow> byte_at bs (offset + 2);
     rt \<leftarrow> byte_at bs (offset + 3);
     lx \<leftarrow> read_u16_be bs (offset + 4);
     ly \<leftarrow> read_u16_be bs (offset + 6);
     rx \<leftarrow> read_u16_be bs (offset + 8);
     ry \<leftarrow> read_u16_be bs (offset + 10);
     Some \<lparr>pad_buttons = buttons, pad_left_trigger = lt, pad_right_trigger = rt, pad_thumb_lx = lx,
       pad_thumb_ly = ly, pad_thumb_rx = rx, pad_thumb_ry = ry\<rparr> }"

definition decode_state :: "bytes \<Rightarrow> (u32 \<times> xam_gamepad) option" where
  "decode_state bs = do { n \<leftarrow> read_u32_be bs 0; g \<leftarrow> decode_gamepad bs 4; Some (n, g) }"

definition no_gamepad :: xam_gamepad where
  "no_gamepad = \<lparr>pad_buttons = 0, pad_left_trigger = 0, pad_right_trigger = 0, pad_thumb_lx = 0,
     pad_thumb_ly = 0, pad_thumb_rx = 0, pad_thumb_ry = 0\<rparr>"

definition no_capabilities :: xam_pad_capabilities where
  "no_capabilities = \<lparr>cap_connected = True, cap_type = 0, cap_sub_type = 0, cap_flags = 0,
     cap_supported_gamepad = no_gamepad, cap_left_motor_speed = 0, cap_right_motor_speed = 0\<rparr>"

definition decode_capabilities :: "bytes \<Rightarrow> xam_pad_capabilities option" where
  "decode_capabilities bs = do {
     t \<leftarrow> byte_at bs 0;
     s \<leftarrow> byte_at bs 1;
     flags \<leftarrow> read_u16_be bs 2;
     g \<leftarrow> decode_gamepad bs 4;
     left \<leftarrow> read_u16_be bs 16;
     right \<leftarrow> read_u16_be bs 18;
     Some \<lparr>cap_connected = True, cap_type = t, cap_sub_type = s, cap_flags = flags,
       cap_supported_gamepad = g, cap_left_motor_speed = left, cap_right_motor_speed = right\<rparr> }"

lemma be_pair: "push_bit 8 (ucast (ucast (drop_bit 8 h :: u16) :: byte)) OR ucast (ucast h :: byte) = (h :: u16)"
  by (rule bit_word_eqI) (auto simp: bit_simps)

lemma be_quad:
  "push_bit 24 (ucast (ucast (drop_bit 24 w :: u32) :: byte))
     OR (push_bit 16 (ucast (ucast (drop_bit 16 w) :: byte))
       OR (push_bit 8 (ucast (ucast (drop_bit 8 w) :: byte)) OR ucast (ucast w :: byte))) = w"
  using word_of_be_bytes [of w] by (simp add: word_of_be_def or.assoc)

lemmas decode_simps = read_u16_be_def read_u32_be_def byte_at_def be_bytes16_def be_bytes32_def
  be_pair be_quad or.assoc

lemma decode_gamepad_bytes:
  "length pre = 4 \<Longrightarrow> decode_gamepad (pre @ gamepad_bytes g @ post) 4 = Some g"
  by (simp add: decode_gamepad_def gamepad_bytes_def decode_simps nth_append)

lemma decode_zeros: "16 \<le> n \<Longrightarrow> decode_gamepad (replicate n 0) 4 = Some no_gamepad"
  by (simp add: decode_gamepad_def decode_simps no_gamepad_def)

lemma decode_encoded_state:
  "encode_state s = Some bs \<Longrightarrow> length bs = 16 \<and> decode_state bs =
     Some (if snap_connected s then (snap_packet_number s, snap_gamepad s) else (0, no_gamepad))"
  using decode_gamepad_bytes [of "be_bytes32 (snap_packet_number s)" "snap_gamepad s" "[]"]
  by (auto simp: encode_state_eq decode_state_def decode_zeros) 
    (simp_all add: decode_simps gamepad_bytes_def)

lemma decode_encoded_capabilities:
  "encode_capabilities c = Some bs \<Longrightarrow> length bs = 20 \<and> decode_capabilities bs =
     Some (if cap_connected c then c else no_capabilities)"
proof -
  assume "encode_capabilities c = Some bs"
  then have bs: "bs = (if cap_connected c
     then [cap_type c, cap_sub_type c] @ be_bytes16 (cap_flags c) @ gamepad_bytes (cap_supported_gamepad c)
       @ be_bytes16 (cap_left_motor_speed c) @ be_bytes16 (cap_right_motor_speed c)
     else replicate 20 0)" by (simp add: encode_capabilities_eq)
  have pad: "decode_gamepad ([cap_type c, cap_sub_type c] @ be_bytes16 (cap_flags c)
      @ gamepad_bytes (cap_supported_gamepad c)
      @ be_bytes16 (cap_left_motor_speed c) @ be_bytes16 (cap_right_motor_speed c)) 4
    = Some (cap_supported_gamepad c)"
    using decode_gamepad_bytes [of "[cap_type c, cap_sub_type c] @ be_bytes16 (cap_flags c)"] by simp
  show ?thesis
    by (cases "cap_connected c")
      (simp_all add: bs decode_capabilities_def pad decode_zeros no_capabilities_def,
       simp_all add: decode_simps gamepad_bytes_def decode_gamepad_def)
qed

section \<open>Property\<close>

text \<open>What an export that answers through a buffer leaves: the buffer decodes to its answer, or the call is
  refused with nothing written.\<close>

definition answered ::
  "'x xenia_memory \<Rightarrow> (bytes \<Rightarrow> bool) \<Rightarrow> nat \<Rightarrow> u64 \<Rightarrow> import_context \<Rightarrow> 'x \<Rightarrow> import_context \<times> 'x \<Rightarrow> bool" where
  "answered xm holds n status ic x r \<longleftrightarrow>
     (let address = ucast (argument ic 2) in
      if is_accessible xm (ic_memory ic) address n True x
      then fst r = set_return_value status ic \<and> holds (xm_load xm address n (snd r))
      else r = (refuse_import InvalidGuestMemory ic, x))"

lemma answeredI:
  assumes "heap_bytes xm" "length bs = n" "bs \<noteq> []" "holds bs"
    and "write_memory xm ic (ucast (argument ic 2)) bs x = (ok, x')"
  shows "answered xm holds n status ic x
    (if ok then set_return_value status ic else refuse_import InvalidGuestMemory ic, x')"
proof -
  have ok: "is_accessible xm (ic_memory ic) (ucast (argument ic 2)) n True x \<longleftrightarrow> ok"
    using assms(2,5) imported.accepted_write [of xm ic "ucast (argument ic 2)" bs x] by simp
  show ?thesis
  proof (cases ok)
    case True
    with stored_buffer [OF assms(1) _ assms(3), of ic "ucast (argument ic 2)" x x'] assms ok
    show ?thesis by (simp add: answered_def Let_def)
  next
    case False
    with refused_buffer assms(5) ok show ?thesis by (simp add: answered_def Let_def)
  qed
qed

definition state_of :: "xam_pad_snapshot \<Rightarrow> u32 \<times> xam_gamepad" where
  "state_of s = (if snap_connected s then (snap_packet_number s, snap_gamepad s) else (0, no_gamepad))"

definition capabilities_of :: "xam_pad_capabilities \<Rightarrow> xam_pad_capabilities" where
  "capabilities_of c = (if cap_connected c then c else no_capabilities)"

lemma get_state_answers:
  assumes "heap_bytes xm" "xis_state_reader svc = Some reader"
    and "reader (request_of ic) (xis_reader_context svc) x = (s, x1)"
  shows "\<exists>r. get_state xm svc ic x = Some r \<and>
    (if ucast (argument ic 2) = (0 :: u32) then r = (set_return_value (pad_status (snap_connected s)) ic, x1)
     else answered xm (\<lambda>bs. decode_state bs = Some (state_of s)) 16 (pad_status (snap_connected s)) ic x1 r)"
proof -
  obtain bs where bs: "encode_state s = Some bs" by (simp add: encode_state_eq)
  obtain ok x' where stored: "write_memory xm ic (ucast (argument ic 2)) bs x1 = (ok, x')" by fastforce
  note decoded = decode_encoded_state [OF bs]
  then have "bs \<noteq> []" by auto
  with answeredI [OF assms(1) _ _ _ stored, where n = 16] decoded assms(2,3) bs stored
  show ?thesis by (auto simp: get_state_def Let_def state_of_def)
qed

lemma get_capabilities_answers:
  assumes "heap_bytes xm" "xis_capabilities_reader svc = Some reader"
    and "reader (request_of ic) (xis_reader_context svc) x = (c, x1)"
  shows "\<exists>r. get_capabilities xm svc ic x = Some r \<and>
    (if ucast (argument ic 2) = (0 :: u32) then r = (set_return_value 0xA0 ic, x)
     else answered xm (\<lambda>bs. decode_capabilities bs = Some (capabilities_of c)) 20
       (pad_status (cap_connected c)) ic x1 r)"
proof -
  obtain bs where bs: "encode_capabilities c = Some bs" by (simp add: encode_capabilities_eq)
  obtain ok x' where stored: "write_memory xm ic (ucast (argument ic 2)) bs x1 = (ok, x')" by fastforce
  note decoded = decode_encoded_capabilities [OF bs]
  then have "bs \<noteq> []" by auto
  with answeredI [OF assms(1) _ _ _ stored, where n = 20] decoded assms(2,3) bs stored
  show ?thesis
    by (auto simp: get_capabilities_def Let_def capabilities_of_def k_xam_input_bad_arguments_def)
qed

text \<open>C27: \<open>XamInputGetState\<close> and \<open>XamInputGetCapabilities\<close> never store outside their arrays. The
  buffer afterwards decodes to what the reader said (to zeros for an absent pad) and the status says
  whether the pad is connected, unless the guest cannot write the buffer: then the call is refused and
  nothing is written. A state call without a buffer answers the status alone; a capabilities call
  without one answers bad arguments without asking the reader.\<close>

theorem xam_exports_answer:
  assumes "heap_bytes xm" "xis_state_reader svc = Some state" "xis_capabilities_reader svc = Some capabilities"
    and "state (request_of ic) (xis_reader_context svc) x = (s, x1)"
    and "capabilities (request_of ic) (xis_reader_context svc) x = (c, x2)"
  shows "\<exists>r q. get_state xm svc ic x = Some r \<and> get_capabilities xm svc ic x = Some q \<and>
    (if ucast (argument ic 2) = (0 :: u32)
     then r = (set_return_value (pad_status (snap_connected s)) ic, x1) \<and> q = (set_return_value 0xA0 ic, x)
     else answered xm (\<lambda>bs. decode_state bs = Some (state_of s)) 16 (pad_status (snap_connected s)) ic x1 r
       \<and> answered xm (\<lambda>bs. decode_capabilities bs = Some (capabilities_of c)) 20
           (pad_status (cap_connected c)) ic x2 q)"
proof -
  from get_state_answers [OF assms(1,2,4)] obtain r where "get_state xm svc ic x = Some r"
    "if ucast (argument ic 2) = (0 :: u32) then r = (set_return_value (pad_status (snap_connected s)) ic, x1)
     else answered xm (\<lambda>bs. decode_state bs = Some (state_of s)) 16 (pad_status (snap_connected s)) ic x1 r"
    by blast
  moreover from get_capabilities_answers [OF assms(1,3,5)] obtain q where
    "get_capabilities xm svc ic x = Some q"
    "if ucast (argument ic 2) = (0 :: u32) then q = (set_return_value 0xA0 ic, x)
     else answered xm (\<lambda>bs. decode_capabilities bs = Some (capabilities_of c)) 20
       (pad_status (cap_connected c)) ic x2 q"
    by blast
  ultimately show ?thesis by (intro exI [of _ r] exI [of _ q]) (simp split: if_splits)
qed

definition sample_pad :: xam_gamepad where
  "sample_pad = no_gamepad\<lparr>pad_buttons := 0x1001, pad_thumb_lx := 0x8000\<rparr>"

definition sample_service :: "(unit, toy_state) xam_input_service" where
  "sample_service = \<lparr>xis_state_reader = Some (\<lambda>r c x.
       (\<lparr>snap_connected = True, snap_packet_number = 7, snap_gamepad = sample_pad\<rparr>, x)),
     xis_capabilities_reader = Some (\<lambda>r c x. (no_capabilities\<lparr>cap_connected := False\<rparr>, x)),
     xis_reader_context = ()\<rparr>"

theorem xam_exports_answer_witness:
  "\<exists>r. get_state toy_memory sample_service (new_import_context [0, 0, 0x100, 0, 0, 0, 0, 0] True) toy_start = Some r
     \<and> ic_return_value (fst r) = 0
     \<and> decode_state (xm_load toy_memory 0x100 16 (snd r)) = Some (7, sample_pad)"
proof -
  let ?ic = "new_import_context [0, 0, 0x100, 0, 0, 0, 0, 0] True"
  let ?s = "\<lparr>snap_connected = True, snap_packet_number = 7, snap_gamepad = sample_pad\<rparr>"
  let ?c = "no_capabilities\<lparr>cap_connected := False\<rparr>"
  have "xis_state_reader sample_service = Some (\<lambda>r c x. (?s, x))"
    and "xis_capabilities_reader sample_service = Some (\<lambda>r c x. (?c, x))"
    by (simp_all add: sample_service_def)
  note law = xam_exports_answer [OF toy_heap_bytes this refl refl, of ?ic toy_start]
  have "argument ?ic 2 = 0x100" by (simp add: argument_def new_import_context_def)
  moreover have "is_accessible toy_memory (ic_memory ?ic) 0x100 16 True toy_start"
    by (simp add: is_accessible_def toy_memory_def toy_start_def new_import_context_def is_writable_def Let_def)
  ultimately show ?thesis using law
    by (auto simp: answered_def Let_def state_of_def pad_status_def set_return_value_def)
qed

end
