(* ===== verification/Guest_Virtual_Memory.thy ===== *)
theory Guest_Virtual_Memory imports Guest_Import Runtime_Imports begin

text \<open>
  The kernel's virtual-memory exports: \<open>src/guest_virtual_memory.cpp\<close>. Xenia's heaps, the protection
  conversions, \<open>round_up\<close> and the numeric values of the kernel's constants are vendored, so they are
  parameters: \<open>xenia_heaps\<close> over Xenia's state and \<open>kernel_constants\<close>.

  Negating the most negative size is undefined behaviour in C++, so normalizing a size lives in the
  option monad, and with it the allocation export: \<open>None\<close> says that the code has no defined answer.
\<close>

section \<open>Xenia's side\<close>

record kernel_constants =
  x_mem_commit :: u32
  x_mem_reserve :: u32
  x_mem_decommit :: u32
  x_mem_release :: u32
  x_mem_free :: u32
  x_mem_private :: u32
  x_mem_reset :: u32
  x_mem_top_down :: u32
  x_mem_nozero :: u32
  x_mem_large_pages :: u32
  k_memory_allocation_reserve :: u32
  k_memory_allocation_commit :: u32
  k_memory_protect_read :: u32
  k_memory_protect_write :: u32
  x_status_success :: u32
  x_status_invalid_parameter :: u32
  x_status_access_denied :: u32
  x_status_no_memory :: u32
  x_status_memory_not_allocated :: u32
  x_status_unsuccessful :: u32

record heap_allocation_info =
  hai_base_address :: u32
  hai_allocation_base :: u32
  hai_allocation_protect :: u32
  hai_region_size :: u32
  hai_state :: u32
  hai_protect :: u32

text \<open>\<open>xh_alloc\<close> gives the address the call leaves in its output, which starts as 0.\<close>

record 'x xenia_heaps =
  xh_memory :: "'x xenia_memory"
  xh_guest_virtual :: "nat \<Rightarrow> bool"
  xh_page_size :: "nat \<Rightarrow> u32"
  xh_lookup_by_type :: "bool \<Rightarrow> u32 \<Rightarrow> nat option"
  xh_query_region :: "nat \<Rightarrow> u32 \<Rightarrow> 'x \<Rightarrow> heap_allocation_info option"
  xh_alloc_fixed :: "nat \<Rightarrow> u32 \<Rightarrow> u32 \<Rightarrow> u32 \<Rightarrow> u32 \<Rightarrow> u32 \<Rightarrow> 'x \<Rightarrow> bool \<times> 'x"
  xh_alloc :: "nat \<Rightarrow> u32 \<Rightarrow> u32 \<Rightarrow> u32 \<Rightarrow> u32 \<Rightarrow> bool \<Rightarrow> 'x \<Rightarrow> u32 \<times> 'x"
  xh_decommit :: "nat \<Rightarrow> u32 \<Rightarrow> u32 \<Rightarrow> 'x \<Rightarrow> bool \<times> 'x"
  xh_release :: "nat \<Rightarrow> u32 \<Rightarrow> 'x \<Rightarrow> u32 option \<times> 'x"
  xh_protect :: "nat \<Rightarrow> u32 \<Rightarrow> u32 \<Rightarrow> u32 \<Rightarrow> 'x \<Rightarrow> 'x"
  xh_zero :: "u32 \<Rightarrow> u32 \<Rightarrow> 'x \<Rightarrow> 'x"
  xh_round_up :: "u32 \<Rightarrow> u32 \<Rightarrow> u32"
  xh_to_xdk_protect :: "u32 \<Rightarrow> u32"
  xh_from_xdk_protect :: "u32 \<Rightarrow> u32"

abbreviation xh_lookup_heap :: "'x xenia_heaps \<Rightarrow> u32 \<Rightarrow> nat option" where
  "xh_lookup_heap xh \<equiv> xm_lookup_heap (xh_memory xh)"

section \<open>Requests\<close>

definition k_small_page_size :: u32 where "k_small_page_size = 4 * 1024"
definition k_large_page_size :: u32 where "k_large_page_size = 64 * 1024"
definition k_memory_basic_information_bytes :: nat where "k_memory_basic_information_bytes = 28"

record requested_region =
  rgn_base :: u32
  rgn_size :: u32

record allocation_policy =
  pol_alloc_type :: u32
  pol_protect :: u32

definition normalize_requested_size :: "u32 \<Rightarrow> u32 option" where
  "normalize_requested_size n =
     (let signed_size = sint n in
      if signed_size < 0
      then (if - signed_size < 2 ^ 31 then Some (word_of_int (- signed_size)) else None)
      else Some n)"

definition allocation_flags :: "kernel_constants \<Rightarrow> u32 \<Rightarrow> u32" where
  "allocation_flags kc alloc_type =
     (if alloc_type AND x_mem_reserve kc \<noteq> 0 then k_memory_allocation_reserve kc else 0)
     OR (if alloc_type AND x_mem_commit kc \<noteq> 0 then k_memory_allocation_commit kc else 0)"

definition zero_newly_committed_pages ::
  "kernel_constants \<Rightarrow> 'x xenia_heaps \<Rightarrow> nat \<Rightarrow> u32 \<Rightarrow> u32 \<Rightarrow> allocation_policy \<Rightarrow> 'x \<Rightarrow> 'x" where
  "zero_newly_committed_pages kc xh heap address n policy x =
     (if pol_alloc_type policy AND x_mem_nozero kc \<noteq> 0 \<or> pol_alloc_type policy AND x_mem_commit kc = 0
      then x
      else (let writable = (pol_protect policy AND k_memory_protect_write kc \<noteq> 0);
                x = (if \<not> writable
                  then xh_protect xh heap address n (k_memory_protect_read kc OR k_memory_protect_write kc) x
                  else x);
                x = xh_zero xh address n x
            in if \<not> writable then xh_protect xh heap address n (pol_protect policy) x else x))"

definition guest_allocation_state :: "kernel_constants \<Rightarrow> u32 \<Rightarrow> u32" where
  "guest_allocation_state kc st =
     (if st AND k_memory_allocation_commit kc \<noteq> 0 then x_mem_commit kc
      else if st AND k_memory_allocation_reserve kc \<noteq> 0 then x_mem_reserve kc
      else x_mem_free kc)"

definition encode_region_info ::
  "kernel_constants \<Rightarrow> 'x xenia_heaps \<Rightarrow> heap_allocation_info \<Rightarrow> bytes option" where
  "encode_region_info kc xh info = do {
     bs \<leftarrow> store_be32 (replicate k_memory_basic_information_bytes 0) 0 (hai_base_address info);
     bs \<leftarrow> store_be32 bs 4 (hai_allocation_base info);
     bs \<leftarrow> store_be32 bs 8 (xh_to_xdk_protect xh (hai_allocation_protect info));
     bs \<leftarrow> store_be32 bs 12 (hai_region_size info);
     bs \<leftarrow> store_be32 bs 16 (guest_allocation_state kc (hai_state info));
     bs \<leftarrow> store_be32 bs 20 (xh_to_xdk_protect xh (hai_protect info));
     store_be32 bs 24 (x_mem_private kc) }"

definition lookup_virtual_heap :: "'x xenia_heaps \<Rightarrow> u32 \<Rightarrow> nat option" where
  "lookup_virtual_heap xh address =
     (case xh_lookup_heap xh address of
        None \<Rightarrow> None
      | Some heap \<Rightarrow> if \<not> xh_guest_virtual xh heap then None else Some heap)"

record allocation_request =
  req_base :: u32
  req_size :: u32
  req_page_size :: u32

text \<open>The outer option is undefined behaviour, the inner one the refusal \<open>false\<close>.\<close>

definition prepare_request ::
  "kernel_constants \<Rightarrow> 'x xenia_heaps \<Rightarrow> requested_region \<Rightarrow> u32 \<Rightarrow> allocation_request option option" where
  "prepare_request kc xh requested alloc_type =
     (let page_size = (if rgn_base requested \<noteq> 0
        then map_option (xh_page_size xh) (lookup_virtual_heap xh (rgn_base requested))
        else Some (if alloc_type AND x_mem_large_pages kc \<noteq> 0 then k_large_page_size
          else k_small_page_size)) in
      case page_size of
        None \<Rightarrow> Some None
      | Some page_size \<Rightarrow> do {
          n \<leftarrow> normalize_requested_size (rgn_size requested);
          let base = rgn_base requested - rgn_base requested mod page_size;
              n = xh_round_up xh n (if base \<noteq> 0 then page_size else k_large_page_size) in
          Some (if n \<noteq> 0
            then Some \<lparr>req_base = base, req_size = n, req_page_size = page_size\<rparr> else None) })"

record allocation =
  alc_heap :: "nat option"
  alc_address :: u32
  alc_was_committed :: bool
  alc_page_size_conflict :: bool

definition perform_allocation ::
  "kernel_constants \<Rightarrow> 'x xenia_heaps \<Rightarrow> allocation_request \<Rightarrow> allocation_policy \<Rightarrow> 'x \<Rightarrow>
   allocation \<times> 'x" where
  "perform_allocation kc xh request policy x =
     (let flags = allocation_flags kc (pol_alloc_type policy);
          none = \<lparr>alc_heap = None, alc_address = 0, alc_was_committed = False,
            alc_page_size_conflict = False\<rparr> in
      if req_base request \<noteq> 0
      then (case xh_lookup_heap xh (req_base request) of
          None \<Rightarrow> (none, x)
        | Some heap \<Rightarrow>
            if xh_page_size xh heap \<noteq> req_page_size request
            then (none\<lparr>alc_heap := Some heap, alc_page_size_conflict := True\<rparr>, x)
            else (let committed = (case xh_query_region xh heap (req_base request) x of
                    None \<Rightarrow> False
                  | Some info \<Rightarrow> hai_state info AND k_memory_allocation_commit kc \<noteq> 0) in
              case xh_alloc_fixed xh heap (req_base request) (req_size request) (req_page_size request)
                  flags (pol_protect policy) x of
                (ok, x) \<Rightarrow> (none\<lparr>alc_heap := Some heap, alc_was_committed := committed,
                  alc_address := (if ok then req_base request else 0)\<rparr>, x)))
      else (case xh_lookup_by_type xh False (req_page_size request) of
          None \<Rightarrow> (none, x)
        | Some heap \<Rightarrow>
            (let top_down = (pol_alloc_type policy AND x_mem_top_down kc \<noteq> 0) in
             case xh_alloc xh heap (req_size request) (req_page_size request) flags
                 (pol_protect policy) top_down x of
               (address, x) \<Rightarrow> (none\<lparr>alc_heap := Some heap, alc_address := address\<rparr>, x))))"


section \<open>The exports\<close>

definition answer :: "u32 \<Rightarrow> import_context \<Rightarrow> import_context" where
  "answer status ic = set_return_value (ucast status) ic"

text \<open>Writing both slots, as \<open>!a.Write(v) || !b.Write(w)\<close> does: the second only after the first.\<close>

definition write_slots ::
  "'x xenia_heaps \<Rightarrow> import_context \<Rightarrow> (u32 \<times> u32) list \<Rightarrow> 'x \<Rightarrow> bool \<times> 'x" where
  "write_slots xh ic slots x =
     fold (\<lambda>(a, v) (ok, x). if ok then write_word (xh_memory xh) ic a v x else (False, x)) slots (True, x)"

definition finish_call ::
  "kernel_constants \<Rightarrow> 'x xenia_heaps \<Rightarrow> import_context \<Rightarrow> (u32 \<times> u32) list \<Rightarrow> 'x \<Rightarrow> import_context \<times> 'x" where
  "finish_call kc xh ic slots x =
     (case write_slots xh ic slots x of (ok, x) \<Rightarrow>
       (if \<not> ok then refuse_import InvalidGuestMemory ic else answer (x_status_success kc) ic, x))"

definition invalid_alloc_type :: "kernel_constants \<Rightarrow> u32 \<Rightarrow> bool" where
  "invalid_alloc_type kc t \<longleftrightarrow>
     t AND (x_mem_commit kc OR x_mem_reserve kc OR x_mem_reset kc) = 0
     \<or> (t AND x_mem_reset kc \<noteq> 0 \<and> t AND NOT (x_mem_reset kc) \<noteq> 0)"

text \<open>What follows a prepared request.\<close>

definition allocate_request ::
  "kernel_constants \<Rightarrow> 'x xenia_heaps \<Rightarrow> u32 \<Rightarrow> u32 \<Rightarrow> allocation_request \<Rightarrow> allocation_policy \<Rightarrow>
   import_context \<Rightarrow> 'x \<Rightarrow> import_context \<times> 'x" where
  "allocate_request kc xh base_pointer size_pointer request policy ic x =
     (case perform_allocation kc xh request policy x of (al, x) \<Rightarrow>
        if alc_page_size_conflict al then (answer (x_status_access_denied kc) ic, x)
        else (case alc_heap al of
          Some heap \<Rightarrow>
            if alc_address al = 0 then (answer (x_status_no_memory kc) ic, x)
            else (let x = (if \<not> alc_was_committed al
                then zero_newly_committed_pages kc xh heap (alc_address al) (req_size request) policy x
                else x)
              in finish_call kc xh ic [(base_pointer, alc_address al), (size_pointer, req_size request)] x)
        | None \<Rightarrow> (answer (x_status_no_memory kc) ic, x)))"

definition allocate_virtual_memory ::
  "kernel_constants \<Rightarrow> 'x xenia_heaps \<Rightarrow> import_context \<Rightarrow> 'x \<Rightarrow> (import_context \<times> 'x) option" where
  "allocate_virtual_memory kc xh ic x =
     (let base_pointer = ucast (argument ic 0);
          size_pointer = ucast (argument ic 1);
          alloc_type = ucast (argument ic 2);
          protect_bits = ucast (argument ic 3);
          invalid = (answer (x_status_invalid_parameter kc) ic, x) in
      if base_pointer = 0 \<or> size_pointer = 0 then Some invalid
      else (case (read_word (xh_memory xh) ic base_pointer x, read_word (xh_memory xh) ic size_pointer x) of
        (Some base, Some n) \<Rightarrow>
          if n = 0 \<or> invalid_alloc_type kc alloc_type then Some invalid
          else if alloc_type AND x_mem_reset kc \<noteq> 0
          then Some (refuse_import UnsupportedService ic, x)
          else do {
            prepared \<leftarrow> prepare_request kc xh \<lparr>rgn_base = base, rgn_size = n\<rparr> alloc_type;
            Some (case prepared of
                None \<Rightarrow> invalid
              | Some request \<Rightarrow> allocate_request kc xh base_pointer size_pointer request
                  \<lparr>pol_alloc_type = alloc_type, pol_protect = xh_from_xdk_protect xh protect_bits\<rparr> ic x) }
      | _ \<Rightarrow> Some (refuse_import InvalidGuestMemory ic, x)))"

definition free_virtual_memory ::
  "kernel_constants \<Rightarrow> 'x xenia_heaps \<Rightarrow> import_context \<Rightarrow> 'x \<Rightarrow> import_context \<times> 'x" where
  "free_virtual_memory kc xh ic x =
     (let base_pointer = ucast (argument ic 0);
          size_pointer = ucast (argument ic 1);
          free_type = (ucast (argument ic 2) :: u32);
          invalid = answer (x_status_invalid_parameter kc) ic;
          unsuccessful = answer (x_status_unsuccessful kc) ic;
          finish = (\<lambda>address n x. finish_call kc xh ic
            ((base_pointer, address) # (if size_pointer \<noteq> 0 then [(size_pointer, n)] else [])) x) in
      if base_pointer = 0 then (invalid, x)
      else (case read_word (xh_memory xh) ic base_pointer x of
        None \<Rightarrow> (refuse_import InvalidGuestMemory ic, x)
      | Some address \<Rightarrow>
          if address = 0 then (answer (x_status_memory_not_allocated kc) ic, x)
          else (case lookup_virtual_heap xh address of
            None \<Rightarrow> (invalid, x)
          | Some heap \<Rightarrow>
              if free_type AND x_mem_decommit kc \<noteq> 0 \<and> free_type AND x_mem_release kc = 0
              then (case (if size_pointer \<noteq> 0 then read_word (xh_memory xh) ic size_pointer x else None) of
                  None \<Rightarrow> (invalid, x)
                | Some n \<Rightarrow>
                    (let n = xh_round_up xh n (xh_page_size xh heap) in
                     if n = 0 then (unsuccessful, x)
                     else (case xh_decommit xh heap address n x of (ok, x) \<Rightarrow>
                       if \<not> ok then (unsuccessful, x) else finish address n x)))
              else (case xh_release xh heap address x of
                  (None, x) \<Rightarrow> (unsuccessful, x)
                | (Some n, x) \<Rightarrow> finish address n x))))"

definition query_virtual_memory ::
  "kernel_constants \<Rightarrow> 'x xenia_heaps \<Rightarrow> import_context \<Rightarrow> 'x \<Rightarrow> (import_context \<times> 'x) option" where
  "query_virtual_memory kc xh ic x =
     (let address = ucast (argument ic 0);
          information_pointer = ucast (argument ic 1);
          region_type = (ucast (argument ic 2) :: u32);
          invalid = (answer (x_status_invalid_parameter kc) ic, x) in
      if information_pointer = 0 \<or> region_type > 2 then Some invalid
      else (case xh_lookup_heap xh address of
        None \<Rightarrow> Some invalid
      | Some heap \<Rightarrow>
          (case xh_query_region xh heap address x of
            None \<Rightarrow> Some invalid
          | Some info \<Rightarrow> do {
              bs \<leftarrow> encode_region_info kc xh info;
              case write_memory (xh_memory xh) ic information_pointer bs x of (ok, x) \<Rightarrow>
                Some (if \<not> ok then refuse_import InvalidGuestMemory ic
                  else answer (x_status_success kc) ic, x) })))"

text \<open>\<open>Claims\<close>.\<close>

definition virtual_memory_claims :: "'h \<Rightarrow> 'h \<Rightarrow> 'h \<Rightarrow> 'c \<Rightarrow> ('h, 'c) import_claim list" where
  "virtual_memory_claims allocate free query service =
     [\<lparr>clm_library = Kernel, clm_export_name = ''NtAllocateVirtualMemory'', clm_handler = Some allocate,
       clm_context = Some service\<rparr>,
      \<lparr>clm_library = Kernel, clm_export_name = ''NtFreeVirtualMemory'', clm_handler = Some free,
       clm_context = Some service\<rparr>,
      \<lparr>clm_library = Kernel, clm_export_name = ''NtQueryVirtualMemory'', clm_handler = Some query,
       clm_context = Some service\<rparr>]"

section \<open>Sizes and slots\<close>

text \<open>The magnitude of a size, except for the one size whose negation does not exist.\<close>

lemma sint_u32: "- (2 ^ 31) \<le> sint (n :: u32)" "sint n < 2 ^ 31"
  using sint_ge [of n] sint_lt [of n] by simp_all

lemma normalize_size_defined: "normalize_requested_size n = None \<longleftrightarrow> n = 0x80000000"
proof
  assume "normalize_requested_size n = None"
  then have "sint n = - (2 ^ 31)"
    using sint_u32 [of n] by (auto simp: normalize_requested_size_def Let_def split: if_splits)
  then have "word_of_int (sint n) = (word_of_int (- (2 ^ 31)) :: u32)" by simp
  then show "n = 0x80000000" by simp
qed (simp add: normalize_requested_size_def)

lemma normalize_size_magnitude:
  assumes "normalize_requested_size n = Some m"
  shows "int (unat m) = \<bar>sint n\<bar>"
proof (cases "sint n < 0")
  case True
  with assms have m: "m = word_of_int (- sint n)" "- sint n < 2 ^ 31"
    by (auto simp: normalize_requested_size_def Let_def split: if_splits)
  then have "uint m = take_bit 32 (- sint n)" by (simp only: uint_word_of_int_eq) simp
  also have "\<dots> = - sint n" using True m(2) by (intro take_bit_int_eq_self) simp_all
  finally show ?thesis using True by simp
next
  case False
  with assms have "m = n" by (auto simp: normalize_requested_size_def)
  moreover have "uint n = sint n"
    using False sint_u32 [of n] by (simp add: uint_sint take_bit_int_eq_self)
  ultimately show ?thesis using False by simp
qed


text \<open>What the guest finds in its slots after a call that succeeded.\<close>

definition slot_holds :: "'x xenia_heaps \<Rightarrow> u32 \<Rightarrow> u32 \<Rightarrow> 'x \<Rightarrow> bool" where
  "slot_holds xh a v x \<longleftrightarrow> xm_load (xh_memory xh) a 4 x = be_bytes32 v"

definition slots_apart :: "'x xenia_heaps \<Rightarrow> u32 \<Rightarrow> u32 \<Rightarrow> bool" where
  "slots_apart xh a b \<longleftrightarrow> xh_lookup_heap xh a = xh_lookup_heap xh b \<and> span_of a 4 \<inter> span_of b 4 = {}"

lemma be_bytes32_not_empty [simp]: "be_bytes32 v \<noteq> []"
  by (simp add: be_bytes32_def)

lemma written_word:
  assumes "heap_bytes (xh_memory xh)" "write_memory (xh_memory xh) ic a (be_bytes32 v) x = (True, x')"
  shows "slot_holds xh a v x'" "fits a 4" "xh_lookup_heap xh a \<noteq> None"
    "x' = xm_store (xh_memory xh) a (be_bytes32 v) x"
proof -
  have ok: "is_accessible (xh_memory xh) (ic_memory ic) a 4 True x"
    using assms(2) imported.accepted_write [of "xh_memory xh" ic a "be_bytes32 v" x] by simp
  from is_accessible_fits [OF ok] show "fits a 4" "xh_lookup_heap xh a \<noteq> None" by auto
  show "x' = xm_store (xh_memory xh) a (be_bytes32 v) x"
    using assms(2) ok by (simp add: write_memory_def)
  show "slot_holds xh a v x'"
    using stored_buffer [OF assms] by (simp add: slot_holds_def)
qed

lemma written_slots:
  assumes "heap_bytes (xh_memory xh)" "write_slots xh ic [(a, v), (b, w)] x = (True, x')"
  shows "slot_holds xh b w x'" "slots_apart xh a b \<Longrightarrow> slot_holds xh a v x'"
proof -
  from assms(2) obtain x1 where first: "write_memory (xh_memory xh) ic a (be_bytes32 v) x = (True, x1)"
    and second: "write_memory (xh_memory xh) ic b (be_bytes32 w) x1 = (True, x')"
    by (auto simp: write_slots_def split: if_splits prod.splits)
  note one = written_word [OF assms(1) first] and two = written_word [OF assms(1) second]
  show "slot_holds xh b w x'" by (rule two(1))
  show "slot_holds xh a v x'" if "slots_apart xh a b"
    using that one two heap_bytes_load_other [OF assms(1), of b "be_bytes32 w" a 4 x1]
    by (auto simp: slot_holds_def slots_apart_def Int_commute)
qed

definition same_status :: "kernel_constants \<Rightarrow> import_context \<Rightarrow> bool" where
  "same_status kc ic \<longleftrightarrow> ic_refusal ic = None \<and> ic_return_value ic = ucast (x_status_success kc)"

text \<open>The success code is none of the others.\<close>

definition statuses_distinct :: "kernel_constants \<Rightarrow> bool" where
  "statuses_distinct kc \<longleftrightarrow> x_status_success kc \<notin> {x_status_invalid_parameter kc, x_status_access_denied kc,
     x_status_no_memory kc, x_status_memory_not_allocated kc, x_status_unsuccessful kc}"

lemma ucast_u32_inject [simp]: "(ucast (s :: u32) :: u64) = ucast t \<longleftrightarrow> s = t"
proof -
  have "ucast (ucast w :: u64) = w" for w :: u32 by (rule bit_word_eqI) (auto simp: bit_simps)
  then show ?thesis by metis
qed

lemma same_status_simps [simp]:
  "same_status kc (refuse_import reason ic) = False"
  "ic_refusal ic = None \<Longrightarrow> same_status kc (answer s ic) \<longleftrightarrow> s = x_status_success kc"
  by (auto simp: same_status_def refuse_import_def answer_def set_return_value_def)

lemma finish_call_success:
  assumes "finish_call kc xh ic slots x = (ic', x')" "ic_refusal ic = None" "same_status kc ic'"
  shows "write_slots xh ic slots x = (True, x')"
  using assms by (auto simp: finish_call_def split: prod.splits if_splits)


section \<open>Properties\<close>

text \<open>
  The block that stands behind a success, in terms of Xenia's heaps: a base names a guest-virtual heap,
  whose page the request is aligned to, and the block is that page range, which the heap granted; without a
  base the block is what a heap of the requested page size chose. The size is the magnitude of the guest's
  size word, rounded up, and the flags say what the guest asked for.
\<close>

definition grants ::
  "kernel_constants \<Rightarrow> 'x xenia_heaps \<Rightarrow> u32 \<Rightarrow> u32 \<Rightarrow> u32 \<Rightarrow> u32 \<Rightarrow> 'x \<Rightarrow> u32 \<Rightarrow> u32 \<Rightarrow> bool" where
  "grants kc xh base len t prot x address n \<longleftrightarrow> n \<noteq> 0 \<and> address \<noteq> 0 \<and>
     (\<exists>m page. int (unat m) = \<bar>sint len\<bar>
        \<and> (if base = 0 then page = (if t AND x_mem_large_pages kc \<noteq> 0 then 0x10000 else 0x1000)
           else \<exists>h. xh_lookup_heap xh base = Some h \<and> xh_guest_virtual xh h \<and> page = xh_page_size xh h)
        \<and> n = xh_round_up xh m (if base - base mod page \<noteq> 0 then page else 0x10000)
        \<and> (let flags = (if t AND x_mem_reserve kc \<noteq> 0 then k_memory_allocation_reserve kc else 0)
              OR (if t AND x_mem_commit kc \<noteq> 0 then k_memory_allocation_commit kc else 0) in
           if base - base mod page \<noteq> 0
           then address = base - base mod page \<and> (\<exists>h. xh_lookup_heap xh address = Some h
             \<and> xh_page_size xh h = page \<and> fst (xh_alloc_fixed xh h address n page flags prot x))
           else \<exists>h. xh_lookup_by_type xh False page = Some h
             \<and> fst (xh_alloc xh h n page flags prot (t AND x_mem_top_down kc \<noteq> 0) x) = address))"

text \<open>What the guest asked for, read from its slots, and granted.\<close>

definition granted ::
  "kernel_constants \<Rightarrow> 'x xenia_heaps \<Rightarrow> import_context \<Rightarrow> 'x \<Rightarrow> u32 \<Rightarrow> u32 \<Rightarrow> bool" where
  "granted kc xh ic x address n \<longleftrightarrow>
     (let t = ucast (argument ic 2) in
      \<exists>base len. read_word (xh_memory xh) ic (ucast (argument ic 0)) x = Some base
        \<and> read_word (xh_memory xh) ic (ucast (argument ic 1)) x = Some len \<and> len \<noteq> 0
        \<and> t AND (x_mem_commit kc OR x_mem_reserve kc OR x_mem_reset kc) \<noteq> 0 \<and> t AND x_mem_reset kc = 0
        \<and> grants kc xh base len t (xh_from_xdk_protect xh (ucast (argument ic 3))) x address n)"

lemma perform_fixed:
  assumes "perform_allocation kc xh request \<lparr>pol_alloc_type = t, pol_protect = prot\<rparr> x = (al, x1)"
    and "alc_address al \<noteq> 0" "\<not> alc_page_size_conflict al" "req_base request \<noteq> 0"
  shows "alc_address al = req_base request \<and> (\<exists>h. xh_lookup_heap xh (req_base request) = Some h
    \<and> xh_page_size xh h = req_page_size request
    \<and> fst (xh_alloc_fixed xh h (req_base request) (req_size request) (req_page_size request)
        (allocation_flags kc t) prot x))"
  using assms by (auto simp: perform_allocation_def Let_def split: option.splits if_splits prod.splits)

lemma perform_search:
  assumes "perform_allocation kc xh request \<lparr>pol_alloc_type = t, pol_protect = prot\<rparr> x = (al, x1)"
    and "alc_address al \<noteq> 0" "req_base request = 0"
  shows "\<exists>h. xh_lookup_by_type xh False (req_page_size request) = Some h
    \<and> fst (xh_alloc xh h (req_size request) (req_page_size request) (allocation_flags kc t) prot
        (t AND x_mem_top_down kc \<noteq> 0) x) = alc_address al"
  using assms by (auto simp: perform_allocation_def Let_def split: option.splits if_splits prod.splits)

lemma prepared_request:
  assumes "prepare_request kc xh \<lparr>rgn_base = base, rgn_size = len\<rparr> t = Some (Some request)"
  obtains m where "int (unat m) = \<bar>sint len\<bar>" "req_size request \<noteq> 0"
    "if base = 0 then req_page_size request = (if t AND x_mem_large_pages kc \<noteq> 0 then 0x10000 else 0x1000)
     else \<exists>h. xh_lookup_heap xh base = Some h \<and> xh_guest_virtual xh h \<and> req_page_size request = xh_page_size xh h"
    "req_base request = base - base mod req_page_size request"
    "req_size request = xh_round_up xh m (if base - base mod req_page_size request \<noteq> 0
       then req_page_size request else 0x10000)"
proof -
  from assms obtain m where m: "normalize_requested_size len = Some m"
    by (auto simp: prepare_request_def Let_def bind_eq_Some_conv split: option.splits)
  show thesis
  proof (rule that [OF normalize_size_magnitude [OF m]])
  qed (use assms m in \<open>auto simp: prepare_request_def Let_def bind_eq_Some_conv lookup_virtual_heap_def
      k_large_page_size_def k_small_page_size_def split: option.splits if_splits\<close>)
qed

lemma prepared_grants:
  assumes "prepare_request kc xh \<lparr>rgn_base = base, rgn_size = len\<rparr> t = Some (Some request)"
    and "perform_allocation kc xh request \<lparr>pol_alloc_type = t, pol_protect = prot\<rparr> x = (al, x1)"
    and "alc_address al \<noteq> 0" "\<not> alc_page_size_conflict al"
  shows "grants kc xh base len t prot x (alc_address al) (req_size request)"
proof -
  from assms(1) obtain m where m: "int (unat m) = \<bar>sint len\<bar>" "req_size request \<noteq> 0"
    "if base = 0 then req_page_size request = (if t AND x_mem_large_pages kc \<noteq> 0 then 0x10000 else 0x1000)
     else \<exists>h. xh_lookup_heap xh base = Some h \<and> xh_guest_virtual xh h \<and> req_page_size request = xh_page_size xh h"
    and at: "req_base request = base - base mod req_page_size request"
    and size: "req_size request = xh_round_up xh m (if base - base mod req_page_size request \<noteq> 0
       then req_page_size request else 0x10000)"
    by (rule prepared_request)
  have block: "let flags = (if t AND x_mem_reserve kc \<noteq> 0 then k_memory_allocation_reserve kc else 0)
              OR (if t AND x_mem_commit kc \<noteq> 0 then k_memory_allocation_commit kc else 0) in
       if req_base request \<noteq> 0
       then alc_address al = req_base request \<and> (\<exists>h. xh_lookup_heap xh (alc_address al) = Some h
         \<and> xh_page_size xh h = req_page_size request
         \<and> fst (xh_alloc_fixed xh h (alc_address al) (req_size request) (req_page_size request) flags prot x))
       else \<exists>h. xh_lookup_by_type xh False (req_page_size request) = Some h
         \<and> fst (xh_alloc xh h (req_size request) (req_page_size request) flags prot
             (t AND x_mem_top_down kc \<noteq> 0) x) = alc_address al"
    using perform_fixed [OF assms(2-4)] perform_search [OF assms(2,3)]
    by (cases "req_base request = 0") (simp_all add: Let_def allocation_flags_def)
  show ?thesis unfolding grants_def
    by (intro conjI exI [of _ m] exI [of _ "req_page_size request"])
      (use m(2) assms(3) in simp, use assms(3) in simp, rule m(1), rule m(3), rule size, rule block [unfolded at])
qed

lemma allocate_request_success:
  assumes "allocate_request kc xh b s request policy ic x = (ic', x')" "same_status kc ic'"
    and "ic_refusal ic = None" "statuses_distinct kc"
  obtains al x1 x2 where "perform_allocation kc xh request policy x = (al, x1)"
    "alc_address al \<noteq> 0" "\<not> alc_page_size_conflict al"
    "write_slots xh ic [(b, alc_address al), (s, req_size request)] x2 = (True, x')"
proof -
  obtain al x1 where run: "perform_allocation kc xh request policy x = (al, x1)" by fastforce
  with assms that show ?thesis
    by (auto simp: allocate_request_def Let_def statuses_distinct_def
        dest: finish_call_success split: if_splits option.splits)
qed

lemma prepare_request_undefined:
  "prepare_request kc xh \<lparr>rgn_base = b, rgn_size = n\<rparr> t = None \<Longrightarrow> n = 0x80000000"
  by (auto simp: prepare_request_def Let_def normalize_size_defined bind_eq_None_conv split: option.splits)

text \<open>C28: \<open>NtAllocateVirtualMemory\<close> has a defined answer for every call but one whose size word is
  \<open>0x80000000\<close>, and never reports success without an allocation: on success Xenia's heap granted the block
  the guest asked for, of the rounded size and with the requested flags and protection, and the guest's
  slots hold that block's address and size.\<close>

theorem allocate_reports_truth:
  assumes "heap_bytes (xh_memory xh)" "statuses_distinct kc" "ic_refusal ic = None"
  shows "case allocate_virtual_memory kc xh ic x of
      None \<Rightarrow> read_word (xh_memory xh) ic (ucast (argument ic 1)) x = Some 0x80000000
    | Some (ic', x') \<Rightarrow>
        if same_status kc ic'
        then \<exists>address n. granted kc xh ic x address n
          \<and> slot_holds xh (ucast (argument ic 1)) n x'
          \<and> (if slots_apart xh (ucast (argument ic 0)) (ucast (argument ic 1))
             then slot_holds xh (ucast (argument ic 0)) address x' else True)
        else True"
proof (cases "allocate_virtual_memory kc xh ic x")
  case None
  then show ?thesis
    by (auto simp: allocate_virtual_memory_def Let_def bind_eq_None_conv dest: prepare_request_undefined
        split: if_splits option.splits)
next
  case (Some r)
  obtain ic' x' where r: "r = (ic', x')" by (cases r)
  let ?b = "ucast (argument ic 0)" and ?s = "ucast (argument ic 1)" and ?t = "ucast (argument ic 2) :: u32"
  let ?policy = "\<lparr>pol_alloc_type = ?t, pol_protect = xh_from_xdk_protect xh (ucast (argument ic 3))\<rparr>"
  show ?thesis
  proof (cases "same_status kc ic'")
    case True
    with Some r assms(2,3) obtain base n request where words: "read_word (xh_memory xh) ic ?b x = Some base"
      "read_word (xh_memory xh) ic ?s x = Some n" "n \<noteq> 0" "\<not> invalid_alloc_type kc ?t" "?t AND x_mem_reset kc = 0"
      "prepare_request kc xh \<lparr>rgn_base = base, rgn_size = n\<rparr> ?t = Some (Some request)"
      and run: "allocate_request kc xh ?b ?s request ?policy ic x = (ic', x')"
      by (auto simp: allocate_virtual_memory_def Let_def statuses_distinct_def bind_eq_Some_conv
          split: if_splits option.splits)
    from run True assms(3,2) obtain al x1 x2 where al: "perform_allocation kc xh request ?policy x = (al, x1)"
      "alc_address al \<noteq> 0" "\<not> alc_page_size_conflict al"
      "write_slots xh ic [(?b, alc_address al), (?s, req_size request)] x2 = (True, x')"
      by (rule allocate_request_success)
    from prepared_grants [OF words(6) al(1-3)] words have "granted kc xh ic x (alc_address al) (req_size request)"
      by (auto simp: granted_def invalid_alloc_type_def Let_def)
    with written_slots [OF assms(1) al(4)] True Some r show ?thesis by auto
  qed (simp add: Some r)
qed

definition frees ::
  "kernel_constants \<Rightarrow> 'x xenia_heaps \<Rightarrow> import_context \<Rightarrow> 'x \<Rightarrow> u32 \<Rightarrow> u32 \<Rightarrow> bool" where
  "frees kc xh ic x address n \<longleftrightarrow>
     (let free_type = (ucast (argument ic 2) :: u32) in
      \<exists>heap. lookup_virtual_heap xh address = Some heap \<and>
        (if free_type AND x_mem_decommit kc \<noteq> 0 \<and> free_type AND x_mem_release kc = 0
         then n \<noteq> 0 \<and> fst (xh_decommit xh heap address n x)
         else fst (xh_release xh heap address x) = Some n))"

lemma free_success:
  assumes "free_virtual_memory kc xh ic x = (ic', x')" "same_status kc ic'"
    and "ic_refusal ic = None" "statuses_distinct kc"
  obtains address n x1 where "read_word (xh_memory xh) ic (ucast (argument ic 0)) x = Some address"
    "address \<noteq> 0" "frees kc xh ic x address n"
    "write_slots xh ic ((ucast (argument ic 0), address) #
       (if ucast (argument ic 1) \<noteq> (0 :: u32) then [(ucast (argument ic 1), n)] else [])) x1 = (True, x')"
proof -
  note success = finish_call_success [OF _ assms(3,2)]
  from assms show thesis
    by (auto simp: free_virtual_memory_def Let_def statuses_distinct_def frees_def
        dest!: success intro!: that split: if_splits option.splits prod.splits)
qed

text \<open>\<open>NtFreeVirtualMemory\<close> of a null address answers that nothing is allocated and leaves everything
  alone. Otherwise it reports success only when the heap the address belongs to decommitted or released
  it, as the free type says, and then the guest's slots hold the address and the size.\<close>

lemma free_reports_truth:
  assumes "heap_bytes (xh_memory xh)" "statuses_distinct kc" "ic_refusal ic = None"
  shows "case free_virtual_memory kc xh ic x of (ic', x') \<Rightarrow>
    if ucast (argument ic 0) \<noteq> (0 :: u32) \<and> read_word (xh_memory xh) ic (ucast (argument ic 0)) x = Some 0
    then ic' = answer (x_status_memory_not_allocated kc) ic \<and> x' = x
    else if same_status kc ic'
    then \<exists>address n. read_word (xh_memory xh) ic (ucast (argument ic 0)) x = Some address \<and> address \<noteq> 0
      \<and> frees kc xh ic x address n
      \<and> (if ucast (argument ic 1) = (0 :: u32) then slot_holds xh (ucast (argument ic 0)) address x'
         else slot_holds xh (ucast (argument ic 1)) n x' \<and>
           (if slots_apart xh (ucast (argument ic 0)) (ucast (argument ic 1))
            then slot_holds xh (ucast (argument ic 0)) address x' else True))
    else True"
proof -
  obtain ic' x' where run: "free_virtual_memory kc xh ic x = (ic', x')" by fastforce
  let ?b = "ucast (argument ic 0) :: u32" and ?s = "ucast (argument ic 1) :: u32"
  consider (null) "?b \<noteq> 0" "read_word (xh_memory xh) ic ?b x = Some 0"
    | (success) "same_status kc ic'" "\<not> (?b \<noteq> 0 \<and> read_word (xh_memory xh) ic ?b x = Some 0)"
    | (other) "\<not> same_status kc ic'" "\<not> (?b \<noteq> 0 \<and> read_word (xh_memory xh) ic ?b x = Some 0)" by blast
  then show ?thesis
  proof cases
    case null
    then show ?thesis by (simp add: free_virtual_memory_def Let_def)
  next
    case success
    from run success(1) assms(3,2) obtain address n x1 where
      freed: "read_word (xh_memory xh) ic ?b x = Some address" "address \<noteq> 0" "frees kc xh ic x address n"
      and slots: "write_slots xh ic ((?b, address) # (if ?s \<noteq> 0 then [(?s, n)] else [])) x1 = (True, x')"
      by (rule free_success)
    have "if ?s = 0 then slot_holds xh ?b address x' else slot_holds xh ?s n x' \<and>
        (if slots_apart xh ?b ?s then slot_holds xh ?b address x' else True)"
      using slots written_slots [OF assms(1), of ic ?b address ?s n x1 x'] written_word(1) [OF assms(1)]
      by (auto simp: write_slots_def split: if_splits)
    with freed success run show ?thesis by auto
  next
    case other
    with run show ?thesis by auto
  qed
qed

text \<open>What a query that succeeds leaves in the guest's structure: seven words.\<close>

lemma query_reports_region:
  assumes "heap_bytes (xh_memory xh)" "query_virtual_memory kc xh ic x = Some (ic', x')"
    and "same_status kc ic'" "ic_refusal ic = None" "statuses_distinct kc"
  shows "\<exists>heap info. xh_lookup_heap xh (ucast (argument ic 0)) = Some heap
    \<and> xh_query_region xh heap (ucast (argument ic 0)) x = Some info
    \<and> xm_load (xh_memory xh) (ucast (argument ic 1)) 28 x' = concat (map be_bytes32
        [hai_base_address info, hai_allocation_base info, xh_to_xdk_protect xh (hai_allocation_protect info),
         hai_region_size info, guest_allocation_state kc (hai_state info),
         xh_to_xdk_protect xh (hai_protect info), x_mem_private kc])"
proof -
  have encode: "encode_region_info kc xh info = Some (concat (map be_bytes32
        [hai_base_address info, hai_allocation_base info, xh_to_xdk_protect xh (hai_allocation_protect info),
         hai_region_size info, guest_allocation_state kc (hai_state info),
         xh_to_xdk_protect xh (hai_protect info), x_mem_private kc]))" for info
    by (simp add: encode_region_info_def byte_simps overwrite_def k_memory_basic_information_bytes_def
        be_bytes32_def numeral_eq_Suc)
  from assms(2-5) show ?thesis
    by (auto simp: query_virtual_memory_def Let_def encode statuses_distinct_def
        dest!: stored_buffer [OF assms(1)] split: if_splits option.splits prod.splits)
qed

section \<open>Witnesses\<close>

text \<open>The documented values of the constants, and heaps over the toy memory that grant everything.\<close>

definition sample_constants :: kernel_constants where
  "sample_constants = \<lparr>x_mem_commit = 0x1000, x_mem_reserve = 0x2000, x_mem_decommit = 0x4000,
     x_mem_release = 0x8000, x_mem_free = 0x10000, x_mem_private = 0x20000, x_mem_reset = 0x80000,
     x_mem_top_down = 0x100000, x_mem_nozero = 0x800000, x_mem_large_pages = 0x20000000,
     k_memory_allocation_reserve = 1, k_memory_allocation_commit = 2, k_memory_protect_read = 1,
     k_memory_protect_write = 2, x_status_success = 0, x_status_invalid_parameter = 0xC000000D,
     x_status_access_denied = 0xC0000022, x_status_no_memory = 0xC0000017,
     x_status_memory_not_allocated = 0xC00000A0, x_status_unsuccessful = 0xC0000001\<rparr>"

definition toy_heaps :: "toy_state xenia_heaps" where
  "toy_heaps = \<lparr>xh_memory = toy_memory, xh_guest_virtual = (\<lambda>h. True), xh_page_size = (\<lambda>h. 0x1000),
     xh_lookup_by_type = (\<lambda>p n. Some 0), xh_query_region = (\<lambda>h a x. None),
     xh_alloc_fixed = (\<lambda>h b n p f r x. (True, x)), xh_alloc = (\<lambda>h n p f r t x. (0x40000, x)),
     xh_decommit = (\<lambda>h a n x. (True, x)), xh_release = (\<lambda>h a x. (Some 0x1000, x)),
     xh_protect = (\<lambda>h a n p x. x), xh_zero = (\<lambda>a n x. x),
     xh_round_up = (\<lambda>n m. (n + (m - 1)) div m * m),
     xh_to_xdk_protect = (\<lambda>p. p), xh_from_xdk_protect = (\<lambda>p. p)\<rparr>"

text \<open>A word at \<open>0x100\<close> (the base) and a word at \<open>0x104\<close> (the size).\<close>

definition slot_state :: "u32 \<Rightarrow> u32 \<Rightarrow> toy_state" where
  "slot_state base n = xm_store toy_memory 0x104 (be_bytes32 n)
     (xm_store toy_memory 0x100 (be_bytes32 base) toy_start)"

definition slot_call :: "u64 \<Rightarrow> import_context" where
  "slot_call kind = new_import_context [0x100, 0x104, kind, 4, 0, 0, 0, 0] True"

lemma slot_arguments [simp]:
  "argument (slot_call kind) 0 = 0x100" "argument (slot_call kind) (Suc 0) = 0x104"
  "argument (slot_call kind) 2 = kind" "argument (slot_call kind) 3 = 4"
  "ic_refusal (slot_call kind) = None" "ic_memory (slot_call kind)"
  by (simp_all add: argument_def slot_call_def new_import_context_def)

lemma toy_accessible:
  assumes "toy_access x = 3"
  shows "is_accessible toy_memory True 0x100 4 w x" "is_accessible toy_memory True 0x104 4 w x"
  using assms by (simp_all add: is_accessible_def toy_memory_def is_readable_def is_writable_def Let_def)

lemma toy_access_store [simp]: "toy_access (xm_store toy_memory a bs x) = toy_access x"
  by (simp add: toy_memory_def)

lemma slot_state_access [simp]: "toy_access (slot_state base n) = 3"
  by (simp add: slot_state_def toy_start_def)

lemma slot_words:
  "read_word toy_memory (slot_call kind) 0x100 (slot_state base n) = Some base"
  "read_word toy_memory (slot_call kind) 0x104 (slot_state base n) = Some n"
proof -
  have fit: "fits 0x100 (length (be_bytes32 base))" "fits 0x104 (length (be_bytes32 n))" "fits 0x100 4"
    "xm_lookup_heap toy_memory 0x100 \<noteq> None" "xm_lookup_heap toy_memory 0x104 \<noteq> None"
    "xm_lookup_heap toy_memory 0x100 = xm_lookup_heap toy_memory 0x104"
    "span_of 0x104 (length (be_bytes32 n)) \<inter> span_of 0x100 4 = {}"
    by (auto simp: fits_def toy_memory_def span_of_def)
  have "xm_load toy_memory 0x104 4 (slot_state base n) = be_bytes32 n"
    using heap_bytes_load_store [OF toy_heap_bytes fit(2,5)] by (simp add: slot_state_def)
  moreover have "xm_load toy_memory 0x100 4 (slot_state base n) = be_bytes32 base"
    using heap_bytes_load_other [OF toy_heap_bytes fit(2,3,5,6,7)]
      heap_bytes_load_store [OF toy_heap_bytes fit(1,4)] by (simp add: slot_state_def)
  ultimately show "read_word toy_memory (slot_call kind) 0x100 (slot_state base n) = Some base"
    "read_word toy_memory (slot_call kind) 0x104 (slot_state base n) = Some n"
    by (simp_all add: read_word_def read_memory_def toy_accessible byte_simps)
qed

lemma slot_finish:
  assumes "toy_access x = 3"
  shows "\<exists>x'. finish_call kc toy_heaps (slot_call kind) [(0x100, v), (0x104, w)] x
    = (answer (x_status_success kc) (slot_call kind), x')"
  using assms
  by (simp add: finish_call_def write_slots_def write_memory_def toy_accessible toy_heaps_def)

lemma sample_statuses: "statuses_distinct sample_constants"
  by (simp add: statuses_distinct_def sample_constants_def)

lemma toy_heaps_memory [simp]: "xh_memory toy_heaps = toy_memory"
  by (simp add: toy_heaps_def)

lemma sample_request:
  "prepare_request sample_constants toy_heaps \<lparr>rgn_base = 0, rgn_size = 0x10\<rparr> 0x1000 =
    Some (Some \<lparr>req_base = 0, req_size = 0x10000, req_page_size = 0x1000\<rparr>)"
  by (simp add: prepare_request_def normalize_requested_size_def sample_constants_def toy_heaps_def
      k_large_page_size_def k_small_page_size_def Let_def)

lemma sample_allocation:
  "allocate_virtual_memory sample_constants toy_heaps (slot_call 0x1000) (slot_state 0 0x10) =
    Some (finish_call sample_constants toy_heaps (slot_call 0x1000) [(0x100, 0x40000), (0x104, 0x10000)]
      (slot_state 0 0x10))"
proof -
  have "\<not> invalid_alloc_type sample_constants 0x1000" "x_mem_reset sample_constants = 0x80000"
    by (simp_all add: invalid_alloc_type_def sample_constants_def)
  moreover have "allocate_request sample_constants toy_heaps 0x100 0x104
      \<lparr>req_base = 0, req_size = 0x10000, req_page_size = 0x1000\<rparr> policy ic x
    = finish_call sample_constants toy_heaps ic [(0x100, 0x40000), (0x104, 0x10000)] x" for policy ic x
    by (simp add: allocate_request_def perform_allocation_def zero_newly_committed_pages_def toy_heaps_def Let_def)
  ultimately show ?thesis
    by (simp add: allocate_virtual_memory_def slot_words sample_request Let_def)
qed

theorem allocate_reports_truth_witness:
  "\<exists>r. allocate_virtual_memory sample_constants toy_heaps (slot_call 0x1000) (slot_state 0 0x10) = Some r
    \<and> (\<exists>address n. granted sample_constants toy_heaps (slot_call 0x1000) (slot_state 0 0x10) address n
        \<and> slot_holds toy_heaps 0x104 n (snd r))"
proof -
  have heap: "heap_bytes (xh_memory toy_heaps)" using toy_heap_bytes by simp
  obtain x' where "allocate_virtual_memory sample_constants toy_heaps (slot_call 0x1000) (slot_state 0 0x10)
      = Some (answer (x_status_success sample_constants) (slot_call 0x1000), x')"
    using slot_finish [of "slot_state 0 0x10"] sample_allocation by fastforce
  then show ?thesis
    using allocate_reports_truth [OF heap sample_statuses, of "slot_call 0x1000" "slot_state 0 0x10"] by auto
qed

text \<open>A null address, and a release.\<close>

lemma sample_release:
  "free_virtual_memory sample_constants toy_heaps (slot_call 0x8000) (slot_state 0x40000 0)
    = finish_call sample_constants toy_heaps (slot_call 0x8000) [(0x100, 0x40000), (0x104, 0x1000)]
        (slot_state 0x40000 0)"
proof -
  have "lookup_virtual_heap toy_heaps 0x40000 = Some 0"
    by (simp add: lookup_virtual_heap_def toy_heaps_def toy_memory_def)
  moreover have "xh_release toy_heaps h a x = (Some 0x1000, x)" for h a x by (simp add: toy_heaps_def)
  moreover have "x_mem_decommit sample_constants = 0x4000" by (simp add: sample_constants_def)
  ultimately show ?thesis by (simp add: free_virtual_memory_def slot_words Let_def)
qed

theorem free_reports_truth_witness:
  "free_virtual_memory sample_constants toy_heaps (slot_call 0x8000) (slot_state 0 0)
     = (answer 0xC00000A0 (slot_call 0x8000), slot_state 0 0)
   \<and> (\<exists>x' n. free_virtual_memory sample_constants toy_heaps (slot_call 0x8000) (slot_state 0x40000 0)
     = (answer 0 (slot_call 0x8000), x') \<and> slot_holds toy_heaps 0x104 n x')"
proof (rule conjI)
  have heap: "heap_bytes (xh_memory toy_heaps)" using toy_heap_bytes by simp
  note law = free_reports_truth [OF heap sample_statuses, of "slot_call 0x8000"]
  have codes: "x_status_success sample_constants = 0" "x_status_memory_not_allocated sample_constants = 0xC00000A0"
    by (simp_all add: sample_constants_def)
  show "free_virtual_memory sample_constants toy_heaps (slot_call 0x8000) (slot_state 0 0)
     = (answer 0xC00000A0 (slot_call 0x8000), slot_state 0 0)"
    using law [of "slot_state 0 0"] by (auto simp: slot_words codes split: prod.splits)
  obtain x' where "free_virtual_memory sample_constants toy_heaps (slot_call 0x8000) (slot_state 0x40000 0)
      = (answer 0 (slot_call 0x8000), x')"
    using slot_finish [of "slot_state 0x40000 0" sample_constants "0x8000" "0x40000" "0x1000"]
    by (auto simp: sample_release codes)
  then show "\<exists>x' n. free_virtual_memory sample_constants toy_heaps (slot_call 0x8000) (slot_state 0x40000 0)
     = (answer 0 (slot_call 0x8000), x') \<and> slot_holds toy_heaps 0x104 n x'"
    using law [of "slot_state 0x40000 0"] by (auto simp: slot_words codes)
qed

end
