(* ===== verification/System_Call_Context.thy ===== *)
theory System_Call_Context imports Override_Dispatch Interpreter_Fallback Guest_Memory begin

text \<open>
  The calls an override may make inside a full system: \<open>src/system/system_call_context.cpp\<close>. One context
  serves every guest thread, so it holds no call state; the thread is the one that entered the
  override, or none when host code calls from elsewhere. Guest memory and the processor are Xenia's,
  as in the runtime.
\<close>

section \<open>Memory\<close>

definition system_guest_memory :: guest_memory where
  "system_guest_memory = gm_initialize new_guest_memory"

definition context_read ::
  "'x xenia_memory \<Rightarrow> guest_address \<Rightarrow> bytes \<Rightarrow> 'x \<Rightarrow> runtime_failure \<times> bytes" where
  "context_read xm address dst x = gm_read_mapped xm system_guest_memory address dst x"

definition context_write ::
  "'x xenia_memory \<Rightarrow> guest_address \<Rightarrow> bytes \<Rightarrow> 'x \<Rightarrow> runtime_failure \<times> 'x" where
  "context_write xm address bs x = gm_write_mapped xm system_guest_memory address bs x"

section \<open>CallOriginalBody\<close>

definition k_original_return_address :: u64 where "k_original_return_address = 0xBCBCBCBC"

text \<open>The result, and the thread as the call leaves it; \<open>None\<close> when the process ends inside the body.\<close>

definition context_call_original_body ::
  "'w xenia_processor \<Rightarrow> guest_address \<Rightarrow> u64 list \<Rightarrow> 'w thread_state option \<Rightarrow>
   (execution_result \<times> 'w thread_state option) option" where
  "context_call_original_body xp address arguments thread =
     (case thread of
        None \<Rightarrow> Some (refused_call (failure ExecutionFailed
          ''an original call must be made from the guest thread that entered the override''), None)
      | Some t \<Rightarrow>
          (case xp_query_function xp address (thr_world t) of
            None \<Rightarrow> Some (refused_call (failure OverrideNotInstalled
              ''the overridden guest body has no translated code to re-enter''), Some t)
          | Some fn \<Rightarrow>
              if \<not> gfn_machine_code fn
              then Some (refused_call (failure OverrideNotInstalled
                ''the overridden guest body has no translated code to re-enter''), Some t)
              else (case prepare_guest_arguments arguments t of (f, t) \<Rightarrow>
                if fails f then Some (refused_call f, Some t)
                else (case enter_call_frame k_original_return_address t of (frame, t) \<Rightarrow> do {
                  r \<leftarrow> gfn_call fn t;
                  (let t = snd r;
                       result = (if \<not> fst r
                         then refused_call (failure ExecutionFailed
                           ''Xenia's translated original body refused execution'')
                         else \<lparr>exr_failure = no_failure, exr_value = ppc_r (thr_context t) 3\<rparr>)
                   in Some (result, Some (leave_call_frame frame t)))
                }))))"

lemma succeeds_refused [simp]: "succeeds (refused_call f) \<longleftrightarrow> \<not> fails f"
  by (simp add: succeeds_def refused_call_def)

lemma succeeds_value [simp]: "succeeds \<lparr>exr_failure = no_failure, exr_value = v\<rparr>"
  by (simp add: succeeds_def)

text \<open>The body as the call runs it: in a frame of its own, left again whatever the body did.\<close>

definition framed :: "'w guest_code \<Rightarrow> 'w guest_code" where
  "framed body t = (case enter_call_frame k_original_return_address t of (frame, t) \<Rightarrow>
     map_option (\<lambda>(ok, t). (ok, leave_call_frame frame t)) (body t))"

lemma ppc_r_leave: "ppc_r (thr_context (leave_call_frame frame t)) 3 = ppc_r (thr_context t) 3"
  by (simp add: leave_call_frame_def Let_def)

lemma framed_restores:
  assumes "framed body t = Some (ok, t')"
  shows "ppc_r (thr_context t') 1 = ppc_r (thr_context t) 1 \<and> ppc_lr (thr_context t') = ppc_lr (thr_context t)"
  using assms by (auto simp: framed_def enter_call_frame_def leave_call_frame_def Let_def)

lemma call_original_body_framed:
  assumes "xp_query_function xp address (thr_world t) = Some fn" "gfn_machine_code fn"
    and "length arguments \<le> 8"
  shows "context_call_original_body xp address arguments (Some t) =
    map_option (\<lambda>(ok, t). (if ok then \<lparr>exr_failure = no_failure, exr_value = ppc_r (thr_context t) 3\<rparr>
        else refused_call (failure ExecutionFailed ''Xenia's translated original body refused execution''), Some t))
      (framed (gfn_call fn) (with_arguments arguments t))"
  using assms
  by (cases "gfn_call fn (snd (enter_call_frame k_original_return_address (with_arguments arguments t)))")
    (auto simp: context_call_original_body_def prepare_guest_arguments_eq framed_def case_prod_beta ppc_r_leave Let_def)

text \<open>
  An original call returns to the override with the caller's stack pointer and link register,
  whatever the body did to them, and a call that is refused before the body runs changes no thread.
\<close>

lemma original_call_keeps_the_frame:
  assumes "context_call_original_body xp address arguments (Some t) = Some (r, thread)"
  shows "case thread of
      None \<Rightarrow> False
    | Some t' \<Rightarrow> ppc_r (thr_context t') 1 = ppc_r (thr_context t) 1
        \<and> ppc_lr (thr_context t') = ppc_lr (thr_context t)
        \<and> (if (\<forall>fn. xp_query_function xp address (thr_world t) = Some fn \<longrightarrow> \<not> gfn_machine_code fn)
             \<or> length arguments > 8
           then \<not> succeeds r \<and> t' = t
           else succeeds r \<longrightarrow> exr_value r = ppc_r (thr_context t') 3)"
proof -
  consider "xp_query_function xp address (thr_world t) = None"
    | fn where "xp_query_function xp address (thr_world t) = Some fn" "\<not> gfn_machine_code fn"
    | fn where "xp_query_function xp address (thr_world t) = Some fn" "length arguments > 8"
        "gfn_machine_code fn"
    | fn where "xp_query_function xp address (thr_world t) = Some fn" "gfn_machine_code fn"
        "length arguments \<le> 8"
    by (cases "xp_query_function xp address (thr_world t)") force+
  then show ?thesis
  proof cases
    case (4 fn)
    from assms call_original_body_framed [OF this] obtain ok t' where
      run: "framed (gfn_call fn) (with_arguments arguments t) = Some (ok, t')" "thread = Some t'"
      "succeeds r \<longrightarrow> exr_value r = ppc_r (thr_context t') 3"
      by auto
    have "ppc_r (thr_context (with_arguments arguments t)) 1 = ppc_r (thr_context t) 1"
      "ppc_lr (thr_context (with_arguments arguments t)) = ppc_lr (thr_context t)"
      by (simp_all add: with_arguments_def)
    with framed_restores [OF run(1)] run(2,3) 4 show ?thesis by simp
  qed (use assms in \<open>auto simp: context_call_original_body_def prepare_guest_arguments_eq\<close>)
qed

section \<open>An override that only calls the original\<close>

text \<open>The handler of such an override, run on the guest thread that entered it.\<close>

definition pass_through :: "'w xenia_processor \<Rightarrow> ('w, 'c) override_handler" where
  "pass_through xp address arguments context s =
     do { r \<leftarrow> context_call_original_body xp address arguments (Some (fst s));
          t \<leftarrow> snd r;
          Some (fst r, (t, snd s)) }"

lemma with_own_arguments:
  "with_arguments (map (\<lambda>index. ppc_r (thr_context t) (3 + index)) [0..<8]) t = t"
  by (auto simp: with_arguments_def fun_eq_iff intro!: thread_state.equality ppc_context.equality)

text \<open>C35: an override that passes its arguments to the original and returns its result is transparent: a
  guest call to the overridden address leaves the thread as the original body does in a frame of its
  own, and counts one native override call.
\<close>

theorem pass_through_is_transparent:
  assumes "ovd_bound ovd" "ovr_handler entry = Some (pass_through xp)"
    and "xp_query_function xp (ovr_address entry) (thr_world t) = Some fn" "gfn_machine_code fn"
    and "framed (gfn_call fn) t = Some (True, t')"
  shows "dispatch_guest ovd entry (t, st) = Some (t', count_native_override st)"
proof -
  have "ppc_r (thr_context t') = (ppc_r (thr_context t'))(3 := ppc_r (thr_context t') 3)" by simp
  then have "t'\<lparr>thr_context := (thr_context t')\<lparr>ppc_r := (ppc_r (thr_context t'))(3 := ppc_r (thr_context t') 3)\<rparr>\<rparr> = t'"
    by (simp del: fun_upd_triv)
  then show ?thesis using assms
    by (simp add: dispatch_guest_def pass_through_def call_original_body_framed [OF assms(3,4)]
      with_own_arguments finish_override_def Let_def del: fun_upd_apply upt_Suc)
qed

text \<open>A body that adds its first two arguments and spoils the stack pointer and the link register.\<close>

definition spoiling_body :: "unit guest_code" where
  "spoiling_body t = (let c = thr_context t in Some (True, t\<lparr>thr_context := c\<lparr>
     ppc_r := (ppc_r c)(1 := 7, 3 := ppc_r c 3 + ppc_r c 4), ppc_lr := 9\<rparr>\<rparr>))"

definition spoiling_processor :: "unit xenia_processor" where
  "spoiling_processor = \<lparr>
     xp_query_function = \<lambda>a w. if a = 0x82000000
       then Some \<lparr>gfn_machine_code = True, gfn_machine_code_length = 16, gfn_call = spoiling_body\<rparr> else None,
     xp_resolve_function = \<lambda>a w. (None, w), xp_lookup_function = \<lambda>a w. (None, w),
     xp_execute_interpreter = \<lambda>a n t. (\<lparr>itr_exit_reason = Invalid_Entry, itr_instructions_executed = 0,
       itr_guest_pc = a, itr_instruction = 0\<rparr>, t)\<rparr>"

definition calling_thread :: "unit thread_state" where
  "calling_thread = \<lparr>thr_context = \<lparr>ppc_r = (\<lambda>i. of_nat i), ppc_lr = 5, ppc_execution_budget = None\<rparr>,
     thr_active_budget = None, thr_active_refusal = None, thr_active_failure = None, thr_objects = [],
     thr_world = ()\<rparr>"

lemmas spoiling_defs = spoiling_processor_def spoiling_body_def calling_thread_def

lemma original_call_keeps_the_frame_witness:
  "case context_call_original_body spoiling_processor 0x82000000 [30, 12] (Some calling_thread) of
     Some (r, Some t') \<Rightarrow> succeeds r \<and> exr_value r = 42 \<and> ppc_r (thr_context t') 1 = 1
   | _ \<Rightarrow> False"
proof -
  let ?call = "context_call_original_body spoiling_processor 0x82000000 [30, 12] (Some calling_thread)"
  have "\<exists>r t'. ?call = Some (r, Some t') \<and> succeeds r \<and> ppc_r (thr_context t') 3 = 42"
    by (simp add: call_original_body_framed spoiling_processor_def framed_def enter_call_frame_def
      spoiling_body_def leave_call_frame_def with_arguments_def Let_def)
  then obtain r t' where call: "?call = Some (r, Some t')" "succeeds r" "ppc_r (thr_context t') 3 = 42" by blast
  with original_call_keeps_the_frame [OF call(1)] show ?thesis
    by (simp add: spoiling_processor_def calling_thread_def)
qed

definition pass_through_entry :: "((unit, unit) override_handler, unit) override_entry" where
  "pass_through_entry = \<lparr>ovr_address = 0x82000000, ovr_handler = Some (pass_through spoiling_processor),
     ovr_context = None\<rparr>"

lemma pass_through_is_transparent_witness:
  "case dispatch_guest (bind_overrides None new_override_dispatch) pass_through_entry
       (calling_thread, no_statistics) of
     Some (t', st) \<Rightarrow> ppc_r (thr_context t') 3 = 7 \<and> ppc_r (thr_context t') 1 = 1
       \<and> st_native_override_calls st = 1
   | None \<Rightarrow> False"
proof -
  obtain t' where t': "framed spoiling_body calling_thread = Some (True, t')"
      "ppc_r (thr_context t') 3 = 7" "ppc_r (thr_context t') 1 = 1"
    by (simp add: framed_def enter_call_frame_def spoiling_defs leave_call_frame_def Let_def)
  have "dispatch_guest (bind_overrides None new_override_dispatch) pass_through_entry
      (calling_thread, no_statistics) = Some (t', count_native_override no_statistics)"
    by (rule pass_through_is_transparent [where xp = spoiling_processor and fn =
        "\<lparr>gfn_machine_code = True, gfn_machine_code_length = 16, gfn_call = spoiling_body\<rparr>"])
      (simp_all add: bind_overrides_def new_override_dispatch_def pass_through_entry_def t'
        spoiling_processor_def)
  with t' show ?thesis by (simp add: count_native_override_def no_statistics_def)
qed

end
