(* ===== verification/Pad_Merge.thy ===== *)
theory Pad_Merge imports Xam_Input begin

text \<open>
  The one pad the console reports: \<open>src/system/pad_merge.cpp\<close> combines the title's controller with a
  host gamepad, and \<open>src/system/system_input_driver.cpp\<close> answers Xenia's input exports with it. The host
  driver and Xenia's result codes are parameters; the title's readers are host code. The merger's
  state changes under its mutex, so a merge is one step; the order in which \<open>GetState\<close> asks its two
  devices is the compiler's choice, and is left to right here.
\<close>

section \<open>PadMerger\<close>

text \<open>The thumb axes are signed: their squares are added in 64 bits, which never overflows.\<close>

definition stick_magnitude :: "u16 \<Rightarrow> u16 \<Rightarrow> int" where
  "stick_magnitude x y = sint x * sint x + sint y * sint y"

definition take_further_stick :: "u16 \<times> u16 \<Rightarrow> u16 \<times> u16 \<Rightarrow> u16 \<times> u16" where
  "take_further_stick own other =
     (if stick_magnitude (fst other) (snd other) > stick_magnitude (fst own) (snd own) then other else own)"

definition combine_pads :: "xam_gamepad \<Rightarrow> xam_gamepad \<Rightarrow> xam_gamepad" where
  "combine_pads title host =
     (let left = take_further_stick (pad_thumb_lx title, pad_thumb_ly title) (pad_thumb_lx host, pad_thumb_ly host);
          right = take_further_stick (pad_thumb_rx title, pad_thumb_ry title) (pad_thumb_rx host, pad_thumb_ry host)
      in title\<lparr>pad_buttons := pad_buttons title OR pad_buttons host,
           pad_left_trigger := max (pad_left_trigger title) (pad_left_trigger host),
           pad_right_trigger := max (pad_right_trigger title) (pad_right_trigger host),
           pad_thumb_lx := fst left, pad_thumb_ly := snd left,
           pad_thumb_rx := fst right, pad_thumb_ry := snd right\<rparr>)"

definition same_gamepad :: "xam_gamepad \<Rightarrow> xam_gamepad \<Rightarrow> bool" where
  "same_gamepad l r \<longleftrightarrow> pad_buttons l = pad_buttons r \<and> pad_left_trigger l = pad_left_trigger r
     \<and> pad_right_trigger l = pad_right_trigger r \<and> pad_thumb_lx l = pad_thumb_lx r
     \<and> pad_thumb_ly l = pad_thumb_ly r \<and> pad_thumb_rx l = pad_thumb_rx r \<and> pad_thumb_ry l = pad_thumb_ry r"

record pad_merger =
  mrg_published :: bool
  mrg_last :: xam_gamepad
  mrg_packet_number :: u32

definition new_pad_merger :: pad_merger where
  "new_pad_merger = \<lparr>mrg_published = False, mrg_last = no_gamepad, mrg_packet_number = 0\<rparr>"

definition no_pad :: xam_pad_snapshot where
  "no_pad = \<lparr>snap_connected = False, snap_packet_number = 0, snap_gamepad = no_gamepad\<rparr>"

definition merge_pads ::
  "xam_pad_snapshot \<Rightarrow> xam_pad_snapshot \<Rightarrow> pad_merger \<Rightarrow> xam_pad_snapshot \<times> pad_merger" where
  "merge_pads title host m =
     (if \<not> snap_connected title \<and> \<not> snap_connected host then (no_pad, m)
      else (let combined =
              (if snap_connected title \<and> snap_connected host
               then combine_pads (snap_gamepad title) (snap_gamepad host)
               else if snap_connected title then snap_gamepad title else snap_gamepad host);
            m = (if \<not> mrg_published m \<or> \<not> same_gamepad combined (mrg_last m)
              then \<lparr>mrg_published = True, mrg_last = combined,
                mrg_packet_number = mrg_packet_number m + 1\<rparr>
              else m)
        in (\<lparr>snap_connected = True, snap_packet_number = mrg_packet_number m, snap_gamepad = combined\<rparr>, m)))"

section \<open>SystemInputDriver\<close>

record x_results =
  x_error_success :: u32
  x_error_device_not_connected :: u32
  x_error_empty :: u32

text \<open>
  A host driver, by what its calls answer and leave: the state and the capabilities it stores are
  given as the snapshot and the capabilities they denote.
\<close>

record 'x host_driver =
  hdr_get_capabilities :: "u32 \<Rightarrow> u32 \<Rightarrow> 'x \<Rightarrow> (u32 \<times> xam_pad_capabilities) \<times> 'x"
  hdr_get_state :: "u32 \<Rightarrow> 'x \<Rightarrow> (u32 \<times> u32 \<times> xam_gamepad) \<times> 'x"
  hdr_set_state :: "u32 \<Rightarrow> u16 \<times> u16 \<Rightarrow> 'x \<Rightarrow> u32 \<times> 'x"

record ('c, 'x) system_input_source =
  src_state :: "(xam_pad_snapshot, 'c, 'x) pad_reader option"
  src_capabilities :: "(xam_pad_capabilities, 'c, 'x) pad_reader option"
  src_context :: 'c

record ('c, 'x) input_driver =
  drv_source :: "('c, 'x) system_input_source"
  drv_host :: "'x host_driver option"
  drv_merger :: pad_merger

definition create_system_input_driver ::
  "('c, 'x) system_input_source \<Rightarrow> 'x host_driver option \<Rightarrow> ('c, 'x) input_driver" where
  "create_system_input_driver source host =
     \<lparr>drv_source = source, drv_host = host, drv_merger = new_pad_merger\<rparr>"

text \<open>Calling a null reader is undefined behaviour: \<open>None\<close>.\<close>

definition ask ::
  "('s, 'c, 'x) pad_reader option \<Rightarrow> u32 \<Rightarrow> u32 \<Rightarrow> 'c \<Rightarrow> 'x \<Rightarrow> ('s \<times> 'x) option" where
  "ask reader user_index flags context x =
     map_option (\<lambda>read. read \<lparr>xir_user_index = user_index, xir_flags = flags\<rparr> context x) reader"

definition host_pad_state ::
  "x_results \<Rightarrow> ('c, 'x) input_driver \<Rightarrow> u32 \<Rightarrow> 'x \<Rightarrow> xam_pad_snapshot \<times> 'x" where
  "host_pad_state xr drv user_index x =
     (case drv_host drv of
        None \<Rightarrow> (no_pad, x)
      | Some host \<Rightarrow>
          (case hdr_get_state host user_index x of ((result, n, pad), x) \<Rightarrow>
            (if result \<noteq> x_error_success xr then no_pad
             else \<lparr>snap_connected = True, snap_packet_number = n, snap_gamepad = pad\<rparr>, x)))"

text \<open>The output parameters are the component after the result, \<open>None\<close> when nothing is stored.\<close>

definition driver_get_state ::
  "x_results \<Rightarrow> u32 \<Rightarrow> ('c, 'x) input_driver \<Rightarrow> 'x \<Rightarrow>
   (u32 \<times> (u32 \<times> xam_gamepad) option \<times> ('c, 'x) input_driver \<times> 'x) option" where
  "driver_get_state xr user_index drv x = do {
     title \<leftarrow> ask (src_state (drv_source drv)) user_index 0 (src_context (drv_source drv)) x;
     (case host_pad_state xr drv user_index (snd title) of (host, x) \<Rightarrow>
      case merge_pads (fst title) host (drv_merger drv) of (merged, m) \<Rightarrow>
       (let drv = drv\<lparr>drv_merger := m\<rparr> in
        if \<not> snap_connected merged then Some (x_error_device_not_connected xr, None, drv, x)
        else Some (x_error_success xr, Some (snap_packet_number merged, snap_gamepad merged), drv, x)))
   }"

definition driver_get_capabilities ::
  "x_results \<Rightarrow> u32 \<Rightarrow> u32 \<Rightarrow> ('c, 'x) input_driver \<Rightarrow> 'x \<Rightarrow>
   ((u32 \<times> xam_pad_capabilities option) \<times> 'x) option" where
  "driver_get_capabilities xr user_index flags drv x = do {
     title \<leftarrow> ask (src_capabilities (drv_source drv)) user_index flags (src_context (drv_source drv)) x;
     (case title of (capabilities, x) \<Rightarrow>
       if \<not> cap_connected capabilities
       then (case drv_host drv of
           None \<Rightarrow> Some ((x_error_device_not_connected xr, None), x)
         | Some host \<Rightarrow> (case hdr_get_capabilities host user_index flags x of
             ((result, c), x) \<Rightarrow> Some ((result, Some c), x)))
       else Some ((x_error_success xr, Some capabilities), x))
   }"

definition driver_set_state ::
  "x_results \<Rightarrow> u32 \<Rightarrow> u16 \<times> u16 \<Rightarrow> ('c, 'x) input_driver \<Rightarrow> 'x \<Rightarrow> (u32 \<times> 'x) option" where
  "driver_set_state xr user_index vibration drv x =
     (case (case drv_host drv of None \<Rightarrow> (False, x)
        | Some host \<Rightarrow> (case hdr_set_state host user_index vibration x of
            (result, x) \<Rightarrow> (result = x_error_success xr, x))) of
      (played, x) \<Rightarrow>
        if played then Some (x_error_success xr, x)
        else do {
          title \<leftarrow> ask (src_state (drv_source drv)) user_index 0 (src_context (drv_source drv)) x;
          Some (if snap_connected (fst title) then x_error_success xr
                else x_error_device_not_connected xr, snd title)
        })"

definition driver_get_keystroke :: "x_results \<Rightarrow> u32" where
  "driver_get_keystroke xr = x_error_empty xr"

section \<open>The packet number follows the combined state\<close>

lemma same_gamepad_eq [simp]: "same_gamepad l r \<longleftrightarrow> l = r"
  by (auto simp: same_gamepad_def)

text \<open>A history of merges, with what each reported.\<close>

fun run_merges :: "(xam_pad_snapshot \<times> xam_pad_snapshot) list \<Rightarrow> pad_merger \<Rightarrow> xam_pad_snapshot list \<times> pad_merger" where
  "run_merges [] m = ([], m)"
| "run_merges ((title, host) # ps) m =
     (case merge_pads title host m of (s, m) \<Rightarrow>
      case run_merges ps m of (ss, m) \<Rightarrow> (s # ss, m))"

text \<open>How often the state of the connected reports changes, the first one counted.\<close>

fun changes :: "xam_gamepad option \<Rightarrow> xam_pad_snapshot list \<Rightarrow> nat" where
  "changes prev [] = 0"
| "changes prev (s # ss) =
     (if \<not> snap_connected s then changes prev ss
      else (if prev = Some (snap_gamepad s) then 0 else 1) + changes (Some (snap_gamepad s)) ss)"

definition merger_last :: "pad_merger \<Rightarrow> xam_gamepad option" where
  "merger_last m = (if mrg_published m then Some (mrg_last m) else None)"

lemma merge_pads_step:
  assumes "merge_pads title host m = (s, m')"
  shows "if snap_connected s
    then snap_packet_number s = mrg_packet_number m'
      \<and> mrg_packet_number m' = mrg_packet_number m + (if merger_last m = Some (snap_gamepad s) then 0 else 1)
      \<and> merger_last m' = Some (snap_gamepad s)
    else m' = m \<and> s = no_pad"
  using assms by (auto simp: merge_pads_def Let_def merger_last_def no_pad_def split: if_splits)

lemma run_merges_packets:
  assumes "run_merges ps m = (ss, m')" "i < length ss" "snap_connected (ss ! i)"
  shows "snap_packet_number (ss ! i) =
    mrg_packet_number m + word_of_nat (changes (merger_last m) (take (Suc i) ss))"
  using assms
proof (induction ps arbitrary: m ss i)
  case (Cons p ps)
  obtain title host where p: "p = (title, host)" by (cases p)
  obtain s m1 where first: "merge_pads title host m = (s, m1)" by fastforce
  obtain ss1 m2 where rest: "run_merges ps m1 = (ss1, m2)" by fastforce
  note step = merge_pads_step [OF first]
  from Cons.prems(1) p first rest have ss: "ss = s # ss1" and m2: "m2 = m'" by simp_all
  show ?case
  proof (cases i)
    case 0
    with Cons.prems(3) ss step show ?thesis by auto
  next
    case (Suc j)
    with Cons.prems(2,3) ss
    have "snap_packet_number (ss1 ! j) = mrg_packet_number m1 + word_of_nat (changes (merger_last m1) (take (Suc j) ss1))"
      using Cons.IH [OF rest [unfolded m2], of j] by simp
    with Suc ss step show ?thesis by (auto split: if_splits)
  qed
qed simp

fun last_report :: "xam_gamepad option \<Rightarrow> xam_pad_snapshot list \<Rightarrow> xam_gamepad option" where
  "last_report prev [] = prev"
| "last_report prev (s # ss) = last_report (if snap_connected s then Some (snap_gamepad s) else prev) ss"

lemma changes_append: "changes prev (xs @ ys) = changes prev xs + changes (last_report prev xs) ys"
  by (induction xs arbitrary: prev) auto

lemma last_report_append: "last_report prev (xs @ ys) = last_report (last_report prev xs) ys"
  by (induction xs arbitrary: prev) auto

lemma silent_reports:
  assumes "\<forall>s\<in>set ss. \<not> snap_connected s"
  shows "changes prev ss = 0" "last_report prev ss = prev"
  using assms by (induction ss) auto

lemma take_split: "i < j \<Longrightarrow> j < length ss \<Longrightarrow>
  take (Suc j) ss = take (Suc i) ss @ take (j - Suc i) (drop (Suc i) ss) @ [ss ! j]"
proof -
  assume a: "i < j" "j < length ss"
  have "take j ss = take (Suc i) ss @ take (j - Suc i) (drop (Suc i) ss)"
    using a by (metis Suc_leI le_add_diff_inverse take_add)
  with a show ?thesis by (simp add: take_Suc_conv_app_nth)
qed

text \<open>Between two connected reports with only silent ones between them, the number moves with the state.\<close>

lemma changes_next:
  assumes "i < j" "j < length ss" "snap_connected (ss ! i)" "snap_connected (ss ! j)"
    and silent: "\<And>k. i < k \<Longrightarrow> k < j \<Longrightarrow> \<not> snap_connected (ss ! k)"
  shows "changes prev (take (Suc j) ss) = changes prev (take (Suc i) ss)
    + (if snap_gamepad (ss ! j) = snap_gamepad (ss ! i) then 0 else 1)"
proof -
  let ?mid = "take (j - Suc i) (drop (Suc i) ss)"
  have mid: "\<forall>s\<in>set ?mid. \<not> snap_connected s"
  proof
    fix s assume "s \<in> set ?mid"
    then obtain k where "k < length ?mid" "s = ?mid ! k" by (metis in_set_conv_nth)
    with assms(1,2) silent [of "Suc i + k"] show "\<not> snap_connected s" by simp
  qed
  have "last_report prev (take (Suc i) ss) = Some (snap_gamepad (ss ! i))"
    using assms(1,2,3) by (simp add: take_Suc_conv_app_nth last_report_append)
  with assms(4) show ?thesis
    by (simp add: take_split [OF assms(1,2)] changes_append last_report_append silent_reports [OF mid])
qed

text \<open>C30: the packet number of a connected report is the merger's starting number plus the number of times
  the combined state changed up to it, and from one connected report to the next it advances by one
  exactly when the state differs, whatever polls found no pad in between.
\<close>

theorem packet_follows_state:
  assumes "run_merges ps m = (ss, m')" "i < j" "j < length ss"
    and "snap_connected (ss ! i)" "snap_connected (ss ! j)"
    and "\<And>k. i < k \<Longrightarrow> k < j \<Longrightarrow> \<not> snap_connected (ss ! k)"
  shows "snap_packet_number (ss ! j) =
      mrg_packet_number m + word_of_nat (changes (merger_last m) (take (Suc j) ss))
    \<and> snap_packet_number (ss ! j) = snap_packet_number (ss ! i)
        + (if snap_gamepad (ss ! j) = snap_gamepad (ss ! i) then 0 else 1)"
  using run_merges_packets [OF assms(1), of i] run_merges_packets [OF assms(1), of j] assms(2-5)
    changes_next [OF assms(2-6), of "merger_last m"]
  by simp

definition pad_with :: "u16 \<Rightarrow> xam_pad_snapshot" where
  "pad_with buttons = \<lparr>snap_connected = True, snap_packet_number = 7,
     snap_gamepad = no_gamepad\<lparr>pad_buttons := buttons\<rparr>\<rparr>"

lemma packet_follows_state_witness:
  "case run_merges [(pad_with 1, no_pad), (no_pad, no_pad), (no_pad, pad_with 2)] new_pad_merger of
    (ss, m) \<Rightarrow> snap_packet_number (ss ! 2) = snap_packet_number (ss ! 0) + 1"
proof -
  let ?ps = "[(pad_with 1, no_pad), (no_pad, no_pad), (no_pad, pad_with 2)]"
  obtain ss m where run: "run_merges ?ps new_pad_merger = (ss, m)" by fastforce
  then have ss: "ss = [\<lparr>snap_connected = True, snap_packet_number = 1, snap_gamepad = no_gamepad\<lparr>pad_buttons := 1\<rparr>\<rparr>,
      no_pad, \<lparr>snap_connected = True, snap_packet_number = 2, snap_gamepad = no_gamepad\<lparr>pad_buttons := 2\<rparr>\<rparr>]"
    by (simp add: pad_with_def no_pad_def no_gamepad_def new_pad_merger_def merge_pads_def Let_def)
  have between: "k = 1" if "0 < k" "k < 2" for k :: nat using that by simp
  have "snap_packet_number (ss ! 2) = snap_packet_number (ss ! 0)
      + (if snap_gamepad (ss ! 2) = snap_gamepad (ss ! 0) then 0 else 1)"
    using packet_follows_state [OF run, of 0 2] between by (force simp: ss no_pad_def)
  with run show ?thesis by (simp add: ss no_gamepad_def)
qed

text \<open>
  The driver connects the pad when either device has one, with the merger's number, and reports it
  absent otherwise; the merger is the only part of it that changes.
\<close>

lemma driver_get_state_answers:
  "case driver_get_state xr user drv x of
     None \<Rightarrow> src_state (drv_source drv) = None
   | Some (result, stored, drv', x') \<Rightarrow>
       (stored = None \<longrightarrow> result = x_error_device_not_connected xr \<and> drv' = drv)
     \<and> (stored \<noteq> None \<longrightarrow> result = x_error_success xr
          \<and> stored = Some (mrg_packet_number (drv_merger drv'), mrg_last (drv_merger drv'))
          \<and> mrg_published (drv_merger drv'))
     \<and> drv_source drv' = drv_source drv \<and> drv_host drv' = drv_host drv"
  by (cases "src_state (drv_source drv)")
    (auto simp: driver_get_state_def ask_def merge_pads_def Let_def no_pad_def split: prod.splits if_splits)

end
