(* ===== verification/Frame_Intervals.thy ===== *)
theory Frame_Intervals imports Prelude "HOL-Library.Log_Nat" Complex_Main begin

text \<open>
  The histogram of frame intervals: \<open>src/system/frame_intervals.cpp\<close>. The buckets are a list of
  \<open>kBucketCount\<close> 64-bit counters.

  A \<open>double\<close> is the rational it denotes, an infinity or not a number. The two operations the code rounds, converting the count and
  multiplying by the fraction, are written out: \<open>round_double\<close> rounds a positive rational to 53
  significant bits, ties to even. Both operands are at least the smallest subnormal apart, where the
  product is exact, so subnormal rounding never differs. Every comparison with \<open>nan\<close> is false.
\<close>

section \<open>Double arithmetic\<close>

datatype double = Finite rat | Infinite bool | Not_A_Number

primrec double_greater :: "double \<Rightarrow> rat \<Rightarrow> bool" where
  "double_greater (Finite x) y \<longleftrightarrow> x > y"
| "double_greater (Infinite negative) y \<longleftrightarrow> \<not> negative"
| "double_greater Not_A_Number y \<longleftrightarrow> False"

definition round_half_even :: "rat \<Rightarrow> int" where
  "round_half_even y =
     (let f = \<lfloor>y\<rfloor>; d = y - of_int f in
      if d < 1 / 2 then f else if d > 1 / 2 then f + 1 else if even f then f else f + 1)"

text \<open>The exponent \<open>e\<close> with \<open>2 ^ e \<le> x < 2 ^ (e + 1)\<close>.\<close>

definition binary_exponent :: "rat \<Rightarrow> int" where
  "binary_exponent x =
     (case quotient_of x of (p, q) \<Rightarrow>
       (let e = int (floorlog 2 (nat p)) - int (floorlog 2 (nat q)) in
        if 2 powi e \<le> x then e else e - 1))"

definition round_double :: "rat \<Rightarrow> rat" where
  "round_double x =
     (let ulp = 2 powi (binary_exponent x - 52) in of_int (round_half_even (x / ulp)) * ulp)"

section \<open>The histogram\<close>

definition k_bucket_microseconds :: u32 where "k_bucket_microseconds = 100"
definition k_bucket_count :: nat where "k_bucket_count = 1001"

record frame_interval_quantile =
  fiq_microseconds :: u32
  fiq_open_ended :: bool

type_synonym buckets = "u64 list"

definition new_histogram :: buckets where
  "new_histogram = replicate k_bucket_count 0"

definition histogram_count :: "buckets \<Rightarrow> u64" where
  "histogram_count buckets = fold (\<lambda>b sum. sum + b) buckets 0"

fun quantile_loop :: "u64 \<Rightarrow> nat \<Rightarrow> u64 \<Rightarrow> u64 list \<Rightarrow> frame_interval_quantile option" where
  "quantile_loop rank bucket seen [] = None"
| "quantile_loop rank bucket seen (b # bs) =
     (let seen = seen + b in
      if seen \<ge> rank
      then (let final = (bucket + 1 = k_bucket_count);
                edge = (if final then word_of_nat bucket else word_of_nat (bucket + 1)) in
        Some \<lparr>fiq_microseconds = edge * k_bucket_microseconds, fiq_open_ended = final\<rparr>)
      else quantile_loop rank (bucket + 1) seen bs)"

text \<open>The rank is converted from a double: past \<open>2 ^ 64\<close> the conversion is undefined, the outer \<open>None\<close>.\<close>

definition quantile :: "buckets \<Rightarrow> double \<Rightarrow> frame_interval_quantile option option" where
  "quantile buckets fraction =
     (let count = histogram_count buckets in
      if count = 0 \<or> \<not> double_greater fraction 0 \<or> double_greater fraction 1 then Some None
      else (case fraction of
          Finite f \<Rightarrow>
            (let rank = \<lceil>round_double (f * round_double (of_nat (unat count)))\<rceil> in
             if rank \<ge> 2 ^ 64 then None
             else Some (quantile_loop (word_of_int rank) 0 0 buckets))
        | _ \<Rightarrow> None))"

definition since :: "buckets \<Rightarrow> buckets \<Rightarrow> buckets" where
  "since buckets earlier = map (\<lambda>bucket. buckets ! bucket - earlier ! bucket) [0..<k_bucket_count]"

section \<open>Rounding\<close>

lemma binary_exponent_le:
  assumes "0 < x"
  shows "2 powi binary_exponent x \<le> x"
proof -
  obtain p q where pq: "quotient_of x = (p, q)" by fastforce
  have x: "x = of_int p / of_int q" and q: "0 < q"
    using quotient_of_div [OF pq] quotient_of_denom_pos [OF pq] by auto
  with assms have p: "0 < p" by (simp add: zero_less_divide_iff)
  define a b where "a = floorlog 2 (nat p)" and "b = floorlog 2 (nat q)"
  have "2 ^ (a - 1) \<le> nat p" "nat q \<le> 2 ^ b" "1 \<le> a"
    using p q floorlog_bounds [of "nat p" 2] floorlog_bounds [of "nat q" 2]
    by (auto simp: a_def b_def floorlog_def)
  then have "of_nat (2 ^ (a - 1)) \<le> (of_nat (nat p) :: rat)" "of_nat (nat q) \<le> (of_nat (2 ^ b) :: rat)"
    by (simp_all only: of_nat_le_iff)
  then have "(2 :: rat) ^ (a - 1) / 2 ^ b \<le> x" using p q x by (auto intro!: frac_le)
  moreover have "(2 :: rat) powi (int a - int b - 1) = 2 ^ (a - 1) / 2 ^ b"
  proof -
    have "int a - int b - 1 = int (a - 1) - int b" using \<open>1 \<le> a\<close> by simp
    then have "(2 :: rat) powi (int a - int b - 1) = 2 powi (int (a - 1) - int b)" by (simp only:)
    also have "\<dots> = 2 ^ (a - 1) / 2 ^ b" by (subst power_int_diff) (simp_all only: power_int_of_nat, simp)
    finally show ?thesis .
  qed
  ultimately show ?thesis by (auto simp: binary_exponent_def pq a_def b_def Let_def)
qed

lemma round_half_even_cases:
  "round_half_even y = \<lfloor>y\<rfloor> \<or> (round_half_even y = \<lfloor>y\<rfloor> + 1 \<and> y \<noteq> of_int \<lfloor>y\<rfloor>)"
  by (auto simp: round_half_even_def Let_def)

lemma round_half_even_le: 
  assumes "y \<le> of_int n"
  shows "round_half_even y \<le> n"
proof -
  have "\<lfloor>y\<rfloor> \<le> n" using floor_mono [OF assms] by simp
  moreover have "\<lfloor>y\<rfloor> \<noteq> n" if "y \<noteq> of_int \<lfloor>y\<rfloor>"
    using that assms by (metis of_int_floor_le order_antisym)
  ultimately show ?thesis using round_half_even_cases [of y] by auto
qed

lemma round_half_even_ge: "of_int n \<le> y \<Longrightarrow> n \<le> round_half_even y"
  using round_half_even_cases [of y] by (auto simp: le_floor_iff [symmetric])

text \<open>
  Up to \<open>2 ^ 53\<close> the unit of rounding divides one, so rounding keeps integers and never passes one;
  and what is positive stays positive.
\<close>

lemma binary_exponent_bound:
  assumes "0 < x" "x \<le> 2 ^ 53"
  shows "binary_exponent x \<le> 53"
proof -
  have "(2 :: rat) powi binary_exponent x \<le> 2 powi 53"
    using binary_exponent_le [OF assms(1)] assms(2) by simp
  then show ?thesis by (rule power_int_le_imp_le_exp [rotated]) simp_all
qed

lemma round_double_scaled:
  assumes "0 < x" "x \<le> 2 ^ 53"
  obtains (scaled) k where "round_double x * 2 ^ k = of_int (round_half_even (x * 2 ^ k))"
    | (top) "x = of_int (2 ^ 53)" "round_double x = of_int (2 ^ 53)"
proof (cases "binary_exponent x = 53")
  case True
  with binary_exponent_le [OF assms(1)] assms(2) have "x = 2 ^ 53" by simp
  with True show thesis by (intro top) (simp_all add: round_double_def round_half_even_def)
next
  case False
  let ?ulp = "(2 :: rat) powi (binary_exponent x - 52)"
  from False binary_exponent_bound [OF assms] obtain k where "52 - binary_exponent x = int k"
    using zero_le_imp_eq_int [of "52 - binary_exponent x"] by auto
  then have "binary_exponent x - 52 = - int k" by simp
  then have ulp: "?ulp * 2 ^ k = 1" by (simp only: power_int_minus power_int_of_nat) simp
  then have "x / ?ulp = x * 2 ^ k" by (simp add: field_simps)
  then have "round_double x * 2 ^ k = of_int (round_half_even (x * 2 ^ k)) * (?ulp * 2 ^ k)"
    by (simp add: round_double_def Let_def)
  with ulp show thesis by (intro scaled [of k]) simp
qed

lemma below_top: "n \<le> 2 ^ 53 \<Longrightarrow> (of_int n :: rat) \<le> 2 ^ 53"
proof -
  assume "n \<le> 2 ^ 53"
  then have "(of_int n :: rat) \<le> of_int (2 ^ 53)" by (simp only: of_int_le_iff)
  then show ?thesis by simp
qed

lemma round_double_le:
  assumes "0 < x" "x \<le> of_int n" "n \<le> 2 ^ 53"
  shows "round_double x \<le> of_int n"
proof -
  have "x \<le> 2 ^ 53" using assms(2) below_top [OF assms(3)] by (rule order_trans)
  with assms(1) show ?thesis
  proof (cases rule: round_double_scaled)
    case (scaled k)
    have "x * 2 ^ k \<le> of_int (n * 2 ^ k)" using assms(2) by simp
    then have "round_half_even (x * 2 ^ k) \<le> n * 2 ^ k" by (rule round_half_even_le)
    then have "round_double x * 2 ^ k \<le> of_int (n * 2 ^ k)" unfolding scaled by (simp only: of_int_le_iff)
    then show ?thesis by simp
  next
    case top
    with assms(2) show ?thesis by simp
  qed
qed

lemma round_double_int:
  assumes "0 < n" "n \<le> 2 ^ 53"
  shows "round_double (of_int n) = of_int n"
proof -
  have "(0 :: rat) < of_int n" "(of_int n :: rat) \<le> 2 ^ 53" using assms(1) below_top [OF assms(2)] by simp_all
  then show ?thesis
  proof (cases rule: round_double_scaled)
    case (scaled k)
    have "round_half_even (of_int (n * 2 ^ k)) = n * 2 ^ k"
      by (rule order_antisym) (rule round_half_even_le round_half_even_ge, simp)+
    with scaled show ?thesis by simp
  next
    case top
    then show ?thesis by simp
  qed
qed

lemma round_double_pos:
  assumes "0 < x"
  shows "0 < round_double x"
proof -
  let ?ulp = "(2 :: rat) powi (binary_exponent x - 52)"
  have "?ulp \<le> 2 powi binary_exponent x" by (rule power_int_increasing) simp_all
  with binary_exponent_le [OF assms] have "of_int 1 \<le> x / ?ulp" by (simp add: field_simps)
  then have "1 \<le> round_half_even (x / ?ulp)" by (rule round_half_even_ge)
  then show ?thesis by (simp add: round_double_def Let_def)
qed

section \<open>What a quantile is\<close>

text \<open>The intervals counted in the first \<open>k\<close> buckets, without wrapping.\<close>

definition up_to :: "buckets \<Rightarrow> nat \<Rightarrow> nat" where
  "up_to buckets k = (\<Sum>b\<leftarrow>take k buckets. unat b)"

lemma fold_count:
  "fold (\<lambda>b sum. sum + b) bs (word_of_nat s) = (word_of_nat (s + (\<Sum>b\<leftarrow>bs. unat b)) :: u64)"
proof (induction bs arbitrary: s)
  case (Cons b bs)
  have seen: "word_of_nat s + b = (word_of_nat (s + unat b) :: u64)" by simp
  show ?case using Cons [of "s + unat b"]
    by (simp only: fold_simps seen sum_list.Cons list.map add.assoc)
qed simp

lemma unat_word_of_nat_u64: "n < 2 ^ 64 \<Longrightarrow> unat (word_of_nat n :: u64) = n"
  by (simp add: unsigned_of_nat take_bit_nat_def)

lemma histogram_count_up_to:
  assumes "up_to buckets (length buckets) < 2 ^ 64"
  shows "unat (histogram_count buckets) = up_to buckets (length buckets)"
proof -
  have "histogram_count buckets = word_of_nat (up_to buckets (length buckets))"
    using fold_count [of buckets 0] by (simp add: histogram_count_def up_to_def)
  with assms show ?thesis by (simp only: unat_word_of_nat_u64)
qed

lemma quantile_loop_finds:
  assumes "s < r" "r \<le> s + (\<Sum>b\<leftarrow>bs. unat b)" "s + (\<Sum>b\<leftarrow>bs. unat b) < 2 ^ 64"
  shows "\<exists>i<length bs. s + (\<Sum>b\<leftarrow>take i bs. unat b) < r \<and> r \<le> s + (\<Sum>b\<leftarrow>take (Suc i) bs. unat b) \<and>
    quantile_loop (word_of_nat r) bucket (word_of_nat s) bs = Some
      \<lparr>fiq_microseconds = (if bucket + i + 1 = k_bucket_count then word_of_nat (bucket + i)
         else word_of_nat (bucket + i + 1)) * k_bucket_microseconds,
       fiq_open_ended = (bucket + i + 1 = k_bucket_count)\<rparr>"
  using assms
proof (induction bs arbitrary: s bucket)
  case (Cons b bs)
  have seen: "word_of_nat s + b = (word_of_nat (s + unat b) :: u64)" by simp
  have "s + unat b < 2 ^ 64" "r < 2 ^ 64" using Cons.prems by simp_all
  then have le: "(word_of_nat r :: u64) \<le> word_of_nat (s + unat b) \<longleftrightarrow> r \<le> s + unat b"
    by (simp only: word_le_nat_alt unat_word_of_nat_u64)
  have step: "quantile_loop (word_of_nat r) bucket (word_of_nat s) (b # bs) =
    (if r \<le> s + unat b
     then Some \<lparr>fiq_microseconds = (if bucket + 1 = k_bucket_count then word_of_nat bucket
         else word_of_nat (bucket + 1)) * k_bucket_microseconds,
       fiq_open_ended = (bucket + 1 = k_bucket_count)\<rparr>
     else quantile_loop (word_of_nat r) (bucket + 1) (word_of_nat (s + unat b)) bs)"
    by (simp only: quantile_loop.simps Let_def seen le)
  show ?case
  proof (cases "r \<le> s + unat b")
    case True
    with Cons.prems(1) show ?thesis unfolding step
      by (intro exI [of _ 0]) (simp del: of_nat_add)
  next
    case False
    with Cons.prems Cons.IH [of "s + unat b" "bucket + 1"] obtain i where "i < length bs"
      "s + unat b + (\<Sum>b\<leftarrow>take i bs. unat b) < r" "r \<le> s + unat b + (\<Sum>b\<leftarrow>take (Suc i) bs. unat b)"
      "quantile_loop (word_of_nat r) (bucket + 1) (word_of_nat (s + unat b)) bs = Some
      \<lparr>fiq_microseconds = (if bucket + 1 + i + 1 = k_bucket_count then word_of_nat (bucket + 1 + i)
         else word_of_nat (bucket + 1 + i + 1)) * k_bucket_microseconds,
       fiq_open_ended = (bucket + 1 + i + 1 = k_bucket_count)\<rparr>" by (auto simp: add.assoc simp del: of_nat_add)
    with False show ?thesis unfolding step
      by (intro exI [of _ "Suc i"]) (simp del: of_nat_add)
  qed
qed simp

section \<open>Property\<close>

lemma quantile_refused:
  assumes "length buckets = k_bucket_count" "up_to buckets k_bucket_count < 2 ^ 64"
    and "up_to buckets k_bucket_count = 0 \<or> \<not> double_greater fraction 0 \<or> double_greater fraction 1"
  shows "quantile buckets fraction = Some None"
  using assms histogram_count_up_to [of buckets] by (auto simp: quantile_def unat_eq_zero Let_def)

lemma quantile_answered:
  assumes "length buckets = k_bucket_count" "up_to buckets k_bucket_count \<le> 2 ^ 53" "0 < f" "f \<le> 1"
    and "up_to buckets k_bucket_count \<noteq> 0"
  shows "\<exists>rank b. int rank = \<lceil>round_double (f * of_nat (up_to buckets k_bucket_count))\<rceil>
      \<and> 1 \<le> rank \<and> rank \<le> up_to buckets k_bucket_count
      \<and> b < k_bucket_count \<and> up_to buckets b < rank \<and> rank \<le> up_to buckets (b + 1)
      \<and> quantile buckets (Finite f) = Some (Some
          \<lparr>fiq_microseconds = (if b = 1000 then 100000 else word_of_nat (b + 1) * 100),
           fiq_open_ended = (b = 1000)\<rparr>)"
proof -
  let ?n = "up_to buckets k_bucket_count"
  have count: "unat (histogram_count buckets) = ?n"
    using histogram_count_up_to [of buckets] assms(1,2) by simp
  note False = assms(5)
  define x where "x = f * of_nat ?n"
  have x: "0 < x" "x \<le> of_int (int ?n)" using assms(3,4) False by (auto simp: x_def mult_le_cancel_right1)
  have "int ?n \<le> 2 ^ 53" using assms(2) by (metis of_nat_le_iff of_nat_numeral of_nat_power)
  then have whole: "round_double (of_nat ?n) = of_nat ?n" "round_double x \<le> of_int (int ?n)"
    using round_double_int [of "int ?n"] round_double_le [OF x] False by simp_all
  define rank where "rank = nat \<lceil>round_double x\<rceil>"
  have "\<lceil>round_double x\<rceil> \<le> int ?n" using whole(2) by (simp add: ceiling_le_iff)
  moreover have "0 < \<lceil>round_double x\<rceil>" using round_double_pos [OF x(1)] by simp
  ultimately have rank: "int rank = \<lceil>round_double x\<rceil>" "1 \<le> rank" "rank \<le> ?n"
    unfolding rank_def by linarith+
  obtain b where b: "b < length buckets" "up_to buckets b < rank" "rank \<le> up_to buckets (Suc b)"
    "quantile_loop (word_of_nat rank) 0 0 buckets = Some
      \<lparr>fiq_microseconds = (if b + 1 = k_bucket_count then word_of_nat b
         else word_of_nat (b + 1)) * k_bucket_microseconds,
       fiq_open_ended = (b + 1 = k_bucket_count)\<rparr>"
    using quantile_loop_finds [of 0 rank buckets 0] rank(2,3) assms(1,2) by (auto simp: up_to_def)
  have "quantile buckets (Finite f) = Some (quantile_loop (word_of_nat rank) 0 0 buckets)"
  proof -
    have "word_of_int (int rank) = (word_of_nat rank :: u64)" by simp
    moreover have "histogram_count buckets \<noteq> 0" using count False by auto
    moreover have "\<lceil>round_double (f * round_double (of_nat ?n))\<rceil> = int rank"
      by (simp add: whole(1) rank(1) flip: x_def)
    moreover have "int rank < 2 ^ 64" using rank(3) assms(2) by simp
    ultimately show ?thesis using assms(3,4) count by (simp only: quantile_def Let_def) auto
  qed
  with b rank assms(1) x_def show ?thesis
    by (intro exI [of _ rank] exI [of _ b]) (simp add: k_bucket_count_def k_bucket_microseconds_def)
qed

text \<open>C29: for a histogram of at most \<open>2 ^ 53\<close> intervals, a quantile is refused exactly when there is no interval
  or the fraction is not a number in \<open>(0, 1]\<close> (zero, negative, above one, an infinity, not a number).
  Otherwise the conversion and the product stay in range, the rank is between one and the count, and the
  answer is the upper edge of the first bucket whose running total reaches the rank, open-ended exactly in
  the last bucket.\<close>

theorem quantile_finds_bucket:
  assumes "length buckets = k_bucket_count" "up_to buckets k_bucket_count \<le> 2 ^ 53"
  shows "case fraction of
      Finite f \<Rightarrow>
        if up_to buckets k_bucket_count = 0 \<or> f \<le> 0 \<or> 1 < f then quantile buckets fraction = Some None
        else \<exists>rank b. int rank = \<lceil>round_double (f * of_nat (up_to buckets k_bucket_count))\<rceil>
          \<and> 1 \<le> rank \<and> rank \<le> up_to buckets k_bucket_count
          \<and> b < k_bucket_count \<and> up_to buckets b < rank \<and> rank \<le> up_to buckets (b + 1)
          \<and> quantile buckets fraction = Some (Some
              \<lparr>fiq_microseconds = (if b = 1000 then 100000 else word_of_nat (b + 1) * 100),
               fiq_open_ended = (b = 1000)\<rparr>)
    | _ \<Rightarrow> quantile buckets fraction = Some None"
proof -
  have few: "up_to buckets k_bucket_count < 2 ^ 64" using assms(2) by simp
  note refused = quantile_refused [OF assms(1) few]
  show ?thesis
  proof (cases fraction)
    case (Finite f)
    show ?thesis
    proof (cases "up_to buckets k_bucket_count = 0 \<or> f \<le> 0 \<or> 1 < f")
      case True
      with Finite refused [of fraction] show ?thesis by auto
    next
      case False
      then have f: "0 < f" "f \<le> 1" "up_to buckets k_bucket_count \<noteq> 0" by simp_all
      show ?thesis unfolding Finite double.case if_not_P [OF False]
        by (rule quantile_answered [OF assms f])
    qed
  qed (use refused [of fraction] in auto)
qed

theorem quantile_finds_bucket_witness:
  "\<exists>q. quantile (new_histogram [3 := 2, 1000 := 1]) (Finite (1 / 2)) = Some (Some q)
    \<and> quantile (new_histogram [3 := 2, 1000 := 1]) (Finite (3 / 2)) = Some None"
proof -
  have "up_to (new_histogram [3 := 2, 1000 := 1]) k_bucket_count = 3"
    by (simp add: up_to_def new_histogram_def k_bucket_count_def map_update sum_list_update sum_list_replicate)
  then show ?thesis using quantile_finds_bucket [of "new_histogram [3 := 2, 1000 := 1]" "Finite (1 / 2)"]
      quantile_finds_bucket [of "new_histogram [3 := 2, 1000 := 1]" "Finite (3 / 2)"]
    by (auto simp: new_histogram_def k_bucket_count_def)
qed

text \<open>Subtracting an earlier snapshot gives what was counted in between, even if a counter wrapped.\<close>

lemma since_counts_between:
  assumes "length earlier = k_bucket_count" "length between = k_bucket_count"
  shows "since (map2 (+) earlier between) earlier = between"
  using assms by (intro nth_equalityI) (simp_all add: since_def)

end
