(* ===== verification/System_Session.thy ===== *)
theory System_Session imports System_Call_Context Pad_Merge Instance_Lease Frame_Intervals begin

text \<open>
  The full console: \<open>SystemSession\<close> of \<open>src/system/system_session.cpp\<close>. Xenia's emulator, the profile
  manager, the kernel's threads, the file system and SDL are one parameter (\<open>console\<close>) over its state
  \<open>'x\<close>. Calls that the emulator makes back into the session (the input drivers while it is set up, the
  launch notification) are arguments of the parameter's operations. The process-wide lease is that of
  \<open>Instance_Lease\<close>. A session's destructor may end the process: the left side of its result.
\<close>

section \<open>Configuration\<close>

datatype system_audio = Device_Audio | Silent_Audio

datatype system_host_input = No_Host_Input | Gamepads

record ('h, 'c) system_override =
  sov_address :: guest_address
  sov_handler :: "'h option"
  sov_context :: "'c option"

definition k_console_display_refresh_hz :: u32 where "k_console_display_refresh_hz = 60"
definition k_min_display_refresh_hz :: u32 where "k_min_display_refresh_hz = 1"
definition k_max_display_refresh_hz :: u32 where "k_max_display_refresh_hz = 1000"
definition k_min_resolution_scale :: u32 where "k_min_resolution_scale = 1"
definition k_max_resolution_scale :: u32 where "k_max_resolution_scale = 7"

record ('h, 'c, 'x) session_config =
  cfg_application_name :: string
  cfg_title_path :: string
  cfg_storage_root :: string
  cfg_expected_title_id :: u32
  cfg_player_gamertag :: string
  cfg_audio :: system_audio
  cfg_input :: "('c, 'x) system_input_source"
  cfg_host_input :: system_host_input
  cfg_display_refresh_hz :: u32
  cfg_max_presents_per_second :: u32
  cfg_resolution_scale :: u32
  cfg_write_perf_map :: bool
  cfg_overrides :: "('h, 'c) system_override list"

section \<open>The session\<close>

text \<open>
  \<open>emulator_\<close>, \<open>logging_\<close> and \<open>call_context_\<close> are whether they are set; the call context itself has no
  state. \<open>ses_owner\<close> identifies the lease object.
\<close>

record ('h, 'c, 'k, 'x) session =
  ses_owner :: nat
  ses_config :: "('h, 'c, 'x) session_config"
  ses_logging :: bool
  ses_emulator :: bool
  ses_call_context :: bool
  ses_overrides :: "('h, 'c, 'k) override_dispatch"
  ses_statistics :: jit_statistics
  ses_input_failure :: runtime_failure
  ses_activation_failure :: runtime_failure
  ses_launched :: bool

definition new_session :: "nat \<Rightarrow> ('h, 'c, 'x) session_config \<Rightarrow> ('h, 'c, 'k, 'x) session" where
  "new_session owner cfg = \<lparr>ses_owner = owner, ses_config = cfg, ses_logging = False,
     ses_emulator = False, ses_call_context = False, ses_overrides = new_override_dispatch,
     ses_statistics = no_statistics, ses_input_failure = no_failure,
     ses_activation_failure = no_failure, ses_launched = False\<rparr>"

section \<open>The console\<close>

record console_settings =
  cvr_vsync :: bool
  cvr_framerate_limit :: u32
  cvr_guest_present_limit :: u32
  cvr_perf_map :: bool
  cvr_draw_resolution_scale_x :: u32
  cvr_draw_resolution_scale_y :: u32

record raw_image =
  raw_width :: u32
  raw_height :: u32
  raw_stride :: nat
  raw_data :: bytes

record translation_counts =
  trc_defined_functions :: u64
  trc_failed_functions :: u64
  trc_host_code_bytes :: u64

text \<open>
  \<open>con_setup\<close> is given the factory of the input drivers, \<open>con_launch\<close> the launch notification; both act
  on the state the callback may change. Statuses are numbers; \<open>con_xfailed\<close> is Xenia's \<open>XFAILED\<close>.
\<close>

record ('s, 'c, 'x) console =
  con_path_exists :: "string \<Rightarrow> 'x \<Rightarrow> bool"
  con_create_directories :: "string \<Rightarrow> 'x \<Rightarrow> string option \<times> 'x"
  con_gamertag_valid :: "string \<Rightarrow> bool"
  con_start_logging :: "string \<Rightarrow> string \<Rightarrow> 'x \<Rightarrow> 'x"
  con_stop_logging :: "'x \<Rightarrow> 'x"
  con_set_cvars :: "console_settings \<Rightarrow> 'x \<Rightarrow> 'x"
  con_use_dummy_audio :: "'x \<Rightarrow> 'x"
  con_create_emulator :: "string \<Rightarrow> string \<Rightarrow> string \<Rightarrow> 'x \<Rightarrow> 'x"
  con_destroy_emulator :: "'x \<Rightarrow> 'x"
  con_xfailed :: "u32 \<Rightarrow> bool"
  con_setup :: "bool \<Rightarrow> (runtime_failure \<times> 'x \<Rightarrow> ('c, 'x) input_driver list \<times> runtime_failure \<times> 'x) \<Rightarrow>
    runtime_failure \<times> 'x \<Rightarrow> u32 \<times> runtime_failure \<times> 'x"
  con_gamepads :: "bool \<Rightarrow> 'x \<Rightarrow> u32 \<times> 'x host_driver \<times> 'x"
  con_accounts :: "'x \<Rightarrow> u64 list"
  con_create_profile :: "string \<Rightarrow> 'x \<Rightarrow> bool \<times> 'x"
  con_login :: "u64 \<Rightarrow> 'x \<Rightarrow> 'x"
  con_signed_in :: "'x \<Rightarrow> bool"
  con_launch :: "string \<Rightarrow> (u32 \<Rightarrow> 's \<times> 'x \<Rightarrow> 's \<times> 'x) \<Rightarrow> 's \<times> 'x \<Rightarrow> u32 \<times> 's \<times> 'x"
  con_text_section :: "'x \<Rightarrow> (u32 \<times> u32) option"
  con_threads :: "'x \<Rightarrow> nat list"
  con_main_thread :: "'x \<Rightarrow> nat \<Rightarrow> bool"
  con_suspend :: "nat \<Rightarrow> 'x \<Rightarrow> 'x"
  con_redirects :: "'x xenia_redirects"
  con_memory :: "'x xenia_memory"
  con_swap_count :: "'x \<Rightarrow> u64 option"
  con_swap_intervals :: "'x \<Rightarrow> buckets option"
  con_has_presenter :: "'x \<Rightarrow> bool"
  con_guest_output :: "'x \<Rightarrow> raw_image option"
  con_translation_counts :: "'x \<Rightarrow> translation_counts"

section \<open>ValidateConfig\<close>

definition hex_word :: "u32 \<Rightarrow> string" where
  "hex_word v =
     fold (\<lambda>index text.
         text[length text - index - 1 := ''0123456789ABCDEF'' ! unat (drop_bit (index * 4) v AND 0xF)])
       [0..<8] (replicate 8 (CHR ''0''))"

text \<open>On the platforms of the full system a path is absolute when it starts with a slash.\<close>

definition is_absolute :: "string \<Rightarrow> bool" where
  "is_absolute path \<longleftrightarrow> path \<noteq> [] \<and> hd path = CHR ''/''"

fun check_handlers :: "('h, 'c) system_override list \<Rightarrow> runtime_failure" where
  "check_handlers [] = no_failure"
| "check_handlers (entry # entries) =
     (if sov_handler entry = None
      then failure OverrideInvalid (''native override at 0x'' @ hex_word (sov_address entry) @ '' has no handler'')
      else check_handlers entries)"

definition validate_config ::
  "('s, 'c, 'x) console \<Rightarrow> ('h, 'c, 'x) session_config \<Rightarrow> 'x \<Rightarrow> runtime_failure" where
  "validate_config con cfg x =
     (if cfg_expected_title_id cfg = 0
      then failure ModuleValidationFailed
        ''a system session must state the title ID it expects to launch''
      else if \<not> con_path_exists con (cfg_title_path cfg) x
      then failure ModuleValidationFailed (''the title path does not exist: '' @ cfg_title_path cfg)
      else if cfg_storage_root cfg = [] \<or> \<not> is_absolute (cfg_storage_root cfg)
      then failure ModuleValidationFailed
        ''the storage root must be an absolute per-user directory''
      else if cfg_player_gamertag cfg \<noteq> [] \<and> \<not> con_gamertag_valid con (cfg_player_gamertag cfg)
      then failure ModuleValidationFailed
        (''the console refuses the gamertag '' @ [CHR 0x22] @ cfg_player_gamertag cfg @ [CHR 0x22]
          @ '': 1-15 letters, digits and single inner spaces, starting with a letter'')
      else if src_state (cfg_input cfg) = None \<or> src_capabilities (cfg_input cfg) = None
      then failure ImportValidationFailed ''a system session requires both controller readers''
      else if cfg_display_refresh_hz cfg < k_min_display_refresh_hz
          \<or> cfg_display_refresh_hz cfg > k_max_display_refresh_hz
      then failure BackendInitializationFailed
        (''the display refresh must be between '' @ dec_of (unat k_min_display_refresh_hz) @ '' and ''
          @ dec_of (unat k_max_display_refresh_hz) @ '' Hz, not '' @ dec_of (unat (cfg_display_refresh_hz cfg)))
      else if cfg_max_presents_per_second cfg > cfg_display_refresh_hz cfg
      then failure BackendInitializationFailed
        (''the present limit must not exceed the display refresh of ''
          @ dec_of (unat (cfg_display_refresh_hz cfg)) @ '' Hz, not ''
          @ dec_of (unat (cfg_max_presents_per_second cfg)))
      else if cfg_resolution_scale cfg < k_min_resolution_scale
          \<or> cfg_resolution_scale cfg > k_max_resolution_scale
      then failure BackendInitializationFailed
        (''the resolution scale must be between '' @ dec_of (unat k_min_resolution_scale) @ '' and ''
          @ dec_of (unat k_max_resolution_scale) @ '', not '' @ dec_of (unat (cfg_resolution_scale cfg)))
      else check_handlers (cfg_overrides cfg))"

section \<open>Initialize\<close>

definition sign_in_local_player ::
  "('s, 'c, 'x) console \<Rightarrow> ('h, 'c, 'x) session_config \<Rightarrow> 'x \<Rightarrow> (runtime_failure \<times> 'x) option" where
  "sign_in_local_player con cfg x =
     (if cfg_player_gamertag cfg = [] then Some (no_failure, x)
      else (case (if con_accounts con x = [] then con_create_profile con (cfg_player_gamertag cfg) x
          else (True, x)) of
        (created, x) \<Rightarrow>
          if \<not> created
          then Some (failure BackendInitializationFailed
            ''the local player's profile could not be created under the storage root'', x)
          else (case con_accounts con x of
              [] \<Rightarrow> None
            | xuid # _ \<Rightarrow>
                (let x = con_login con xuid x in
                 if \<not> con_signed_in con x
                 then Some (failure BackendInitializationFailed
                   ''the local player's profile under the storage root could not be signed in'', x)
                 else Some (no_failure, x)))))"

definition create_input_drivers ::
  "('s, 'c, 'x) console \<Rightarrow> ('h, 'c, 'x) session_config \<Rightarrow> bool \<Rightarrow> runtime_failure \<times> 'x \<Rightarrow>
   ('c, 'x) input_driver list \<times> runtime_failure \<times> 'x" where
  "create_input_drivers con cfg window s =
     (case s of (input_failure, x) \<Rightarrow>
       (case cfg_host_input cfg of
          No_Host_Input \<Rightarrow> ([create_system_input_driver (cfg_input cfg) None], input_failure, x)
        | Gamepads \<Rightarrow>
            (case con_gamepads con window x of (status, gamepads, x) \<Rightarrow>
              if con_xfailed con status
              then ([], failure BackendInitializationFailed
                (''the host gamepad driver refused to start: status 0x'' @ hex_word status), x)
              else ([create_system_input_driver (cfg_input cfg) (Some gamepads)], input_failure, x))))"

definition settings_of :: "('h, 'c, 'x) session_config \<Rightarrow> console_settings" where
  "settings_of cfg = \<lparr>cvr_vsync = True, cvr_framerate_limit = cfg_display_refresh_hz cfg,
     cvr_guest_present_limit = cfg_max_presents_per_second cfg, cvr_perf_map = cfg_write_perf_map cfg,
     cvr_draw_resolution_scale_x = cfg_resolution_scale cfg,
     cvr_draw_resolution_scale_y = cfg_resolution_scale cfg\<rparr>"

text \<open>An override that fails on a guest thread ends the process.\<close>

definition end_title_after_override_failure :: "'w failure_sink" where
  "end_title_after_override_failure f s = None"

text \<open>What follows the lease and the storage root: the emulator is created and set up.\<close>

definition start_emulator ::
  "('s, 'c, 'x) console \<Rightarrow> bool \<Rightarrow> ('h, 'c, 'k, 'x) session \<Rightarrow> 'x \<Rightarrow> u32 \<times> ('h, 'c, 'k, 'x) session \<times> 'x" where
  "start_emulator con window s x =
     (let cfg = ses_config s;
          x = con_start_logging con (cfg_application_name cfg)
            (cfg_storage_root cfg @ ''/logs/'' @ cfg_application_name cfg @ ''.log'') x;
          x = con_set_cvars con (settings_of cfg) x;
          x = (case cfg_audio cfg of Silent_Audio \<Rightarrow> con_use_dummy_audio con x | Device_Audio \<Rightarrow> x);
          x = con_create_emulator con (cfg_storage_root cfg) (cfg_storage_root cfg @ ''/content'')
            (cfg_storage_root cfg @ ''/cache_host'') x
      in case con_setup con window (create_input_drivers con cfg window) (ses_input_failure s, x) of
        (status, input_failure, x) \<Rightarrow>
          (status, s\<lparr>ses_logging := True, ses_emulator := True, ses_input_failure := input_failure\<rparr>, x))"

text \<open>The outer \<open>None\<close> is undefined behaviour: reading the first account of an empty list.\<close>

definition compose_console ::
  "('s, 'c, 'x) console \<Rightarrow> bool \<Rightarrow> ('h, 'c, 'w failure_sink, 'x) session \<Rightarrow> 'x \<Rightarrow>
   (runtime_failure \<times> ('h, 'c, 'w failure_sink, 'x) session \<times> 'x) option" where
  "compose_console con window s x =
     (case start_emulator con window s x of (status, s, x) \<Rightarrow>
       if con_xfailed con status
       then Some (failure BackendInitializationFailed
         (''Xenia refused to compose the console: status 0x'' @ hex_word status), s, x)
       else if fails (ses_input_failure s) then Some (ses_input_failure s, s, x)
       else do {
         r \<leftarrow> sign_in_local_player con (ses_config s) x;
         if fails (fst r) then Some (fst r, s, snd r)
         else Some (no_failure,
           s\<lparr>ses_call_context := True,
             ses_overrides := bind_overrides (Some end_title_after_override_failure) (ses_overrides s)\<rparr>,
           snd r)
       })"

definition session_initialize ::
  "('s, 'c, 'x) console \<Rightarrow> bool \<Rightarrow> leases \<Rightarrow> ('h, 'c, 'w failure_sink, 'x) session \<Rightarrow> 'x \<Rightarrow>
   (runtime_failure \<times> leases \<times> ('h, 'c, 'w failure_sink, 'x) session \<times> 'x) option" where
  "session_initialize con window ls s x =
     (let f = validate_config con (ses_config s) x in
      if fails f then Some (f, ls, s, x)
      else (case acquire_lease (ses_owner s) ls of (acquired, ls) \<Rightarrow>
        if \<not> acquired
        then Some (failure InstanceAlreadyActive
          ''Xenia guest memory uses a process-wide fixed mapping; only one x360port runtime or system session may be active'',
          ls, s, x)
        else (case con_create_directories con (cfg_storage_root (ses_config s)) x of
            (Some message, x) \<Rightarrow> Some (failure MemoryInitializationFailed
              (''the storage root could not be created: '' @ message), ls, s, x)
          | (None, x) \<Rightarrow> map_option (\<lambda>(f, s, x). (f, ls, s, x)) (compose_console con window s x))))"

section \<open>The destructor\<close>

definition exit_failure_status :: int where "exit_failure_status = 1"

definition destroy_session ::
  "('s, 'c, 'x) console \<Rightarrow> leases \<Rightarrow> ('h, 'c, 'k, 'x) session \<Rightarrow> 'x \<Rightarrow> int + leases \<times> 'x" where
  "destroy_session con ls s x =
     (if ses_launched s then Inl exit_failure_status
      else (let x = (if ses_emulator s then con_destroy_emulator con x else x);
                x = (if ses_logging s then con_stop_logging con x else x)
            in Inr (release_lease (ses_owner s) ls, x)))"

text \<open>\<open>CreateOffscreen\<close>: a session whose initialization failed is destroyed at once.\<close>

definition create_offscreen ::
  "('s, 'c, 'x) console \<Rightarrow> nat \<Rightarrow> ('h, 'c, 'x) session_config \<Rightarrow> leases \<Rightarrow> 'x \<Rightarrow>
   (int + runtime_failure \<times> leases \<times> ('h, 'c, 'w failure_sink, 'x) session option \<times> 'x) option" where
  "create_offscreen con owner cfg ls x = do {
     r \<leftarrow> session_initialize con False ls (new_session owner cfg) x;
     (case r of (f, ls, s, x) \<Rightarrow>
       if fails f
       then (case destroy_session con ls s x of
           Inl status \<Rightarrow> Some (Inl status)
         | Inr (ls, x) \<Rightarrow> Some (Inr (f, ls, None, x)))
       else Some (Inr (no_failure, ls, Some s, x)))
   }"

section \<open>Launch\<close>

fun install_all ::
  "'x xenia_redirects \<Rightarrow> code_range \<Rightarrow> ('h, 'c) system_override list \<Rightarrow>
   ('h, 'c, 'k) override_dispatch \<times> 'x \<Rightarrow> runtime_failure \<times> ('h, 'c, 'k) override_dispatch \<times> 'x" where
  "install_all xr code [] s = (no_failure, s)"
| "install_all xr code (entry # entries) (ovd, x) =
     (case install_override xr (sov_address entry) (sov_handler entry) (sov_context entry) code ovd x of
        (f, s) \<Rightarrow>
          if fails f
          then (failure (fail_error f)
            (fail_detail f @ '' (guest address 0x'' @ hex_word (sov_address entry) @ '')''), s)
          else install_all xr code entries s)"

definition activate_title ::
  "('s, 'c, 'x) console \<Rightarrow> u32 \<Rightarrow> ('h, 'c, 'k, 'x) session \<times> 'x \<Rightarrow>
   runtime_failure \<times> ('h, 'c, 'k, 'x) session \<times> 'x" where
  "activate_title con title_id sx =
     (case sx of (s, x) \<Rightarrow>
      let cfg = ses_config s in
      if title_id \<noteq> cfg_expected_title_id cfg
      then (failure ModuleValidationFailed
        (''the loaded title reports ID 0x'' @ hex_word title_id @ '', not the expected 0x''
          @ hex_word (cfg_expected_title_id cfg)), s, x)
      else (case con_text_section con x of
          None \<Rightarrow> (failure ModuleValidationFailed
            ''the loaded title has no executable .text section to bind overrides in'', s, x)
        | Some (address, extent) \<Rightarrow>
            if extent = 0
            then (failure ModuleValidationFailed
              ''the loaded title has no executable .text section to bind overrides in'', s, x)
            else (case install_all (con_redirects con) \<lparr>code_base = address, code_size = extent\<rparr>
                (cfg_overrides cfg) (ses_overrides s, x) of
              (f, ovd, x) \<Rightarrow> (f, s\<lparr>ses_overrides := ovd\<rparr>, x))))"

definition hold_main_thread :: "('s, 'c, 'x) console \<Rightarrow> 'x \<Rightarrow> 'x" where
  "hold_main_thread con x =
     fold (\<lambda>thread x. if con_main_thread con x thread then con_suspend con thread x else x)
       (con_threads con x) x"

definition on_launch ::
  "('s, 'c, 'x) console \<Rightarrow> u32 \<Rightarrow> ('h, 'c, 'k, 'x) session \<times> 'x \<Rightarrow> ('h, 'c, 'k, 'x) session \<times> 'x" where
  "on_launch con title_id sx =
     (case activate_title con title_id sx of (f, s, x) \<Rightarrow>
       (s\<lparr>ses_activation_failure := f\<rparr>, if fails f then hold_main_thread con x else x))"

definition session_launch ::
  "(('h, 'c, 'k, 'x) session, 'c, 'x) console \<Rightarrow> ('h, 'c, 'k, 'x) session \<Rightarrow> 'x \<Rightarrow>
   runtime_failure \<times> ('h, 'c, 'k, 'x) session \<times> 'x" where
  "session_launch con s x =
     (if \<not> ses_emulator s
      then (failure LoadStateInvalid ''the session must be initialized before it launches'', s, x)
      else (case con_launch con (cfg_title_path (ses_config s)) (on_launch con) (s, x) of
        (launched, s, x) \<Rightarrow>
         (let s = s\<lparr>ses_launched := True\<rparr> in
          if fails (ses_activation_failure s) then (ses_activation_failure s, s, x)
          else if con_xfailed con launched
          then (failure ModuleRegistrationFailed
            (''Xenia could not launch the title: status 0x'' @ hex_word launched), s, x)
          else (no_failure, s, x))))"

section \<open>What a running session answers\<close>

definition presented_frame_count :: "('s, 'c, 'x) console \<Rightarrow> ('h, 'c, 'k, 'x) session \<Rightarrow> 'x \<Rightarrow> u64" where
  "presented_frame_count con s x =
     (case (if ses_emulator s then con_swap_count con x else None) of Some n \<Rightarrow> n | None \<Rightarrow> 0)"

definition frame_intervals :: "('s, 'c, 'x) console \<Rightarrow> ('h, 'c, 'k, 'x) session \<Rightarrow> 'x \<Rightarrow> buckets" where
  "frame_intervals con s x =
     (case (if ses_emulator s then con_swap_intervals con x else None) of
        Some b \<Rightarrow> b | None \<Rightarrow> new_histogram)"

definition capture_guest_output ::
  "('s, 'c, 'x) console \<Rightarrow> ('h, 'c, 'k, 'x) session \<Rightarrow> 'x \<Rightarrow> raw_image \<Rightarrow> runtime_failure \<times> raw_image" where
  "capture_guest_output con s x img =
     (if \<not> (ses_emulator s \<and> con_has_presenter con x)
      then (failure LoadStateInvalid ''the session has no presenter to capture guest output from'', img)
      else (case con_guest_output con x of
          None \<Rightarrow> (failure ExecutionFailed ''the title has not presented a frame yet'', img)
        | Some raw \<Rightarrow> (no_failure, img\<lparr>raw_width := raw_width raw, raw_height := raw_height raw,
            raw_stride := raw_stride raw, raw_data := raw_data raw\<rparr>)))"

record execution_counts =
  exc_translated_functions :: u64
  exc_translation_failures :: u64
  exc_host_code_bytes :: u64
  exc_native_override_calls :: u64

text \<open>Reading the counters dereferences the emulator: \<open>None\<close> without one.\<close>

definition session_execution_counts ::
  "('s, 'c, 'x) console \<Rightarrow> ('h, 'c, 'k, 'x) session \<Rightarrow> 'x \<Rightarrow> execution_counts option" where
  "session_execution_counts con s x =
     (if \<not> ses_emulator s then None
      else (let t = con_translation_counts con x in
        Some \<lparr>exc_translated_functions = trc_defined_functions t,
          exc_translation_failures = trc_failed_functions t,
          exc_host_code_bytes = trc_host_code_bytes t,
          exc_native_override_calls = st_native_override_calls (ses_statistics s)\<rparr>))"

definition session_read_guest_memory ::
  "('s, 'c, 'x) console \<Rightarrow> ('h, 'c, 'k, 'x) session \<Rightarrow> guest_address \<Rightarrow> bytes \<Rightarrow> 'x \<Rightarrow> runtime_failure \<times> bytes" where
  "session_read_guest_memory con s address dst x =
     (if \<not> ses_call_context s
      then (failure LoadStateInvalid ''the session has no guest memory before it is initialized'', dst)
      else context_read (con_memory con) address dst x)"

section \<open>Creating a session\<close>

definition config_ok :: "('s, 'c, 'x) console \<Rightarrow> ('h, 'c, 'x) session_config \<Rightarrow> 'x \<Rightarrow> bool" where
  "config_ok con cfg x \<longleftrightarrow>
     cfg_expected_title_id cfg \<noteq> 0
     \<and> con_path_exists con (cfg_title_path cfg) x
     \<and> is_absolute (cfg_storage_root cfg)
     \<and> (cfg_player_gamertag cfg = [] \<or> con_gamertag_valid con (cfg_player_gamertag cfg))
     \<and> src_state (cfg_input cfg) \<noteq> None \<and> src_capabilities (cfg_input cfg) \<noteq> None
     \<and> cfg_display_refresh_hz cfg \<in> {1..1000}
     \<and> cfg_max_presents_per_second cfg \<le> cfg_display_refresh_hz cfg
     \<and> cfg_resolution_scale cfg \<in> {1..7}
     \<and> (\<forall>entry\<in>set (cfg_overrides cfg). sov_handler entry \<noteq> None)"

definition session_ready :: "('h, 'c, 'w failure_sink, 'x) session \<Rightarrow> bool" where
  "session_ready s \<longleftrightarrow> ses_emulator s \<and> ses_logging s \<and> ses_call_context s \<and> \<not> ses_launched s
     \<and> ovd_bound (ses_overrides s) \<and> ovd_unscoped_failure (ses_overrides s) = Some end_title_after_override_failure
     \<and> (\<forall>a. ovd_entries (ses_overrides s) a = None) \<and> \<not> fails (ses_activation_failure s)"

lemma hex_word_eq: "hex_word = format_guest_address"
  by (rule ext) (simp add: hex_word_def format_guest_address_def upper_digits_def)

lemma check_handlers_accepts [simp]:
  "fails (check_handlers entries) \<longleftrightarrow> (\<exists>entry\<in>set entries. sov_handler entry = None)"
  by (induction entries) auto

lemma accepted_step:
  "error \<noteq> NoRuntimeError \<Longrightarrow> \<not> fails (if c then failure error detail else f) \<longleftrightarrow> \<not> c \<and> \<not> fails f"
  by simp

lemma validate_config_accepts: "\<not> fails (validate_config con cfg x) \<longleftrightarrow> config_ok con cfg x"
proof -
  have "\<not> fails (validate_config con cfg x) \<longleftrightarrow>
      cfg_expected_title_id cfg \<noteq> 0 \<and> con_path_exists con (cfg_title_path cfg) x
      \<and> \<not> (cfg_storage_root cfg = [] \<or> \<not> is_absolute (cfg_storage_root cfg))
      \<and> \<not> (cfg_player_gamertag cfg \<noteq> [] \<and> \<not> con_gamertag_valid con (cfg_player_gamertag cfg))
      \<and> \<not> (src_state (cfg_input cfg) = None \<or> src_capabilities (cfg_input cfg) = None)
      \<and> \<not> (cfg_display_refresh_hz cfg < k_min_display_refresh_hz \<or> cfg_display_refresh_hz cfg > k_max_display_refresh_hz)
      \<and> \<not> cfg_max_presents_per_second cfg > cfg_display_refresh_hz cfg
      \<and> \<not> (cfg_resolution_scale cfg < k_min_resolution_scale \<or> cfg_resolution_scale cfg > k_max_resolution_scale)
      \<and> \<not> fails (check_handlers (cfg_overrides cfg))"
    unfolding validate_config_def by (simp only: accepted_step runtime_error.distinct not_False_eq_True not_not)
  also have "\<dots> \<longleftrightarrow> config_ok con cfg x"
    unfolding config_ok_def check_handlers_accepts k_min_display_refresh_hz_def k_max_display_refresh_hz_def
      k_min_resolution_scale_def k_max_resolution_scale_def atLeastAtMost_iff not_less de_Morgan_disj
    by (auto simp: is_absolute_def)
  finally show ?thesis .
qed

lemma fails_failure_kept [simp]: "fails (failure (fail_error f) d) \<longleftrightarrow> fails f"
  by (simp add: fails_def)

lemma started_emulator:
  assumes "start_emulator con window s x = (status, s', x')"
  shows "ses_config s' = ses_config s \<and> ses_owner s' = ses_owner s \<and> ses_launched s' = ses_launched s
    \<and> ses_emulator s' \<and> ses_logging s' \<and> ses_activation_failure s' = ses_activation_failure s
    \<and> ses_overrides s' = ses_overrides s"
proof -
  obtain y status1 g x1 where "con_setup con window (create_input_drivers con (ses_config s) window) (ses_input_failure s, y)
      = (status1, g, x1)" and "s' = s\<lparr>ses_logging := True, ses_emulator := True, ses_input_failure := g\<rparr>"
    using assms by (auto simp: start_emulator_def Let_def split: prod.splits)
  then show ?thesis by simp
qed

lemma composed_console:
  assumes "compose_console con window s x = Some (f, s', x')"
  shows "ses_config s' = ses_config s \<and> ses_owner s' = ses_owner s \<and> ses_launched s' = ses_launched s
    \<and> (\<not> fails f \<longrightarrow> ses_emulator s' \<and> ses_logging s' \<and> ses_call_context s'
        \<and> ses_activation_failure s' = ses_activation_failure s
        \<and> ses_overrides s' = bind_overrides (Some end_title_after_override_failure) (ses_overrides s))"
proof -
  obtain status s1 x1 where start: "start_emulator con window s x = (status, s1, x1)" by (metis prod_cases3)
  consider "fails f" "s' = s1" | "s' = s1\<lparr>ses_call_context := True,
      ses_overrides := bind_overrides (Some end_title_after_override_failure) (ses_overrides s1)\<rparr>"
    using assms start by (auto simp: compose_console_def bind_eq_Some_conv split: if_splits)
  then show ?thesis using started_emulator [OF start] by cases simp_all
qed

lemma new_session_simps [simp]:
  "ses_config (new_session owner cfg) = cfg" "ses_owner (new_session owner cfg) = owner"
  "\<not> ses_launched (new_session owner cfg)" "ses_overrides (new_session owner cfg) = new_override_dispatch"
  "\<not> fails (ses_activation_failure (new_session owner cfg))"
  by (simp_all add: new_session_def)

lemma initialized:
  assumes i: "session_initialize con window (leases_of h) (new_session owner cfg) x = Some (f, ls, s, x1)"
    and "h \<noteq> Some owner"
  shows "ses_owner s = owner \<and> \<not> ses_launched s
    \<and> ls \<in> {leases_of h, leases_of (if h = None then Some owner else h)}
    \<and> (\<not> fails f \<longrightarrow> h = None \<and> ls = leases_of (Some owner) \<and> session_ready s \<and> ses_config s = cfg
        \<and> config_ok con cfg x)"
proof -
  consider "fails (validate_config con cfg x)" | "\<not> fails (validate_config con cfg x)" "h \<noteq> None"
    | "\<not> fails (validate_config con cfg x)" "h = None" by blast
  then show ?thesis
  proof cases
    case 1
    with i show ?thesis by (auto simp: session_initialize_def Let_def)
  next
    case 2
    with i assms(2) show ?thesis by (auto simp: session_initialize_def Let_def acquire_leases_of)
  next
    case 3
    obtain refused x2 where d: "con_create_directories con (cfg_storage_root cfg) x = (refused, x2)" by fastforce
    show ?thesis
    proof (cases refused)
      case (Some message)
      with i 3 d show ?thesis by (auto simp: session_initialize_def Let_def acquire_leases_of)
    next
      case None
      with i 3 d have c: "compose_console con window (new_session owner cfg) x2 = Some (f, s, x1)"
        and ls: "ls = leases_of (Some owner)"
        by (auto simp: session_initialize_def Let_def acquire_leases_of)
      from composed_console [OF c] ls 3 validate_config_accepts [of con cfg x] show ?thesis
        by (simp add: session_ready_def bind_overrides_def new_override_dispatch_def)
    qed
  qed
qed

text \<open>C36: a session exists only for a well-formed configuration and while no other runtime or session owns
  Xenia's memory; it then holds the lease, with the overrides bound and none installed. A session that
  could not be created leaves the lease as it was, and never ends the process.
\<close>

theorem session_creation:
  assumes "create_offscreen con owner cfg (leases_of h) x = Some r" "h \<noteq> Some owner"
  shows "case r of
      Inl status \<Rightarrow> False
    | Inr (f, ls, None, x') \<Rightarrow> fails f \<and> ls = leases_of h
    | Inr (f, ls, Some s, x') \<Rightarrow> \<not> fails f \<and> h = None \<and> ls = leases_of (Some owner)
        \<and> session_ready s \<and> ses_config s = cfg \<and> config_ok con cfg x"
proof -
  from assms(1) obtain i where i: "session_initialize con False (leases_of h) (new_session owner cfg) x = Some i"
      and r: "(case i of (f, ls, s, x) \<Rightarrow>
         if fails f
         then (case destroy_session con ls s x of
             Inl status \<Rightarrow> Some (Inl status)
           | Inr (ls, x) \<Rightarrow> Some (Inr (f, ls, None, x)))
         else Some (Inr (no_failure, ls, Some s, x))) = Some r"
    unfolding create_offscreen_def bind_eq_Some_conv by blast
  obtain f ls s x1 where fx: "i = (f, ls, s, x1)" by (cases i)
  have s: "ses_owner s = owner \<and> \<not> ses_launched s
    \<and> ls \<in> {leases_of h, leases_of (if h = None then Some owner else h)}
    \<and> (\<not> fails f \<longrightarrow> h = None \<and> ls = leases_of (Some owner) \<and> session_ready s \<and> ses_config s = cfg
        \<and> config_ok con cfg x)"
    using initialized [OF i [unfolded fx] assms(2)] .
  have released: "release_lease owner ls = leases_of h"
    using s assms(2) by (auto simp: release_leases_of split: if_splits)
  show ?thesis
  proof (cases "fails f")
    case True
    then have "\<exists>y. Inr (f, leases_of h, None, y) = r"
      using r [unfolded fx] s released by (simp add: destroy_session_def Let_def) blast
    with True show ?thesis by (elim exE) (simp add: eq_commute [of _ r])
  next
    case False
    then have "r = Inr (no_failure, ls, Some s, x1)" using r [unfolded fx] by simp
    with s False show ?thesis by simp
  qed
qed

section \<open>Launching\<close>

text \<open>
  What the session relies on. \<open>suspends x m\<close> is the suspension count of a thread and \<open>title x\<close> the ID
  of the loaded title, none of which the code reads: a suspension counts, a redirect changes none of
  them, a thread with a positive count executes nothing. A launch either fails before it notifies the
  session, or notifies it once with the title loaded and every main thread suspended, and then resumes
  each of them once.
\<close>

definition thread_laws ::
  "('s, 'c, 'x) console \<Rightarrow> ('x \<Rightarrow> nat \<Rightarrow> nat) \<Rightarrow> ('x \<Rightarrow> u32) \<Rightarrow> bool" where
  "thread_laws con suspends title \<longleftrightarrow>
     (\<forall>x m. con_main_thread con x m \<longrightarrow> m \<in> set (con_threads con x))
   \<and> (\<forall>x m. suspends (con_suspend con m x) = (suspends x)(m := suspends x m + 1)
        \<and> con_main_thread con (con_suspend con m x) = con_main_thread con x
        \<and> title (con_suspend con m x) = title x)
   \<and> (\<forall>x a. suspends (snd (xr_install (con_redirects con) a x)) = suspends x
        \<and> con_main_thread con (snd (xr_install (con_redirects con) a x)) = con_main_thread con x
        \<and> title (snd (xr_install (con_redirects con) a x)) = title x)"

definition launch_laws ::
  "('s, 'c, 'x) console \<Rightarrow> ('x \<Rightarrow> nat \<Rightarrow> nat) \<Rightarrow> ('x \<Rightarrow> u32) \<Rightarrow> bool" where
  "launch_laws con suspends title \<longleftrightarrow>
     (\<forall>path notify s x status s' x'. con_launch con path notify (s, x) = (status, s', x') \<longrightarrow>
        (con_xfailed con status \<and> s' = s)
      \<or> (\<exists>x1 x2. (\<forall>m. con_main_thread con x1 m \<longrightarrow> 0 < suspends x1 m)
           \<and> notify (title x1) (s, x1) = (s', x2)
           \<and> title x' = title x2 \<and> con_main_thread con x' = con_main_thread con x2
           \<and> (\<forall>m. suspends x2 m \<le> suspends x' m + 1)))"


definition hold :: "('s, 'c, 'x) console \<Rightarrow> nat list \<Rightarrow> 'x \<Rightarrow> 'x" where
  "hold con ms x = fold (\<lambda>m x. if con_main_thread con x m then con_suspend con m x else x) ms x"

lemma hold_laws:
  assumes "thread_laws con suspends title"
  shows "con_main_thread con (hold con ms x) = con_main_thread con x \<and> title (hold con ms x) = title x
    \<and> suspends x m \<le> suspends (hold con ms x) m
    \<and> (m \<in> set ms \<and> con_main_thread con x m \<longrightarrow> suspends x m < suspends (hold con ms x) m)"
proof (induction ms arbitrary: x)
  case (Cons k ms)
  let ?x = "if con_main_thread con x k then con_suspend con k x else x"
  have x: "suspends ?x = (if con_main_thread con x k then (suspends x)(k := suspends x k + 1) else suspends x)"
    "con_main_thread con ?x = con_main_thread con x" "title ?x = title x"
    using assms by (simp_all add: thread_laws_def)
  have step: "hold con (k # ms) x = hold con ms ?x" by (simp add: hold_def)
  have "suspends x m \<le> suspends ?x m" "m = k \<and> con_main_thread con x m \<longrightarrow> suspends x m < suspends ?x m"
    by (simp_all add: x)
  moreover note Cons.IH [of ?x, unfolded x(2,3)]
  ultimately show ?case unfolding step by (cases "m = k") force+
qed (simp add: hold_def)

lemma install_all_laws:
  assumes "thread_laws con suspends title"
    and "install_all (con_redirects con) code entries (ovd, x) = (f, ovd', x')"
  shows "suspends x' = suspends x \<and> con_main_thread con x' = con_main_thread con x \<and> title x' = title x"
  using assms(2)
proof (induction entries arbitrary: ovd x)
  case (Cons e entries)
  obtain g ovd1 x1 where i: "install_override (con_redirects con) (sov_address e) (sov_handler e) (sov_context e) code ovd x
      = (g, ovd1, x1)" by (metis prod_cases3)
  then have "x1 = x \<or> x1 = snd (xr_install (con_redirects con) (sov_address e) x)"
    by (auto simp: install_override_def Let_def split: if_splits prod.splits)
  with assms(1) have "suspends x1 = suspends x \<and> con_main_thread con x1 = con_main_thread con x \<and> title x1 = title x"
    by (auto simp: thread_laws_def)
  with Cons i show ?case by (auto split: if_splits)
qed simp

lemma install_override_entry:
  assumes "install_override xr address handler context code ovd x = (f, ovd', x')"
  shows "\<not> fails f \<Longrightarrow> ovd_entries ovd address = None \<and>
      ovd_entries ovd' = (ovd_entries ovd)(address \<mapsto> \<lparr>ovr_address = address, ovr_handler = handler, ovr_context = context\<rparr>)"
  using assms
  by (auto simp: install_override_def table_emplace_def table_erase_def Let_def fun_eq_iff
      split: if_splits prod.splits)

lemma install_all_entries:
  assumes "install_all xr code entries (ovd, x) = (f, ovd', x')" "\<not> fails f"
  shows "(\<forall>a e. ovd_entries ovd a = Some e \<longrightarrow> ovd_entries ovd' a = Some e)
    \<and> (\<forall>e\<in>set entries. ovd_entries ovd' (sov_address e) =
        Some \<lparr>ovr_address = sov_address e, ovr_handler = sov_handler e, ovr_context = sov_context e\<rparr>)"
  using assms
proof (induction entries arbitrary: ovd x)
  case (Cons e entries)
  obtain g ovd1 x1 where i: "install_override xr (sov_address e) (sov_handler e) (sov_context e) code ovd x
      = (g, ovd1, x1)" by (metis prod_cases3)
  with Cons.prems have g: "\<not> fails g" and rest: "install_all xr code entries (ovd1, x1) = (f, ovd', x')"
    by (auto simp: fails_def split: if_splits)
  note entry = install_override_entry [OF i g]
  from Cons.IH [OF rest Cons.prems(2)] entry show ?case
    by (auto split: if_splits) (metis option.distinct(1))
qed simp

text \<open>The launch notification: a refused title keeps one suspension more than the launch will undo.\<close>

lemma on_launch_holds:
  assumes "thread_laws con suspends title" "\<forall>m. con_main_thread con x m \<longrightarrow> 0 < suspends x m"
    and "on_launch con (title x) (s, x) = (s', x')"
  shows "title x' = title x \<and> con_main_thread con x' = con_main_thread con x
    \<and> (fails (ses_activation_failure s') \<longrightarrow> (\<forall>m. con_main_thread con x m \<longrightarrow> 1 < suspends x' m))
    \<and> (\<not> fails (ses_activation_failure s') \<longrightarrow> title x = cfg_expected_title_id (ses_config s)
        \<and> (\<forall>e\<in>set (cfg_overrides (ses_config s)). find_override (ses_overrides s') (sov_address e) =
            Some \<lparr>ovr_address = sov_address e, ovr_handler = sov_handler e, ovr_context = sov_context e\<rparr>))"
proof -
  obtain f s1 x1 where a: "activate_title con (title x) (s, x) = (f, s1, x1)" by (metis prod_cases3)
  with assms(3) have s': "ses_activation_failure s' = f" "ses_overrides s' = ses_overrides s1"
    "x' = (if fails f then hold con (con_threads con x1) x1 else x1)"
    by (auto simp: on_launch_def hold_main_thread_def hold_def)
  from a have cases: "(fails f \<and> x1 = x) \<or> (\<exists>code ovd. title x = cfg_expected_title_id (ses_config s) \<and>
      install_all (con_redirects con) code (cfg_overrides (ses_config s)) (ses_overrides s, x) = (f, ovd, x1)
      \<and> ses_overrides s1 = ovd)"
    by (auto simp: activate_title_def Let_def split: if_splits option.splits prod.splits)
  then have x1: "suspends x1 = suspends x \<and> con_main_thread con x1 = con_main_thread con x \<and> title x1 = title x"
    using install_all_laws [OF assms(1)] by blast
  have all: "con_main_thread con x1 m \<Longrightarrow> m \<in> set (con_threads con x1)" for m
    using assms(1) by (simp add: thread_laws_def)
  show ?thesis
  proof (cases "fails f")
    case True
    have "1 < suspends (hold con (con_threads con x1) x1) m" if "con_main_thread con x m" for m
      using hold_laws [OF assms(1), of "con_threads con x1" x1 m] all [of m] assms(2) that x1
      by (metis One_nat_def Suc_leI le_less_trans)
    with True s' hold_laws [OF assms(1), of "con_threads con x1" x1] x1 show ?thesis by simp
  next
    case False
    with cases x1 s' show ?thesis by (auto simp: find_override_def dest!: install_all_entries)
  qed
qed

text \<open>C37: a launch that succeeds has verified the title ID and installed every configured override before
  the title ran; when the session refuses the title, \<open>Launch\<close> returns that refusal and every main
  thread is left suspended, so it never executes an instruction.
\<close>

theorem launch_runs_only_the_verified_title:
  fixes s :: "('h, 'c, 'k, 'x) session"
  assumes "thread_laws con suspends title" "launch_laws con suspends title"
    and "ses_emulator s" "\<not> fails (ses_activation_failure s)"
    and "session_launch con s x = (f, s', x')"
  shows "if fails (ses_activation_failure s')
    then f = ses_activation_failure s' \<and> (\<forall>m. con_main_thread con x' m \<longrightarrow> 0 < suspends x' m)
    else fails f \<or> title x' = cfg_expected_title_id (ses_config s)
      \<and> (\<forall>e\<in>set (cfg_overrides (ses_config s)). find_override (ses_overrides s') (sov_address e) =
          Some \<lparr>ovr_address = sov_address e, ovr_handler = sov_handler e, ovr_context = sov_context e\<rparr>)"
proof -
  obtain status s1 x1 where l: "con_launch con (cfg_title_path (ses_config s)) (on_launch con) (s, x) = (status, s1, x1)"
    by (metis prod_cases3)
  with assms(3,5) have s': "s' = s1\<lparr>ses_launched := True\<rparr>" "x' = x1"
    and f: "f = (if fails (ses_activation_failure s1) then ses_activation_failure s1
      else if con_xfailed con status then failure ModuleRegistrationFailed
        (''Xenia could not launch the title: status 0x'' @ hex_word status) else no_failure)"
    by (auto simp: session_launch_def Let_def split: if_splits)
  from assms(2) l consider "con_xfailed con status" "s1 = s"
    | x2 x3 where "\<forall>m. con_main_thread con x2 m \<longrightarrow> 0 < suspends x2 m" "on_launch con (title x2) (s, x2) = (s1, x3)"
        "title x1 = title x3" "con_main_thread con x1 = con_main_thread con x3"
        "\<forall>m. suspends x3 m \<le> suspends x1 m + 1"
    unfolding launch_laws_def by metis
  then show ?thesis
  proof cases
    case 1
    with f s' assms(4) show ?thesis by simp
  next
    case (2 x2 x3)
    note notified = on_launch_holds [OF assms(1) 2(1,2)]
    have "0 < suspends x1 m" if "fails (ses_activation_failure s1)" "con_main_thread con x1 m" for m
      using notified that 2(4,5) by (metis One_nat_def Suc_eq_plus1 less_le_trans not_gr_zero not_less_eq)
    with notified 2(3) f s' show ?thesis by simp
  qed
qed

lemma launched_session_ends_the_process:
  assumes "ses_emulator s" "session_launch con s x = (f, s', x')"
  shows "destroy_session con ls s' x' = Inl exit_failure_status"
proof -
  obtain status s1 x1 where "con_launch con (cfg_title_path (ses_config s)) (on_launch con) (s, x) = (status, s1, x1)"
    by (metis prod_cases3)
  with assms have "s' = s1\<lparr>ses_launched := True\<rparr>" by (auto simp: session_launch_def Let_def split: if_splits)
  then show ?thesis by (simp add: destroy_session_def)
qed

lemma launched_flag:
  assumes "ses_emulator s" "session_launch con s x = (f, s', x')"
  shows "ses_launched s'"
proof -
  obtain status s1 x1 where "con_launch con (cfg_title_path (ses_config s)) (on_launch con) (s, x) = (status, s1, x1)"
    by (metis prod_cases3)
  with assms have "s' = s1\<lparr>ses_launched := True\<rparr>" by (auto simp: session_launch_def Let_def split: if_splits)
  then show ?thesis by simp
qed

lemma launch_keeps:
  assumes "launch_laws con suspends title" "ses_emulator s" "session_launch con s x = (f, s', x')"
  shows "ses_owner s' = ses_owner s \<and> ses_launched s'"
proof -
  obtain status s1 x1 where l: "con_launch con (cfg_title_path (ses_config s)) (on_launch con) (s, x) = (status, s1, x1)"
    by (metis prod_cases3)
  with assms(2,3) have s': "s' = s1\<lparr>ses_launched := True\<rparr>"
    by (auto simp: session_launch_def Let_def split: if_splits)
  have notified: "ses_owner (fst (on_launch con t (s, y))) = ses_owner s" for t y
    by (simp add: on_launch_def activate_title_def Let_def split: prod.splits option.splits)
  from assms(1) l have "s1 = s \<or> (\<exists>t y x2. on_launch con t (s, y) = (s1, x2))"
    unfolding launch_laws_def by metis
  with notified have "ses_owner s1 = ses_owner s" by (metis fst_conv)
  with s' show ?thesis by simp
qed

section \<open>A small console\<close>

text \<open>
  One account, one main thread, a title with the ID it is told, and a launch that loads it with its
  thread suspended, notifies the session and resumes the thread.
\<close>

record toy_console_state =
  tcs_title :: u32
  tcs_suspends :: "nat \<Rightarrow> nat"
  tcs_signed_in :: bool

type_synonym toy_session = "(unit, unit, unit failure_sink, toy_console_state) session"

definition no_pad_capabilities :: xam_pad_capabilities where
  "no_pad_capabilities = \<lparr>cap_connected = False, cap_type = 0, cap_sub_type = 0, cap_flags = 0,
     cap_supported_gamepad = no_gamepad, cap_left_motor_speed = 0, cap_right_motor_speed = 0\<rparr>"

definition toy_console :: "(toy_session, unit, toy_console_state) console" where
  "toy_console = \<lparr>
     con_path_exists = \<lambda>path x. path = ''/games/title'',
     con_create_directories = \<lambda>path x. (None, x),
     con_gamertag_valid = \<lambda>tag. tag = ''Player'',
     con_start_logging = \<lambda>name path x. x, con_stop_logging = \<lambda>x. x,
     con_set_cvars = \<lambda>settings x. x, con_use_dummy_audio = \<lambda>x. x,
     con_create_emulator = \<lambda>storage content cache x. x, con_destroy_emulator = \<lambda>x. x,
     con_xfailed = \<lambda>status. status \<ge> 0x80000000,
     con_setup = \<lambda>window drivers s. (0, snd (drivers s)),
     con_gamepads = \<lambda>window x. (0x80000001, \<lparr>hdr_get_capabilities = \<lambda>u f x. ((1, no_pad_capabilities), x),
       hdr_get_state = \<lambda>u x. ((1, 0, no_gamepad), x), hdr_set_state = \<lambda>u v x. (1, x)\<rparr>, x),
     con_accounts = \<lambda>x. [0xE000000000000001],
     con_create_profile = \<lambda>tag x. (True, x), con_login = \<lambda>xuid x. x\<lparr>tcs_signed_in := True\<rparr>,
     con_signed_in = tcs_signed_in,
     con_launch = \<lambda>path notify (s, x).
       (case notify (tcs_title x) (s, x\<lparr>tcs_suspends := (\<lambda>_. 1)\<rparr>) of
         (s, x) \<Rightarrow> (0, s, x\<lparr>tcs_suspends := (\<lambda>m. tcs_suspends x m - 1)\<rparr>)),
     con_text_section = \<lambda>x. Some (0x82000000, 0x1000),
     con_threads = \<lambda>x. [7, 8], con_main_thread = \<lambda>x m. m = 7,
     con_suspend = \<lambda>m x. x\<lparr>tcs_suspends := (tcs_suspends x)(m := tcs_suspends x m + 1)\<rparr>,
     con_redirects = \<lparr>xr_install = \<lambda>a x. (True, x), xr_remove = \<lambda>a x. (True, x)\<rparr>,
     con_memory = \<lparr>xm_system_alloc = \<lambda>n x. (0, x), xm_system_free = \<lambda>a x. x, xm_lookup_heap = \<lambda>a. None,
       xm_read_only = 1, xm_read_write = 3, xm_range_access = \<lambda>h a b x. 0, xm_device_overlap = \<lambda>a b x. False,
       xm_load = \<lambda>a n x. replicate n 0, xm_store = \<lambda>a bs x. x\<rparr>,
     con_swap_count = \<lambda>x. None, con_swap_intervals = \<lambda>x. None, con_has_presenter = \<lambda>x. False,
     con_guest_output = \<lambda>x. None,
     con_translation_counts = \<lambda>x. \<lparr>trc_defined_functions = 0, trc_failed_functions = 0, trc_host_code_bytes = 0\<rparr>\<rparr>"

definition toy_config :: "(unit, unit, toy_console_state) session_config" where
  "toy_config = \<lparr>cfg_application_name = ''title'', cfg_title_path = ''/games/title'',
     cfg_storage_root = ''/home/player'', cfg_expected_title_id = 0x4D5307E6,
     cfg_player_gamertag = ''Player'', cfg_audio = Silent_Audio,
     cfg_input = \<lparr>src_state = Some (\<lambda>request context x. (no_pad, x)),
       src_capabilities = Some (\<lambda>request context x. (no_pad_capabilities, x)), src_context = ()\<rparr>,
     cfg_host_input = No_Host_Input, cfg_display_refresh_hz = 60, cfg_max_presents_per_second = 30,
     cfg_resolution_scale = 2, cfg_write_perf_map = False,
     cfg_overrides = [\<lparr>sov_address = 0x82000010, sov_handler = Some (), sov_context = None\<rparr>]\<rparr>"

lemma toy_console_laws:
  "thread_laws toy_console tcs_suspends tcs_title" "launch_laws toy_console tcs_suspends tcs_title"
proof -
  show "thread_laws toy_console tcs_suspends tcs_title"
    by (simp add: thread_laws_def toy_console_def)
  show "launch_laws toy_console tcs_suspends tcs_title"
    unfolding launch_laws_def
  proof (intro allI impI disjI2)
    fix path notify s x status s' x'
    assume l: "con_launch toy_console path notify (s, x) = (status, s', x')"
    let ?x1 = "x\<lparr>tcs_suspends := (\<lambda>_. 1)\<rparr>"
    obtain x2 where n: "notify (tcs_title x) (s, ?x1) = (s', x2)"
        "x' = x2\<lparr>tcs_suspends := (\<lambda>m. tcs_suspends x2 m - 1)\<rparr>"
      using l by (auto simp: toy_console_def split: prod.splits)
    have main: "con_main_thread toy_console = (\<lambda>x m. m = 7)" by (simp add: toy_console_def)
    have "(\<forall>m. con_main_thread toy_console ?x1 m \<longrightarrow> 0 < tcs_suspends ?x1 m)
        \<and> notify (tcs_title ?x1) (s, ?x1) = (s', x2) \<and> tcs_title x' = tcs_title x2
        \<and> con_main_thread toy_console x' = con_main_thread toy_console x2
        \<and> (\<forall>m. tcs_suspends x2 m \<le> tcs_suspends x' m + 1)"
      using n by (auto simp: main)
    then show "\<exists>x1 x2. (\<forall>m. con_main_thread toy_console x1 m \<longrightarrow> 0 < tcs_suspends x1 m)
        \<and> notify (tcs_title x1) (s, x1) = (s', x2) \<and> tcs_title x' = tcs_title x2
        \<and> con_main_thread toy_console x' = con_main_thread toy_console x2
        \<and> (\<forall>m. tcs_suspends x2 m \<le> tcs_suspends x' m + 1)" by blast
  qed
qed

definition toy_console_start :: "u32 \<Rightarrow> toy_console_state" where
  "toy_console_start title = \<lparr>tcs_title = title, tcs_suspends = (\<lambda>_. 0), tcs_signed_in = False\<rparr>"

lemma toy_console_fields [simp]:
  "con_create_directories toy_console path x = (None, x)" "con_start_logging toy_console name path x = x"
  "con_set_cvars toy_console settings x = x" "con_use_dummy_audio toy_console x = x"
  "con_create_emulator toy_console storage content cache x = x"
  "con_setup toy_console window drivers s = (0, snd (drivers s))"
  "con_xfailed toy_console status \<longleftrightarrow> status \<ge> 0x80000000"
  "con_accounts toy_console x = [0xE000000000000001]"
  "con_login toy_console xuid x = x\<lparr>tcs_signed_in := True\<rparr>" "con_signed_in toy_console = tcs_signed_in"
  by (simp_all add: toy_console_def)

lemma toy_console_composed:
  "\<exists>s x. compose_console toy_console False (new_session 1 toy_config) (toy_console_start title) = Some (no_failure, s, x)
     \<and> tcs_title x = title"
  by (simp add: compose_console_def start_emulator_def sign_in_local_player_def create_input_drivers_def
    Let_def new_session_def toy_config_def toy_console_start_def)

lemma toy_session_created:
  "\<exists>(s :: toy_session) x. create_offscreen toy_console 1 toy_config (leases_of None) (toy_console_start title) =
     Some (Inr (no_failure, leases_of (Some 1), Some s, x)) \<and> tcs_title x = title"
proof -
  have valid: "\<not> fails (validate_config toy_console toy_config (toy_console_start title))"
    unfolding validate_config_accepts by (simp add: config_ok_def toy_console_def toy_config_def is_absolute_def)
  obtain s :: toy_session and x where
    c: "compose_console toy_console False (new_session 1 toy_config) (toy_console_start title) = Some (no_failure, s, x)"
      "tcs_title x = title"
    using toy_console_composed by blast
  with valid have "session_initialize toy_console False (leases_of None) (new_session 1 toy_config) (toy_console_start title)
      = Some (no_failure, leases_of (Some 1), s, x)"
    by (simp add: session_initialize_def acquire_leases_of Let_def)
  with c(2) show ?thesis by (simp add: create_offscreen_def)
qed

lemma session_creation_witness:
  "\<exists>(s :: toy_session) x. create_offscreen toy_console 1 toy_config (leases_of None) (toy_console_start 0x4D5307E6) =
      Some (Inr (no_failure, leases_of (Some 1), Some s, x)) \<and> session_ready s"
proof -
  obtain s :: toy_session and x where created: "create_offscreen toy_console 1 toy_config (leases_of None) (toy_console_start 0x4D5307E6) =
     Some (Inr (no_failure, leases_of (Some 1), Some s, x))"
    using toy_session_created by blast
  from session_creation [OF this] created show ?thesis by auto
qed

text \<open>The loaded title has another ID than the session expects: it stays suspended.\<close>

lemma launch_runs_only_the_verified_title_witness:
  "let s = (new_session 1 toy_config)\<lparr>ses_emulator := True\<rparr> in
   case session_launch toy_console s (toy_console_start 0x12345678) of
     (f, s', x') \<Rightarrow> fails f \<and> 0 < tcs_suspends x' 7"
proof -
  let ?s = "(new_session 1 toy_config)\<lparr>ses_emulator := True\<rparr>"
  obtain f s' x' where l: "session_launch toy_console ?s (toy_console_start 0x12345678) = (f, s', x')" by (metis prod_cases3)
  have refused: "fails (ses_activation_failure s')"
    using l by (auto simp: session_launch_def toy_console_def on_launch_def activate_title_def toy_config_def
      toy_console_start_def Let_def split: prod.splits)
  have "con_main_thread toy_console x' 7" by (simp add: toy_console_def)
  with launch_runs_only_the_verified_title [OF toy_console_laws _ _ l] refused l show ?thesis
    by simp
qed

end
