(* ===== verification/System_Window.thy ===== *)
theory System_Window imports System_Session begin

text \<open>
  The windowed product: \<open>RunWindowedSystem\<close> of \<open>src/system/system_window_gtk.cpp\<close>. Two threads run: the
  caller's, which is the UI thread and pumps the GTK loop, and the emulator thread, which composes and
  launches the session. The step relation \<open>windowed_step\<close> interleaves them; the player closing the
  window and the title exiting are steps too. The window carries the listeners the function registers, so
  that it can be said which of them outlive their owners. The caller's \<open>on_launched\<close> is a step that is only
  counted.
\<close>

section \<open>Opening the window\<close>

definition k_initial_width :: u32 where "k_initial_width = 1280"
definition k_initial_height :: u32 where "k_initial_height = 720"
definition k_shortcut_z_order :: nat where "k_shortcut_z_order = 0"
definition k_desktop_input_z_order :: nat where "k_desktop_input_z_order = 1"

text \<open>
  The window with the listeners that point into the function's locals, and whether a presenter draws into
  it. \<open>gwd_desktop_input\<close> is whether the optional capture exists.
\<close>

datatype window_listener = Quit_On_Close | Desktop_Capture_Listener

datatype window_input_listener = Fullscreen_Shortcut | Desktop_Capture_Input

record game_window =
  gwd_listeners :: "window_listener list"
  gwd_input_listeners :: "(window_input_listener \<times> nat) list"
  gwd_desktop_input :: bool
  gwd_fullscreen :: bool
  gwd_open :: bool
  gwd_presenter :: bool

definition prepare_game_window :: "bool \<Rightarrow> bool \<Rightarrow> game_window" where
  "prepare_game_window desktop_input start_fullscreen =
     (let w = \<lparr>gwd_listeners = [Quit_On_Close], gwd_input_listeners = [(Fullscreen_Shortcut, k_shortcut_z_order)],
            gwd_desktop_input = False, gwd_fullscreen = False, gwd_open = False, gwd_presenter = False\<rparr>;
          w = (if desktop_input
            then w\<lparr>gwd_desktop_input := True, gwd_listeners := gwd_listeners w @ [Desktop_Capture_Listener],
              gwd_input_listeners := gwd_input_listeners w @ [(Desktop_Capture_Input, k_desktop_input_z_order)]\<rparr>
            else w)
      in if start_fullscreen then w\<lparr>gwd_fullscreen := True\<rparr> else w)"

text \<open>
  What the platform answers, in the order it is asked: a display, a window, and that it opens. The result
  is a failure with the window the function leaves behind, or the open window.
\<close>

definition open_game_window ::
  "bool \<Rightarrow> bool \<Rightarrow> bool \<Rightarrow> bool \<Rightarrow> bool \<Rightarrow> runtime_failure \<times> game_window option" where
  "open_game_window display created desktop_input start_fullscreen opened =
     (if \<not> display
      then (failure BackendInitializationFailed ''GTK could not open a display for the game window'', None)
      else if \<not> created
      then (failure BackendInitializationFailed ''the platform refused to create the game window'', None)
      else (let w = prepare_game_window desktop_input start_fullscreen in
        if \<not> opened
        then (failure BackendInitializationFailed ''the platform refused to open the game window'', Some w)
        else (no_failure, Some (w\<lparr>gwd_open := True\<rparr>))))"

definition release_game_window :: "game_window \<Rightarrow> game_window" where
  "release_game_window w =
     (let w = w\<lparr>gwd_presenter := False\<rparr> in
      if gwd_desktop_input w
      then w\<lparr>gwd_input_listeners := filter (\<lambda>l. fst l \<noteq> Desktop_Capture_Input) (gwd_input_listeners w),
             gwd_listeners := filter (\<lambda>l. l \<noteq> Desktop_Capture_Listener) (gwd_listeners w)\<rparr>
      else w)"

text \<open>
  The window no longer points at the capture, nor at a presenter of the session: what the capture asks for
  before either is destroyed.
\<close>

definition capture_removed :: "game_window \<Rightarrow> bool" where
  "capture_removed w \<longleftrightarrow> Desktop_Capture_Listener \<notin> set (gwd_listeners w)
     \<and> Desktop_Capture_Input \<notin> fst ` set (gwd_input_listeners w) \<and> \<not> gwd_presenter w"

definition listeners_ok :: "game_window \<Rightarrow> bool" where
  "listeners_ok w \<longleftrightarrow> gwd_desktop_input w \<or> Desktop_Capture_Listener \<notin> set (gwd_listeners w)
     \<and> Desktop_Capture_Input \<notin> fst ` set (gwd_input_listeners w)"

lemma release_removes_capture: "listeners_ok w \<Longrightarrow> capture_removed (release_game_window w)"
  by (auto simp: listeners_ok_def capture_removed_def release_game_window_def Let_def)

lemma opened_listeners_ok:
  "open_game_window display created desktop_input start_fullscreen opened = (f, Some w) \<Longrightarrow> listeners_ok w"
  by (auto simp: open_game_window_def prepare_game_window_def listeners_ok_def Let_def split: if_splits)

lemma released_listeners_ok: "listeners_ok w \<Longrightarrow> listeners_ok (release_game_window w)"
  by (auto simp: listeners_ok_def release_game_window_def Let_def)

lemma presented_listeners_ok: "listeners_ok (w\<lparr>gwd_presenter := p\<rparr>) = listeners_ok w"
  by (simp add: listeners_ok_def)

text \<open>A window that does not open is left with the capture still registered.\<close>

lemma refused_window_keeps_the_capture:
  "case open_game_window True True True fullscreen False of (f, Some w) \<Rightarrow> fails f \<and> \<not> capture_removed w
     | (f, None) \<Rightarrow> False"
  by (simp add: open_game_window_def prepare_game_window_def capture_removed_def Let_def)

text \<open>The fullscreen shortcut: whether the key was handled, and whether the window is fullscreen after it.\<close>

definition k_vk_return :: u16 where "k_vk_return = 0x0D"
definition k_vk_f11 :: u16 where "k_vk_f11 = 0x7A"

definition fullscreen_key_down :: "u16 \<Rightarrow> bool \<Rightarrow> bool \<Rightarrow> bool \<times> bool" where
  "fullscreen_key_down key alt_pressed fullscreen =
     (let alt_enter = (key = k_vk_return \<and> alt_pressed) in
      if key = k_vk_f11 \<or> alt_enter then (True, \<not> fullscreen) else (False, fullscreen))"

section \<open>The two threads\<close>

datatype ui_phase = Looping | Loop_Ended | Joining | Returned runtime_failure | Process_Ended int

datatype emulator_phase = Starting | Composed | Launching | Announcing | Running | Finished

text \<open>
  \<open>wnd_quit\<close>: the UI loop was asked to quit. \<open>wnd_launched\<close> is the local flag of the function.
  \<open>wnd_callback\<close> says whether the caller gave an \<open>on_launched\<close>, \<open>wnd_announced\<close> how often it was called.
\<close>

record ('h, 'c, 'k, 'x) windowed =
  wnd_ui :: ui_phase
  wnd_emulator :: emulator_phase
  wnd_quit :: bool
  wnd_launched :: bool
  wnd_failure :: runtime_failure
  wnd_session :: "('h, 'c, 'k, 'x) session"
  wnd_leases :: leases
  wnd_console :: 'x
  wnd_window :: game_window
  wnd_callback :: bool
  wnd_announced :: nat

definition run_windowed ::
  "game_window \<Rightarrow> bool \<Rightarrow> nat \<Rightarrow> ('h, 'c, 'x) session_config \<Rightarrow> leases \<Rightarrow> 'x \<Rightarrow> ('h, 'c, 'k, 'x) windowed" where
  "run_windowed window callback owner cfg ls x = \<lparr>wnd_ui = Looping, wnd_emulator = Starting, wnd_quit = False,
     wnd_launched = False, wnd_failure = no_failure, wnd_session = new_session owner cfg,
     wnd_leases = ls, wnd_console = x, wnd_window = window,
     wnd_callback = callback, wnd_announced = 0\<rparr>"

primrec over :: "ui_phase \<Rightarrow> bool" where
  "over Looping = False"
| "over Loop_Ended = False"
| "over Joining = False"
| "over (Returned f) = True"
| "over (Process_Ended status) = True"

text \<open>The emulator thread records a failure for the caller and ends the UI loop.\<close>

definition emulator_failed :: "runtime_failure \<Rightarrow> ('h, 'c, 'k, 'x) windowed \<Rightarrow> ('h, 'c, 'k, 'x) windowed" where
  "emulator_failed f w = w\<lparr>wnd_failure := f, wnd_emulator := Finished, wnd_quit := True\<rparr>"

text \<open>The end of the function: the session goes out of scope, after the result was taken.\<close>

definition leave_function ::
  "('s, 'c, 'x) console \<Rightarrow> ('h, 'c, 'k, 'x) windowed \<Rightarrow> ('h, 'c, 'k, 'x) windowed" where
  "leave_function con w =
     (let w = w\<lparr>wnd_window := release_game_window (wnd_window w)\<rparr> in
      case destroy_session con (wnd_leases w) (wnd_session w) (wnd_console w) of
        Inl status \<Rightarrow> w\<lparr>wnd_ui := Process_Ended status\<rparr>
      | Inr (ls, x) \<Rightarrow> w\<lparr>wnd_ui := Returned (wnd_failure w), wnd_leases := ls, wnd_console := x\<rparr>)"

definition exit_success_status :: int where "exit_success_status = 0"

datatype windowed_event =
    Initialize_Session | Set_Presenter | Launch_Title | Title_Exits
  | Announce_Launch | Close_Window | End_Loop | Check_Launched | Join_Emulator

text \<open>
  Composing the console and setting the presenter wait for the UI thread, which runs what it is asked while
  its loop does; launching may too. Whether such a call still returns once the loop is not pumped any more is
  Xenia's to say: \<open>late\<close> is the answer for each step, a parameter.
\<close>

definition ui_answers :: "(windowed_event \<Rightarrow> bool) \<Rightarrow> windowed_event \<Rightarrow> ui_phase \<Rightarrow> bool" where
  "ui_answers late e ui \<longleftrightarrow> ui = Looping \<or> \<not> over ui \<and> late e"

lemma ui_answers_not_over: "ui_answers late e ui \<Longrightarrow> \<not> over ui"
  by (auto simp: ui_answers_def)

inductive windowed_step ::
  "(('h, 'c, 'w failure_sink, 'x) session, 'c, 'x) console \<Rightarrow> (windowed_event \<Rightarrow> bool) \<Rightarrow> ('h, 'c, 'w failure_sink, 'x) windowed \<Rightarrow>
   windowed_event \<Rightarrow> ('h, 'c, 'w failure_sink, 'x) windowed \<Rightarrow> bool" for con late where
  Initialize: "wnd_emulator w = Starting \<Longrightarrow> ui_answers late Initialize_Session (wnd_ui w) \<Longrightarrow>
    session_initialize con True (wnd_leases w) (wnd_session w) (wnd_console w) = Some (f, ls, s, x) \<Longrightarrow>
    w1 = w\<lparr>wnd_leases := ls, wnd_session := s, wnd_console := x\<rparr> \<Longrightarrow>
    w' = (if fails f then emulator_failed f w1 else w1\<lparr>wnd_emulator := Composed\<rparr>) \<Longrightarrow>
    windowed_step con late w Initialize_Session w'"
| Present: "wnd_emulator w = Composed \<Longrightarrow> ui_answers late Set_Presenter (wnd_ui w) \<Longrightarrow>
    windowed_step con late w Set_Presenter
      (w\<lparr>wnd_emulator := Launching, wnd_window := (wnd_window w)\<lparr>gwd_presenter := True\<rparr>\<rparr>)"
| Launch: "wnd_emulator w = Launching \<Longrightarrow> ui_answers late Launch_Title (wnd_ui w) \<Longrightarrow>
    session_launch con (wnd_session w) (wnd_console w) = (f, s, x) \<Longrightarrow>
    w1 = w\<lparr>wnd_session := s, wnd_console := x\<rparr> \<Longrightarrow>
    w' = (if fails f then emulator_failed f w1 else w1\<lparr>wnd_emulator := Announcing, wnd_launched := True\<rparr>) \<Longrightarrow>
    windowed_step con late w Launch_Title w'"
| Announce: "wnd_emulator w = Announcing \<Longrightarrow> \<not> over (wnd_ui w) \<Longrightarrow>
    windowed_step con late w Announce_Launch (w\<lparr>wnd_emulator := Running,
      wnd_announced := wnd_announced w + (if wnd_callback w then 1 else 0)\<rparr>)"
| Exit: "wnd_emulator w = Running \<Longrightarrow> \<not> over (wnd_ui w) \<Longrightarrow>
    windowed_step con late w Title_Exits (w\<lparr>wnd_emulator := Finished, wnd_quit := True\<rparr>)"
| Close: "wnd_ui w = Looping \<Longrightarrow> \<not> wnd_quit w \<Longrightarrow>
    windowed_step con late w Close_Window (w\<lparr>wnd_quit := True\<rparr>)"
| Quit: "wnd_ui w = Looping \<Longrightarrow> wnd_quit w \<Longrightarrow>
    windowed_step con late w End_Loop (w\<lparr>wnd_ui := Loop_Ended\<rparr>)"
| Check: "wnd_ui w = Loop_Ended \<Longrightarrow>
    windowed_step con late w Check_Launched
      (w\<lparr>wnd_ui := if wnd_launched w then Process_Ended exit_success_status else Joining\<rparr>)"
| Join: "wnd_ui w = Joining \<Longrightarrow> wnd_emulator w = Finished \<Longrightarrow>
    windowed_step con late w Join_Emulator (leave_function con w)"

inductive windowed_run ::
  "(('h, 'c, 'w failure_sink, 'x) session, 'c, 'x) console \<Rightarrow> (windowed_event \<Rightarrow> bool) \<Rightarrow> ('h, 'c, 'w failure_sink, 'x) windowed \<Rightarrow>
   windowed_event list \<Rightarrow> ('h, 'c, 'w failure_sink, 'x) windowed \<Rightarrow> bool" for con late where
  Start: "windowed_run con late w [] w"
| Step: "windowed_run con late w es w1 \<Longrightarrow> windowed_step con late w1 e w2 \<Longrightarrow> windowed_run con late w (es @ [e]) w2"

inductive_cases initialize_stepE: "windowed_step con late w Initialize_Session w'"
inductive_cases present_stepE: "windowed_step con late w Set_Presenter w'"
inductive_cases launch_stepE: "windowed_step con late w Launch_Title w'"
inductive_cases announce_stepE: "windowed_step con late w Announce_Launch w'"
inductive_cases exit_stepE: "windowed_step con late w Title_Exits w'"
inductive_cases close_stepE: "windowed_step con late w Close_Window w'"
inductive_cases quit_stepE: "windowed_step con late w End_Loop w'"
inductive_cases check_stepE: "windowed_step con late w Check_Launched w'"
inductive_cases join_stepE: "windowed_step con late w Join_Emulator w'"

section \<open>What holds in every history\<close>

text \<open>
  Where the emulator thread is, against the session and the lease: the session is composed exactly from
  \<open>Composed\<close> on and has been launched exactly after \<open>Launch\<close> returned; the flag says that it succeeded.
\<close>

definition windowed_ok ::
  "nat \<Rightarrow> ('h, 'c, 'x) session_config \<Rightarrow> nat option \<Rightarrow> ('h, 'c, 'k, 'x) windowed \<Rightarrow> bool" where
  "windowed_ok owner cfg h w \<longleftrightarrow>
     ses_owner (wnd_session w) = owner
   \<and> (case wnd_ui w of
        Returned f \<Rightarrow> wnd_leases w = leases_of h \<and> \<not> ses_launched (wnd_session w)
          \<and> wnd_emulator w = Finished \<and> f = wnd_failure w \<and> fails f
      | Process_Ended status \<Rightarrow> ses_launched (wnd_session w)
          \<and> (wnd_launched w \<and> status = exit_success_status \<or> status = exit_failure_status)
      | _ \<Rightarrow> wnd_leases w \<in> {leases_of h, leases_of (if h = None then Some owner else h)})
   \<and> (case wnd_emulator w of
        Starting \<Rightarrow> \<not> wnd_launched w \<and> wnd_session w = new_session owner cfg \<and> wnd_leases w = leases_of h
      | Composed \<Rightarrow> \<not> wnd_launched w \<and> \<not> ses_launched (wnd_session w) \<and> ses_emulator (wnd_session w)
      | Launching \<Rightarrow> \<not> wnd_launched w \<and> \<not> ses_launched (wnd_session w) \<and> ses_emulator (wnd_session w)
      | Announcing \<Rightarrow> wnd_launched w \<and> ses_launched (wnd_session w)
      | Running \<Rightarrow> wnd_launched w \<and> ses_launched (wnd_session w)
      | Finished \<Rightarrow> (if wnd_launched w then ses_launched (wnd_session w) else fails (wnd_failure w)))"

lemma leave_function_ok:
  assumes "windowed_ok owner cfg h w" "wnd_ui w = Joining" "wnd_emulator w = Finished" "h \<noteq> Some owner"
  shows "windowed_ok owner cfg h (leave_function con w)"
proof (cases "ses_launched (wnd_session w)")
  case True
  with assms show ?thesis
    by (simp add: windowed_ok_def leave_function_def Let_def destroy_session_def split: if_splits)
next
  case False
  from assms have "release_lease owner (wnd_leases w) = leases_of h"
    by (auto simp: windowed_ok_def release_leases_of split: if_splits)
  with assms False show ?thesis
    by (auto simp: windowed_ok_def leave_function_def destroy_session_def Let_def split: if_splits)
qed

lemma windowed_ok_step:
  assumes "launch_laws con suspends title" "h \<noteq> Some owner"
    and "windowed_ok owner cfg h w" "windowed_step con late w e w'"
  shows "windowed_ok owner cfg h w'"
proof (cases e)
  case Initialize_Session
  with assms(4) obtain f ls s x where i: "session_initialize con True (wnd_leases w) (wnd_session w) (wnd_console w)
      = Some (f, ls, s, x)" and w: "wnd_emulator w = Starting" "\<not> over (wnd_ui w)"
      and w': "w' = (if fails f then emulator_failed f (w\<lparr>wnd_leases := ls, wnd_session := s, wnd_console := x\<rparr>)
        else (w\<lparr>wnd_leases := ls, wnd_session := s, wnd_console := x\<rparr>)\<lparr>wnd_emulator := Composed\<rparr>)"
    by (auto dest: ui_answers_not_over elim!: initialize_stepE)
  from assms(3) w have "wnd_leases w = leases_of h" "wnd_session w = new_session owner cfg" "\<not> wnd_launched w"
    by (simp_all add: windowed_ok_def)
  with i have "session_initialize con True (leases_of h) (new_session owner cfg) (wnd_console w) = Some (f, ls, s, x)"
    by simp
  from initialized [OF this assms(2)] \<open>\<not> wnd_launched w\<close> w w' show ?thesis
    by (cases "wnd_ui w") (auto simp: windowed_ok_def emulator_failed_def session_ready_def)
next
  case Launch_Title
  with assms(4) obtain f s x where l: "session_launch con (wnd_session w) (wnd_console w) = (f, s, x)"
      and w: "wnd_emulator w = Launching" "\<not> over (wnd_ui w)"
      and w': "w' = (if fails f then emulator_failed f (w\<lparr>wnd_session := s, wnd_console := x\<rparr>)
        else (w\<lparr>wnd_session := s, wnd_console := x\<rparr>)\<lparr>wnd_emulator := Announcing, wnd_launched := True\<rparr>)"
    by (auto dest: ui_answers_not_over elim!: launch_stepE)
  from assms(3) w have "ses_emulator (wnd_session w)" by (simp add: windowed_ok_def)
  from launch_keeps [OF assms(1) this l] assms(3) w w' show ?thesis
    by (cases "wnd_ui w") (auto simp: windowed_ok_def emulator_failed_def)
next
  case Join_Emulator
  with assms leave_function_ok show ?thesis by (auto elim!: join_stepE)
next
  case Set_Presenter
  with assms(3,4) show ?thesis by (cases "wnd_ui w") (auto simp: windowed_ok_def ui_answers_def elim!: present_stepE)
next
  case Title_Exits
  with assms(3,4) show ?thesis by (cases "wnd_ui w") (auto simp: windowed_ok_def elim!: exit_stepE)
next
  case Announce_Launch
  with assms(3,4) show ?thesis
    by (cases "wnd_ui w") (auto simp: windowed_ok_def elim!: announce_stepE)
next
  case Close_Window
  with assms(3,4) show ?thesis
    by (cases "wnd_emulator w") (auto simp: windowed_ok_def elim!: close_stepE)
next
  case End_Loop
  with assms(3,4) show ?thesis
    by (cases "wnd_emulator w") (auto simp: windowed_ok_def elim!: quit_stepE)
next
  case Check_Launched
  with assms(3,4) show ?thesis
    by (cases "wnd_emulator w") (auto simp: windowed_ok_def elim!: check_stepE)
qed

lemma windowed_ok_run:
  assumes "windowed_run con late w0 es w" "launch_laws con suspends title" "h \<noteq> Some owner"
    and "w0 = run_windowed window callback owner cfg (leases_of h) x"
  shows "windowed_ok owner cfg h w"
  using assms(1,4)
proof (induction rule: windowed_run.induct)
  case (Start w)
  then show ?case by (simp add: run_windowed_def windowed_ok_def)
next
  case (Step w es w1 e w2)
  then show ?case using windowed_ok_step [OF assms(2,3)] by blast
qed

text \<open>
  The capture is registered only while it exists, and the function that returned has removed it. The
  caller's \<open>on_launched\<close> is called once, and only after the launch succeeded.
\<close>

definition window_ok :: "('h, 'c, 'k, 'x) windowed \<Rightarrow> bool" where
  "window_ok w \<longleftrightarrow> listeners_ok (wnd_window w)
     \<and> (\<forall>f. wnd_ui w = Returned f \<longrightarrow> capture_removed (wnd_window w))
     \<and> (wnd_emulator w = Announcing \<longrightarrow> wnd_launched w)
     \<and> wnd_announced w \<le> (if wnd_launched w \<and> wnd_emulator w \<in> {Running, Finished} \<and> wnd_callback w then 1 else 0)"

lemma window_ok_step:
  assumes "windowed_step con late w e w'" "window_ok w"
  shows "window_ok w'"
  using assms
proof (cases rule: windowed_step.cases)
  case Join
  with assms(2) have "listeners_ok (wnd_window w)" by (simp add: window_ok_def)
  then have "listeners_ok (release_game_window (wnd_window w))" "capture_removed (release_game_window (wnd_window w))"
    by (simp_all add: released_listeners_ok release_removes_capture)
  with Join assms(2) show ?thesis
    by (auto simp: window_ok_def leave_function_def Let_def split: sum.splits prod.splits if_splits)
qed (auto simp: window_ok_def emulator_failed_def presented_listeners_ok ui_answers_def)

lemma window_ok_run:
  "windowed_run con late w0 es w \<Longrightarrow> window_ok w0 \<Longrightarrow> window_ok w"
  by (induction rule: windowed_run.induct) (auto intro: window_ok_step)

lemma window_announced: "window_ok w \<Longrightarrow> wnd_announced w \<le> (if wnd_launched w then 1 else 0)"
  by (auto simp: window_ok_def split: if_splits)

lemma returned_unlaunched:
  "windowed_ok owner cfg h w \<Longrightarrow> wnd_ui w = Returned f \<Longrightarrow> \<not> wnd_launched w"
  by (auto simp: windowed_ok_def)

lemma window_returned: "window_ok w \<Longrightarrow> wnd_ui w = Returned f \<Longrightarrow> capture_removed (wnd_window w)"
  by (simp add: window_ok_def)

text \<open>What the function leaves behind and reports, in every history after the window opened.\<close>

definition windowed_outcome :: "nat option \<Rightarrow> ('h, 'c, 'k, 'x) windowed \<Rightarrow> bool" where
  "windowed_outcome h w \<longleftrightarrow> (case wnd_ui w of
      Returned f \<Rightarrow> fails f \<and> \<not> ses_launched (wnd_session w) \<and> wnd_leases w = leases_of h
        \<and> capture_removed (wnd_window w) \<and> wnd_announced w = 0
    | Process_Ended status \<Rightarrow> ses_launched (wnd_session w) \<and> (status = exit_success_status \<longrightarrow> wnd_launched w)
        \<and> wnd_announced w \<le> 1
    | _ \<Rightarrow> wnd_announced w \<le> (if wnd_launched w then 1 else 0))"

lemma windowed_run_outcome:
  assumes "windowed_run con late (run_windowed window callback owner cfg (leases_of h) x) es w"
    and "listeners_ok window" "launch_laws con suspends title" "h \<noteq> Some owner"
  shows "windowed_outcome h w"
proof -
  have "window_ok (run_windowed window callback owner cfg (leases_of h) x :: ('a, 'b, 'c failure_sink, 'd) windowed)"
    using assms(2) by (simp add: window_ok_def run_windowed_def)
  then have k: "window_ok w" by (rule window_ok_run [OF assms(1)])
  have o: "windowed_ok owner cfg h w" by (rule windowed_ok_run [OF assms(1,3,4) refl])
  show ?thesis
  proof (cases "wnd_ui w")
    case (Returned f)
    with o have "fails f \<and> \<not> ses_launched (wnd_session w) \<and> wnd_leases w = leases_of h"
      by (auto simp: windowed_ok_def)
    with Returned window_returned [OF k] returned_unlaunched [OF o] window_announced [OF k] show ?thesis
      by (simp add: windowed_outcome_def)
  next
    case (Process_Ended status)
    with o have "ses_launched (wnd_session w) \<and> (status = exit_success_status \<longrightarrow> wnd_launched w)"
      by (auto simp: windowed_ok_def exit_success_status_def exit_failure_status_def)
    with Process_Ended window_announced [OF k] show ?thesis by (simp add: windowed_outcome_def split: if_splits)
  qed (use window_announced [OF k] in \<open>simp_all add: windowed_outcome_def\<close>)
qed

text \<open>C38: the function returns only failures. When the platform refuses the display, the window or its opening
  it returns one at once, and a window that was created but not opened keeps the capture among its
  listeners exactly when the title asked for desktop input. Once the window is open, whatever the two
  threads, the player and the title do, the function returns only when the session could not start: the
  result is a failure, the title was never launched, the lease is as it was, and the window no longer
  points at the capture or the session's presenter. The process ends with success only when the title was
  launched, and the caller is told of a launch at most once, only after it succeeded.
\<close>

theorem windowed_returns_only_failures:
  assumes "open_game_window display created desktop_input start_fullscreen opened = (g, win)"
    and "launch_laws con suspends title" "h \<noteq> Some owner"
  shows "if display \<and> created \<and> opened
    then \<not> fails g \<and> (case win of None \<Rightarrow> False | Some window \<Rightarrow>
      \<forall>es w. windowed_run con late (run_windowed window callback owner cfg (leases_of h) x) es w \<longrightarrow> windowed_outcome h w)
    else fails g \<and> (case win of None \<Rightarrow> \<not> (display \<and> created) | Some window \<Rightarrow> capture_removed window \<longleftrightarrow> \<not> desktop_input)"
proof (cases "display \<and> created \<and> opened")
  case True
  with assms(1) obtain window where "win = Some window" "\<not> fails g"
    by (auto simp: open_game_window_def fails_def no_failure_def Let_def)
  moreover from this assms(1) have "listeners_ok window" by (simp add: opened_listeners_ok)
  ultimately show ?thesis using True windowed_run_outcome [OF _ _ assms(2,3)] by auto
next
  case False
  with assms(1) show ?thesis
    by (auto simp: open_game_window_def prepare_game_window_def capture_removed_def fails_def failure_def Let_def split: if_splits)
qed

section \<open>Every history ends\<close>

primrec emulator_rank :: "emulator_phase \<Rightarrow> nat" where
  "emulator_rank Starting = 5"
| "emulator_rank Composed = 4"
| "emulator_rank Launching = 3"
| "emulator_rank Announcing = 2"
| "emulator_rank Running = 1"
| "emulator_rank Finished = 0"

primrec ui_rank :: "ui_phase \<Rightarrow> nat" where
  "ui_rank Looping = 3"
| "ui_rank Loop_Ended = 2"
| "ui_rank Joining = 1"
| "ui_rank (Returned f) = 0"
| "ui_rank (Process_Ended status) = 0"

definition windowed_rank :: "('h, 'c, 'k, 'x) windowed \<Rightarrow> nat" where
  "windowed_rank w = emulator_rank (wnd_emulator w) + ui_rank (wnd_ui w) + (if wnd_quit w then 0 else 1)"

lemma leave_function_ui:
  "over (wnd_ui (leave_function con w)) \<and> wnd_emulator (leave_function con w) = wnd_emulator w
    \<and> wnd_quit (leave_function con w) = wnd_quit w"
  by (simp add: leave_function_def Let_def split: sum.splits prod.splits)

lemma over_rank: "over u \<longleftrightarrow> ui_rank u = 0"
  by (cases u) simp_all

lemma step_rank:
  assumes "windowed_step con late w e w'"
  shows "windowed_rank w' < windowed_rank w"
  using assms
proof (cases rule: windowed_step.cases)
  case Join
  then show ?thesis using leave_function_ui [of con w]
    by (simp add: windowed_rank_def over_rank)
qed (auto simp: windowed_rank_def emulator_failed_def)

lemma run_rank: "windowed_run con late w es w' \<Longrightarrow> length es + windowed_rank w' \<le> windowed_rank w"
proof (induction rule: windowed_run.induct)
  case (Step w es w1 e w2)
  with step_rank [OF Step.hyps(2)] show ?case by simp
qed simp

text \<open>The first account is read only when there is one: what the sign-in relies on.\<close>

definition account_laws :: "('s, 'c, 'x) console \<Rightarrow> bool" where
  "account_laws con \<longleftrightarrow> (\<forall>tag x. fst (con_create_profile con tag x)
     \<longrightarrow> con_accounts con (snd (con_create_profile con tag x)) \<noteq> [])"

lemma sign_in_defined:
  assumes "account_laws con"
  shows "sign_in_local_player con cfg x \<noteq> None"
proof -
  obtain created y where c: "(if con_accounts con x = [] then con_create_profile con (cfg_player_gamertag cfg) x
      else (True, x)) = (created, y)" by fastforce
  have "con_accounts con y \<noteq> []" if created
    using c that assms by (auto simp: account_laws_def split: if_splits) (metis fst_conv snd_conv)
  with c show ?thesis by (auto simp: sign_in_local_player_def Let_def split: list.splits)
qed

lemma compose_defined:
  assumes "account_laws con"
  shows "compose_console con window s x \<noteq> None"
proof -
  obtain status s1 x1 where start: "start_emulator con window s x = (status, s1, x1)" by (metis prod_cases3)
  obtain f y where "sign_in_local_player con (ses_config s1) x1 = Some (f, y)"
    using sign_in_defined [OF assms, of "ses_config s1" x1] by auto
  with start show ?thesis by (simp add: compose_console_def)
qed

lemma initialize_defined:
  assumes "account_laws con"
  shows "session_initialize con window ls s x \<noteq> None"
  using compose_defined [OF assms]
  by (auto simp: session_initialize_def Let_def split: prod.splits option.splits)

text \<open>The steps of the code: the player decides when to close the window, and the title when to exit.\<close>

definition code_step :: "windowed_event \<Rightarrow> bool" where
  "code_step e \<longleftrightarrow> e \<noteq> Close_Window \<and> e \<noteq> Title_Exits"

definition title_runs :: "('h, 'c, 'k, 'x) windowed \<Rightarrow> bool" where
  "title_runs w \<longleftrightarrow> wnd_emulator w = Running \<and> (wnd_ui w = Looping \<and> \<not> wnd_quit w \<or> wnd_ui w = Joining)"

text \<open>The UI thread joins an emulator thread that waits for the UI thread.\<close>

definition deadlocked :: "(windowed_event \<Rightarrow> bool) \<Rightarrow> ('h, 'c, 'k, 'x) windowed \<Rightarrow> bool" where
  "deadlocked late w \<longleftrightarrow> wnd_ui w = Joining \<and> (case wnd_emulator w of
     Starting \<Rightarrow> \<not> late Initialize_Session | Composed \<Rightarrow> \<not> late Set_Presenter | Launching \<Rightarrow> \<not> late Launch_Title
   | _ \<Rightarrow> False)"

lemma emulator_progress:
  assumes "account_laws con"
    and "case wnd_emulator w of Starting \<Rightarrow> ui_answers late Initialize_Session (wnd_ui w)
      | Composed \<Rightarrow> ui_answers late Set_Presenter (wnd_ui w) | Launching \<Rightarrow> ui_answers late Launch_Title (wnd_ui w)
      | Announcing \<Rightarrow> \<not> over (wnd_ui w) | _ \<Rightarrow> False"
  shows "\<exists>e w'. code_step e \<and> windowed_step con late w e w'"
proof (cases "wnd_emulator w")
  case Starting
  with assms(2) have a: "ui_answers late Initialize_Session (wnd_ui w)" by simp
  obtain f ls s x where "session_initialize con True (wnd_leases w) (wnd_session w) (wnd_console w) = Some (f, ls, s, x)"
    using initialize_defined [OF assms(1)] by (metis option.exhaust prod_cases4)
  from windowed_step.Initialize [OF Starting a this refl refl] show ?thesis
    by (auto simp: code_step_def intro!: exI [where x = Initialize_Session])
next
  case Composed
  with assms(2) have a: "ui_answers late Set_Presenter (wnd_ui w)" by simp
  from windowed_step.Present [OF Composed this, of con] show ?thesis
    by (auto simp: code_step_def intro!: exI [where x = Set_Presenter])
next
  case Launching
  with assms(2) have a: "ui_answers late Launch_Title (wnd_ui w)" by simp
  obtain f s x where "session_launch con (wnd_session w) (wnd_console w) = (f, s, x)" by (metis prod_cases3)
  from windowed_step.Launch [OF Launching a this refl refl] show ?thesis
    by (auto simp: code_step_def intro!: exI [where x = Launch_Title])
next
  case Announcing
  with assms(2) have "\<not> over (wnd_ui w)" by simp
  from windowed_step.Announce [OF Announcing this, of con late] show ?thesis
    by (auto simp: code_step_def intro!: exI [where x = Announce_Launch])
qed (use assms(2) in simp_all)

lemma ui_progress:
  assumes "wnd_ui w = Looping \<and> wnd_quit w \<or> wnd_ui w = Loop_Ended \<or> wnd_ui w = Joining \<and> wnd_emulator w = Finished"
  shows "\<exists>e w'. code_step e \<and> windowed_step con late w e w'"
  using assms
proof (elim disjE conjE)
  assume "wnd_ui w = Looping" "wnd_quit w"
  from windowed_step.Quit [OF this, of con late] show ?thesis
    by (auto simp: code_step_def intro!: exI [where x = End_Loop])
next
  assume "wnd_ui w = Loop_Ended"
  from windowed_step.Check [OF this, of con late] show ?thesis
    by (auto simp: code_step_def intro!: exI [where x = Check_Launched])
next
  assume "wnd_ui w = Joining" "wnd_emulator w = Finished"
  from windowed_step.Join [OF this, of con late] show ?thesis
    by (auto simp: code_step_def intro!: exI [where x = Join_Emulator])
qed

lemma windowed_progress:
  assumes "account_laws con" "wnd_emulator w = Finished \<Longrightarrow> wnd_quit w"
    and "\<nexists>e w'. code_step e \<and> windowed_step con late w e w'"
  shows "over (wnd_ui w) \<or> title_runs w \<or> deadlocked late w"
proof (cases "wnd_ui w")
  case Looping
  with assms(3) ui_progress [where w = w and con = con and late = late] have "\<not> wnd_quit w" by blast
  moreover from Looping assms(3) emulator_progress [OF assms(1), where w = w and late = late] have
    "wnd_emulator w \<noteq> Starting" "wnd_emulator w \<noteq> Composed" "wnd_emulator w \<noteq> Launching" "wnd_emulator w \<noteq> Announcing"
    by (auto simp: ui_answers_def)
  ultimately show ?thesis using Looping assms(2) by (cases "wnd_emulator w") (simp_all add: title_runs_def)
next
  case Loop_Ended
  with assms(3) ui_progress [where w = w and con = con and late = late] show ?thesis by blast
next
  case Joining
  with assms(3) ui_progress [where w = w and con = con and late = late] have "wnd_emulator w \<noteq> Finished" by blast
  with Joining assms(3) emulator_progress [OF assms(1), where w = w and late = late] show ?thesis
    by (cases "wnd_emulator w") (auto simp: ui_answers_def title_runs_def deadlocked_def)
qed simp_all

text \<open>The loop ends only on a request, and before the emulator thread makes one only the player can.\<close>

lemma quit_requested:
  "windowed_run con late w0 es w \<Longrightarrow> wnd_ui w0 = Looping \<and> \<not> wnd_quit w0 \<Longrightarrow>
     (wnd_ui w \<noteq> Looping \<longrightarrow> wnd_quit w) \<and> (wnd_quit w \<and> wnd_emulator w \<noteq> Finished \<longrightarrow> Close_Window \<in> set es)"
proof (induction rule: windowed_run.induct)
  case (Step w0 es w1 e w2)
  then have "(wnd_ui w1 \<noteq> Looping \<longrightarrow> wnd_quit w1)"
    "wnd_quit w1 \<and> wnd_emulator w1 \<noteq> Finished \<longrightarrow> Close_Window \<in> set es" by simp_all
  then show ?case
    by (cases rule: windowed_step.cases [OF Step.hyps(2)]) (auto simp: emulator_failed_def leave_function_ui)
qed simp

lemma finished_quits:
  "windowed_run con late w0 es w \<Longrightarrow> wnd_emulator w0 \<noteq> Finished \<Longrightarrow> wnd_emulator w = Finished \<Longrightarrow> wnd_quit w"
proof (induction rule: windowed_run.induct)
  case (Step w es w1 e w2)
  then show ?case
    by (cases rule: windowed_step.cases [OF Step.hyps(2)]) (auto simp: emulator_failed_def leave_function_ui split: if_splits)
qed simp

text \<open>C39: every history is finite, of at most nine steps. When the code has no step left, the function has returned
  or the process is over, or the title runs, with the loop waiting for the player or the title, or
  with the function waiting for the title after the player closed the window; or the player closed the
  window while the emulator thread was starting, and that thread waits for an answer of the UI
  thread, which no longer pumps its loop but joins the thread. If Xenia answers such calls all the same,
  that last case is none.
\<close>

theorem windowed_always_ends:
  assumes "windowed_run con late (run_windowed window callback owner cfg ls x) es w" "account_laws con"
  shows "length es \<le> 9
    \<and> ((\<nexists>e w'. code_step e \<and> windowed_step con late w e w') \<longrightarrow>
        over (wnd_ui w) \<or> title_runs w \<or> deadlocked late w)
    \<and> (wnd_ui w = Joining \<and> wnd_emulator w \<noteq> Finished \<longrightarrow> Close_Window \<in> set es)"
proof (intro conjI)
  from run_rank [OF assms(1)] show "length es \<le> 9"
    by (simp add: windowed_rank_def run_windowed_def)
  have "wnd_emulator w = Finished \<Longrightarrow> wnd_quit w"
    using finished_quits [OF assms(1)] by (simp add: run_windowed_def)
  from windowed_progress [OF assms(2) this] show "(\<nexists>e w'. code_step e \<and> windowed_step con late w e w') \<longrightarrow>
      over (wnd_ui w) \<or> title_runs w \<or> deadlocked late w" by blast
  show "wnd_ui w = Joining \<and> wnd_emulator w \<noteq> Finished \<longrightarrow> Close_Window \<in> set es"
    using quit_requested [OF assms(1)] by (auto simp: run_windowed_def)
qed

text \<open>
  The deadlock is reached when the player closes the window before the presenter is set, if that call is not answered
  any more: after it no step is possible, of the code or of anyone.
\<close>

lemma close_before_presenter_deadlocks:
  assumes "wnd_ui w = Looping" "wnd_emulator w = Composed" "\<not> wnd_quit w" "\<not> wnd_launched w" "\<not> late Set_Presenter"
  shows "\<exists>w'. windowed_run con late w [Close_Window, End_Loop, Check_Launched] w' \<and> deadlocked late w'
    \<and> (\<nexists>e w2. windowed_step con late w' e w2)"
proof -
  let ?a = "w\<lparr>wnd_quit := True\<rparr>" let ?b = "?a\<lparr>wnd_ui := Loop_Ended\<rparr>" let ?c = "?b\<lparr>wnd_ui := Joining\<rparr>"
  have "windowed_step con late w Close_Window ?a" using assms(1,3) by (rule windowed_step.Close)
  from windowed_run.Step [OF windowed_run.Start this] have r1: "windowed_run con late w [Close_Window] ?a" by simp
  have "windowed_step con late ?a End_Loop ?b" by (rule windowed_step.Quit) (simp_all add: assms(1))
  from windowed_run.Step [OF r1 this] have r2: "windowed_run con late w [Close_Window, End_Loop] ?b" by simp
  have "windowed_step con late ?b Check_Launched ?c"
    using windowed_step.Check [of ?b con late] assms(4) by simp
  from windowed_run.Step [OF r2 this] have "windowed_run con late w [Close_Window, End_Loop, Check_Launched] ?c" by simp
  moreover have "deadlocked late ?c" using assms(2,5) by (simp add: deadlocked_def)
  moreover have False if "windowed_step con late ?c e w2" for e w2
    using that by cases (use assms(2,5) in \<open>simp_all add: ui_answers_def\<close>)
  ultimately show ?thesis by blast
qed

section \<open>Two histories\<close>

lemma run_Cons:
  assumes "windowed_step con late w e w1" "windowed_run con late w1 es w2"
  shows "windowed_run con late w (e # es) w2"
  using assms(2,1)
proof (induction rule: windowed_run.induct)
  case (Start w1)
  then show ?case using windowed_run.Step [OF windowed_run.Start, of con late w e w1] by simp
next
  case (Step w1 es w2 e' w3)
  then show ?case using windowed_run.Step [of con late w "e # es" w2 e' w3] by simp
qed

text \<open>
  A title the session refuses was launched as far as the destructor is concerned: the function does not
  return the recorded failure, the process ends instead.
\<close>

lemma refused_launch_ends_the_process:
  assumes "windowed_step con late w Launch_Title w1" "ses_emulator (wnd_session w)"
    and "windowed_step con late w2 Join_Emulator w3" "wnd_session w2 = wnd_session w1"
  shows "wnd_ui w3 = Process_Ended exit_failure_status"
proof -
  obtain f s x where l: "session_launch con (wnd_session w) (wnd_console w) = (f, s, x)"
      and "wnd_session w1 = s"
    using assms(1) by (auto simp: emulator_failed_def elim!: launch_stepE)
  with assms(4) launched_flag [OF assms(2) l] have "ses_launched (wnd_session w2)" by simp
  with assms(3) show ?thesis by (auto simp: leave_function_def Let_def destroy_session_def elim!: join_stepE)
qed

text \<open>
  A window closed while the title launches ends the UI loop before the launch: the function then waits
  for a title that runs without a window, and the process fails when that title exits.
\<close>

lemma early_close_leaves_the_title_running:
  assumes "wnd_ui w = Looping" "wnd_emulator w = Launching" "\<not> wnd_quit w" "\<not> wnd_launched w"
    and "ses_emulator (wnd_session w)" "session_launch con (wnd_session w) (wnd_console w) = (f, s, x)" "\<not> fails f"
    and "late Launch_Title"
  shows "\<exists>w1 w2. windowed_run con late w [Close_Window, End_Loop, Check_Launched, Launch_Title, Announce_Launch] w1
      \<and> wnd_ui w1 = Joining \<and> wnd_emulator w1 = Running
      \<and> windowed_run con late w1 [Title_Exits, Join_Emulator] w2 \<and> wnd_ui w2 = Process_Ended exit_failure_status"
proof -
  let ?a = "w\<lparr>wnd_quit := True\<rparr>" let ?b = "?a\<lparr>wnd_ui := Loop_Ended\<rparr>" let ?c = "?b\<lparr>wnd_ui := Joining\<rparr>"
  let ?l = "?c\<lparr>wnd_session := s, wnd_console := x, wnd_emulator := Announcing, wnd_launched := True\<rparr>"
  let ?d = "?l\<lparr>wnd_emulator := Running, wnd_announced := wnd_announced ?l + (if wnd_callback ?l then 1 else 0)\<rparr>"
  let ?e = "?d\<lparr>wnd_emulator := Finished, wnd_quit := True\<rparr>"
  have "windowed_step con late w Close_Window ?a" using assms(1,3) by (rule windowed_step.Close)
  moreover have "windowed_step con late ?a End_Loop ?b" by (rule windowed_step.Quit) (simp_all add: assms(1))
  moreover have "windowed_step con late ?b Check_Launched ?c"
    using windowed_step.Check [of ?b con late] assms(4) by simp
  moreover have "windowed_step con late ?c Launch_Title ?l"
  proof (rule windowed_step.Launch [where f = f and s = s and x = x, OF _ _ _ refl])
    show "session_launch con (wnd_session ?c) (wnd_console ?c) = (f, s, x)" using assms(6) by simp
  qed (simp_all add: assms(2,7,8) ui_answers_def)
  moreover have "windowed_step con late ?l Announce_Launch ?d"
    by (rule windowed_step.Announce) simp_all
  moreover have "windowed_step con late ?d Title_Exits ?e"
    by (rule windowed_step.Exit) simp_all
  moreover have "windowed_step con late ?e Join_Emulator (leave_function con ?e)"
    by (rule windowed_step.Join) simp_all
  ultimately have runs: "windowed_run con late w [Close_Window, End_Loop, Check_Launched, Launch_Title, Announce_Launch] ?d"
    "windowed_run con late ?d [Title_Exits, Join_Emulator] (leave_function con ?e)"
    by (meson run_Cons windowed_run.Start)+
  have "ses_launched s" by (rule launched_flag [OF assms(5,6)])
  then have "wnd_ui (leave_function con ?e) = Process_Ended exit_failure_status"
    by (simp add: leave_function_def Let_def destroy_session_def)
  with runs show ?thesis by (intro exI [where x = ?d] exI [where x = "leave_function con ?e"]) simp
qed

text \<open>A configuration that names no title: the emulator thread fails, and the function returns that.\<close>

definition toy_game_window :: game_window where
  "toy_game_window = (prepare_game_window True False)\<lparr>gwd_open := True\<rparr>"

lemma toy_game_window_opened: "open_game_window True True True False True = (no_failure, Some toy_game_window)"
  by (simp add: open_game_window_def toy_game_window_def)

definition unanswered :: "windowed_event \<Rightarrow> bool" where
  "unanswered e = False"

definition untitled_start :: "(unit, unit, unit failure_sink, toy_console_state) windowed" where
  "untitled_start = run_windowed toy_game_window True 1 (toy_config\<lparr>cfg_expected_title_id := 0\<rparr>) (leases_of None) (toy_console_start 0)"

lemma untitled_run:
  "\<exists>w. windowed_run toy_console unanswered untitled_start
      [Initialize_Session, End_Loop, Check_Launched, Join_Emulator] w \<and> over (wnd_ui w)"
proof -
  let ?w = untitled_start
  define f where "f = validate_config toy_console (toy_config\<lparr>cfg_expected_title_id := 0\<rparr>) (toy_console_start 0)"
  have f: "fails f" by (simp add: f_def validate_config_def)
  have i: "session_initialize toy_console True (wnd_leases ?w) (wnd_session ?w) (wnd_console ?w)
      = Some (f, wnd_leases ?w, wnd_session ?w, wnd_console ?w)"
    using f by (simp add: session_initialize_def untitled_start_def run_windowed_def f_def Let_def)
  let ?a = "emulator_failed f ?w"
  have start: "wnd_emulator ?w = Starting" "wnd_ui ?w = Looping" "\<not> wnd_launched ?w"
    by (simp_all add: untitled_start_def run_windowed_def)
  have "windowed_step toy_console unanswered ?w Initialize_Session ?a"
    by (rule windowed_step.Initialize [OF start(1) _ i refl]) (simp_all add: start f ui_answers_def)
  moreover let ?b = "?a\<lparr>wnd_ui := Loop_Ended\<rparr>" let ?c = "?b\<lparr>wnd_ui := Joining\<rparr>"
  have "windowed_step toy_console unanswered ?a End_Loop ?b"
    by (rule windowed_step.Quit) (simp_all add: emulator_failed_def start)
  moreover have "windowed_step toy_console unanswered ?b Check_Launched ?c"
    using windowed_step.Check [of ?b toy_console unanswered] start(3) by (simp add: emulator_failed_def)
  moreover have "windowed_step toy_console unanswered ?c Join_Emulator (leave_function toy_console ?c)"
    by (rule windowed_step.Join) (simp_all add: emulator_failed_def)
  ultimately show ?thesis using leave_function_ui [of toy_console ?c] by (meson run_Cons windowed_run.Start)
qed

lemma windowed_returns_only_failures_witness:
  "(\<exists>w. windowed_run toy_console unanswered untitled_start [Initialize_Session, End_Loop, Check_Launched, Join_Emulator] w
     \<and> windowed_outcome None w)
   \<and> (case open_game_window True True True False False of (g, Some window) \<Rightarrow> fails g \<and> \<not> capture_removed window
      | (g, None) \<Rightarrow> False)"
proof
  obtain w where w: "windowed_run toy_console unanswered untitled_start
      [Initialize_Session, End_Loop, Check_Launched, Join_Emulator] w"
    using untitled_run by blast
  note law = windowed_returns_only_failures [OF toy_game_window_opened toy_console_laws(2), of None 1]
  have "windowed_outcome None w" using law w unfolding untitled_start_def by simp
  with w show "\<exists>w. windowed_run toy_console unanswered untitled_start
      [Initialize_Session, End_Loop, Check_Launched, Join_Emulator] w \<and> windowed_outcome None w" by blast
  obtain g win where o: "open_game_window True True True False False = (g, win)" by fastforce
  from windowed_returns_only_failures [OF o toy_console_laws(2), of None 1] o
  show "case open_game_window True True True False False of (g, Some window) \<Rightarrow> fails g \<and> \<not> capture_removed window
      | (g, None) \<Rightarrow> False" by (auto split: option.splits)
qed

lemma windowed_always_ends_witness:
  "\<exists>w. windowed_run toy_console unanswered untitled_start [Initialize_Session, End_Loop, Check_Launched, Join_Emulator] w
     \<and> ((\<nexists>e w'. code_step e \<and> windowed_step toy_console unanswered w e w') \<longrightarrow>
          over (wnd_ui w) \<or> title_runs w \<or> deadlocked unanswered w)"
proof -
  obtain w where w: "windowed_run toy_console unanswered untitled_start
      [Initialize_Session, End_Loop, Check_Launched, Join_Emulator] w"
    using untitled_run by blast
  have "account_laws toy_console" by (simp add: account_laws_def)
  from windowed_always_ends [OF w [unfolded untitled_start_def] this] w show ?thesis by blast
qed

end
