(* ===== verification/Desktop_Input.thy ===== *)
theory Desktop_Input imports Prelude begin

text \<open>
  The keyboard and mouse a game window records and a title's controller source reads:
  \<open>include/x360port/desktop_input.hpp\<close> and \<open>src/desktop_input.cpp\<close>. The keys are 256 bits in four
  words, the mouse buttons a byte, and the pointer travel two counters that wrap. Each is an atomic
  of its own with relaxed ordering. A writer is its effect (\<open>set_key\<close> and so on, \<open>apply_event\<close>) and the
  atomic accesses it makes (\<open>event_accesses\<close>), which have that effect when nothing comes between them. A
  snapshot is one access after another, so the window's accesses may fall between its own, and a snapshot
  between those of a writer: \<open>torn_snapshot\<close> is the snapshot with the accesses of each gap, \<open>take_snapshot\<close>
  the one nothing interrupts. The accesses interleave in the order the code makes them.
\<close>

section \<open>The devices\<close>

text \<open>The keys a binding names, by their virtual-key codes.\<close>

datatype (plugins only: size) desktop_key =
    Key_Backspace | Key_Tab | Key_Return | Key_Escape | Key_Space | Key_PageUp | Key_PageDown | Key_End
     | Key_Home | Key_Left | Key_Up | Key_Right | Key_Down | Key_Digit0 | Key_Digit1 | Key_Digit2
     | Key_Digit3 | Key_Digit4 | Key_Digit5 | Key_Digit6 | Key_Digit7 | Key_Digit8 | Key_Digit9 | Key_A
     | Key_B | Key_C | Key_D | Key_E | Key_F | Key_G | Key_H | Key_I | Key_J | Key_K | Key_L | Key_M
     | Key_N | Key_O | Key_P | Key_Q | Key_R | Key_S | Key_T | Key_U | Key_V | Key_W | Key_X | Key_Y
     | Key_Z | Key_F1 | Key_F2 | Key_F3 | Key_F4 | Key_F5 | Key_F6 | Key_F7 | Key_F8 | Key_F9 | Key_F10
     | Key_F11 | Key_F12 | Key_LeftShift | Key_RightShift | Key_LeftControl | Key_RightControl
     | Key_LeftAlt | Key_RightAlt

primrec desktop_key_code :: "desktop_key \<Rightarrow> byte" where
  "desktop_key_code Key_Backspace = 0x08"
| "desktop_key_code Key_Tab = 0x09"
| "desktop_key_code Key_Return = 0x0D"
| "desktop_key_code Key_Escape = 0x1B"
| "desktop_key_code Key_Space = 0x20"
| "desktop_key_code Key_PageUp = 0x21"
| "desktop_key_code Key_PageDown = 0x22"
| "desktop_key_code Key_End = 0x23"
| "desktop_key_code Key_Home = 0x24"
| "desktop_key_code Key_Left = 0x25"
| "desktop_key_code Key_Up = 0x26"
| "desktop_key_code Key_Right = 0x27"
| "desktop_key_code Key_Down = 0x28"
| "desktop_key_code Key_Digit0 = 0x30"
| "desktop_key_code Key_Digit1 = 0x31"
| "desktop_key_code Key_Digit2 = 0x32"
| "desktop_key_code Key_Digit3 = 0x33"
| "desktop_key_code Key_Digit4 = 0x34"
| "desktop_key_code Key_Digit5 = 0x35"
| "desktop_key_code Key_Digit6 = 0x36"
| "desktop_key_code Key_Digit7 = 0x37"
| "desktop_key_code Key_Digit8 = 0x38"
| "desktop_key_code Key_Digit9 = 0x39"
| "desktop_key_code Key_A = 0x41"
| "desktop_key_code Key_B = 0x42"
| "desktop_key_code Key_C = 0x43"
| "desktop_key_code Key_D = 0x44"
| "desktop_key_code Key_E = 0x45"
| "desktop_key_code Key_F = 0x46"
| "desktop_key_code Key_G = 0x47"
| "desktop_key_code Key_H = 0x48"
| "desktop_key_code Key_I = 0x49"
| "desktop_key_code Key_J = 0x4A"
| "desktop_key_code Key_K = 0x4B"
| "desktop_key_code Key_L = 0x4C"
| "desktop_key_code Key_M = 0x4D"
| "desktop_key_code Key_N = 0x4E"
| "desktop_key_code Key_O = 0x4F"
| "desktop_key_code Key_P = 0x50"
| "desktop_key_code Key_Q = 0x51"
| "desktop_key_code Key_R = 0x52"
| "desktop_key_code Key_S = 0x53"
| "desktop_key_code Key_T = 0x54"
| "desktop_key_code Key_U = 0x55"
| "desktop_key_code Key_V = 0x56"
| "desktop_key_code Key_W = 0x57"
| "desktop_key_code Key_X = 0x58"
| "desktop_key_code Key_Y = 0x59"
| "desktop_key_code Key_Z = 0x5A"
| "desktop_key_code Key_F1 = 0x70"
| "desktop_key_code Key_F2 = 0x71"
| "desktop_key_code Key_F3 = 0x72"
| "desktop_key_code Key_F4 = 0x73"
| "desktop_key_code Key_F5 = 0x74"
| "desktop_key_code Key_F6 = 0x75"
| "desktop_key_code Key_F7 = 0x76"
| "desktop_key_code Key_F8 = 0x77"
| "desktop_key_code Key_F9 = 0x78"
| "desktop_key_code Key_F10 = 0x79"
| "desktop_key_code Key_F11 = 0x7A"
| "desktop_key_code Key_F12 = 0x7B"
| "desktop_key_code Key_LeftShift = 0xA0"
| "desktop_key_code Key_RightShift = 0xA1"
| "desktop_key_code Key_LeftControl = 0xA2"
| "desktop_key_code Key_RightControl = 0xA3"
| "desktop_key_code Key_LeftAlt = 0xA4"
| "desktop_key_code Key_RightAlt = 0xA5"

datatype desktop_mouse_button = Mouse_Left | Mouse_Right | Mouse_Middle | Mouse_Back | Mouse_Forward

primrec button_index :: "desktop_mouse_button \<Rightarrow> nat" where
  "button_index Mouse_Left = 0"
| "button_index Mouse_Right = 1"
| "button_index Mouse_Middle = 2"
| "button_index Mouse_Back = 3"
| "button_index Mouse_Forward = 4"

definition button_bit :: "desktop_mouse_button \<Rightarrow> byte" where
  "button_bit b = push_bit (button_index b) 1"

record desktop_snapshot =
  dsn_keys :: "bool list"
  dsn_mouse_buttons :: byte
  dsn_pointer_dx :: u32
  dsn_pointer_dy :: u32
  dsn_pointer_captured :: bool

definition is_key_down :: "desktop_snapshot \<Rightarrow> byte \<Rightarrow> bool" where
  "is_key_down s key \<longleftrightarrow> unat key < length (dsn_keys s) \<and> dsn_keys s ! unat key"

definition is_desktop_key_down :: "desktop_snapshot \<Rightarrow> desktop_key \<Rightarrow> bool" where
  "is_desktop_key_down s key = is_key_down s (desktop_key_code key)"

definition is_button_down :: "desktop_snapshot \<Rightarrow> desktop_mouse_button \<Rightarrow> bool" where
  "is_button_down s b \<longleftrightarrow> dsn_mouse_buttons s AND button_bit b \<noteq> 0"

record desktop_input =
  din_keys :: "u64 list"
  din_mouse_buttons :: byte
  din_pointer_dx :: u32
  din_pointer_dy :: u32
  din_pointer_captured :: bool

definition k_key_words :: nat where "k_key_words = 4"

definition k_bits_per_word :: nat where "k_bits_per_word = 64"

definition new_desktop_input :: desktop_input where
  "new_desktop_input = \<lparr>din_keys = replicate k_key_words 0, din_mouse_buttons = 0,
     din_pointer_dx = 0, din_pointer_dy = 0, din_pointer_captured = False\<rparr>"

definition desktop_ok :: "desktop_input \<Rightarrow> bool" where
  "desktop_ok d \<longleftrightarrow> length (din_keys d) = k_key_words"

section \<open>What the window writes\<close>

definition set_key :: "byte \<Rightarrow> bool \<Rightarrow> desktop_input \<Rightarrow> desktop_input" where
  "set_key virtual_key down d =
     (let w = unat virtual_key div k_bits_per_word;
          mask = push_bit (unat virtual_key mod k_bits_per_word) (1 :: u64);
          bits = din_keys d ! w
      in d\<lparr>din_keys := (din_keys d)[w := if down then bits OR mask else bits AND NOT mask]\<rparr>)"

definition set_mouse_button :: "desktop_mouse_button \<Rightarrow> bool \<Rightarrow> desktop_input \<Rightarrow> desktop_input" where
  "set_mouse_button b down d =
     d\<lparr>din_mouse_buttons := if down then din_mouse_buttons d OR button_bit b
        else din_mouse_buttons d AND NOT (button_bit b)\<rparr>"

definition add_pointer_travel :: "u32 \<Rightarrow> u32 \<Rightarrow> desktop_input \<Rightarrow> desktop_input" where
  "add_pointer_travel dx dy d =
     (if \<not> din_pointer_captured d then d
      else d\<lparr>din_pointer_dx := din_pointer_dx d + dx, din_pointer_dy := din_pointer_dy d + dy\<rparr>)"

definition set_pointer_captured :: "bool \<Rightarrow> desktop_input \<Rightarrow> desktop_input" where
  "set_pointer_captured captured d =
     (let d = d\<lparr>din_pointer_captured := captured\<rparr> in
      if \<not> captured then d\<lparr>din_pointer_dx := 0, din_pointer_dy := 0\<rparr> else d)"

definition release_all :: "desktop_input \<Rightarrow> desktop_input" where
  "release_all d = set_pointer_captured False
     (d\<lparr>din_keys := map (\<lambda>_. 0) (din_keys d), din_mouse_buttons := 0\<rparr>)"

datatype desktop_event =
    Key byte bool
  | Mouse_Button desktop_mouse_button bool
  | Travel u32 u32
  | Captured bool
  | Release_All

primrec apply_event :: "desktop_event \<Rightarrow> desktop_input \<Rightarrow> desktop_input" where
  "apply_event (Key k down) = set_key k down"
| "apply_event (Mouse_Button b down) = set_mouse_button b down"
| "apply_event (Travel dx dy) = add_pointer_travel dx dy"
| "apply_event (Captured c) = set_pointer_captured c"
| "apply_event Release_All = release_all"

definition apply_events :: "desktop_event list \<Rightarrow> desktop_input \<Rightarrow> desktop_input" where
  "apply_events = fold apply_event"

text \<open>The single atomic accesses the writers make. The stores to the keys, buttons and counters all store zero.\<close>

datatype desktop_access =
    Or_Key nat u64
  | And_Key nat u64
  | Clear_Key nat
  | Or_Buttons byte
  | And_Buttons byte
  | Clear_Buttons
  | Add_Dx u32
  | Add_Dy u32
  | Clear_Dx
  | Clear_Dy
  | Store_Captured bool

primrec perform :: "desktop_access \<Rightarrow> desktop_input \<Rightarrow> desktop_input" where
  "perform (Or_Key w bits) d = d\<lparr>din_keys := (din_keys d)[w := din_keys d ! w OR bits]\<rparr>"
| "perform (And_Key w bits) d = d\<lparr>din_keys := (din_keys d)[w := din_keys d ! w AND bits]\<rparr>"
| "perform (Clear_Key w) d = d\<lparr>din_keys := (din_keys d)[w := 0]\<rparr>"
| "perform (Or_Buttons bits) d = d\<lparr>din_mouse_buttons := din_mouse_buttons d OR bits\<rparr>"
| "perform (And_Buttons bits) d = d\<lparr>din_mouse_buttons := din_mouse_buttons d AND bits\<rparr>"
| "perform Clear_Buttons d = d\<lparr>din_mouse_buttons := 0\<rparr>"
| "perform (Add_Dx dx) d = d\<lparr>din_pointer_dx := din_pointer_dx d + dx\<rparr>"
| "perform (Add_Dy dy) d = d\<lparr>din_pointer_dy := din_pointer_dy d + dy\<rparr>"
| "perform Clear_Dx d = d\<lparr>din_pointer_dx := 0\<rparr>"
| "perform Clear_Dy d = d\<lparr>din_pointer_dy := 0\<rparr>"
| "perform (Store_Captured captured) d = d\<lparr>din_pointer_captured := captured\<rparr>"

definition perform_all :: "desktop_access list \<Rightarrow> desktop_input \<Rightarrow> desktop_input" where
  "perform_all = fold perform"

text \<open>What each writer does to the atomics, in the code's order. \<open>captured\<close> is the flag \<open>AddPointerTravel\<close> loads,
  which only the window's own thread writes.\<close>

definition captured_accesses :: "bool \<Rightarrow> desktop_access list" where
  "captured_accesses captured = Store_Captured captured # (if captured then [] else [Clear_Dx, Clear_Dy])"

primrec event_accesses :: "bool \<Rightarrow> desktop_event \<Rightarrow> desktop_access list" where
  "event_accesses captured (Key k down) =
     (let w = unat k div k_bits_per_word; bits = push_bit (unat k mod k_bits_per_word) 1
      in [if down then Or_Key w bits else And_Key w (NOT bits)])"
| "event_accesses captured (Mouse_Button b down) =
     [if down then Or_Buttons (button_bit b) else And_Buttons (NOT (button_bit b))]"
| "event_accesses captured (Travel dx dy) = (if captured then [Add_Dx dx, Add_Dy dy] else [])"
| "event_accesses captured (Captured c) = captured_accesses c"
| "event_accesses captured Release_All = map Clear_Key [0..<k_key_words] @ [Clear_Buttons] @ captured_accesses False"

section \<open>What the controller source reads\<close>

definition bit_keys :: "u64 \<Rightarrow> bool list" where
  "bit_keys bits = map (\<lambda>n. drop_bit n bits AND 1 \<noteq> 0) [0..<k_bits_per_word]"

text \<open>The loop over the key words: the accesses before each load, then the load.\<close>

primrec read_keys ::
  "nat list \<Rightarrow> (nat \<Rightarrow> desktop_access list) \<Rightarrow> desktop_input \<Rightarrow> bool list \<times> desktop_input" where
  "read_keys [] gap d = ([], d)"
| "read_keys (w # ws) gap d =
     (let d = perform_all (gap w) d;
          keys = bit_keys (din_keys d ! w)
      in case read_keys ws gap d of (rest, d) \<Rightarrow> (keys @ rest, d))"

record snapshot_gaps =
  gap_word :: "nat \<Rightarrow> desktop_access list"
  gap_buttons :: "desktop_access list"
  gap_dx :: "desktop_access list"
  gap_dy :: "desktop_access list"
  gap_captured :: "desktop_access list"

definition torn_snapshot :: "snapshot_gaps \<Rightarrow> desktop_input \<Rightarrow> desktop_snapshot \<times> desktop_input" where
  "torn_snapshot gaps d =
     (case read_keys [0..<k_key_words] (gap_word gaps) d of (keys, d) \<Rightarrow>
      let d = perform_all (gap_buttons gaps) d; buttons = din_mouse_buttons d;
          d = perform_all (gap_dx gaps) d; dx = din_pointer_dx d; d = d\<lparr>din_pointer_dx := 0\<rparr>;
          d = perform_all (gap_dy gaps) d; dy = din_pointer_dy d; d = d\<lparr>din_pointer_dy := 0\<rparr>;
          d = perform_all (gap_captured gaps) d
      in (\<lparr>dsn_keys = keys, dsn_mouse_buttons = buttons, dsn_pointer_dx = dx, dsn_pointer_dy = dy,
           dsn_pointer_captured = din_pointer_captured d\<rparr>, d))"

definition no_gaps :: snapshot_gaps where
  "no_gaps = \<lparr>gap_word = (\<lambda>_. []), gap_buttons = [], gap_dx = [], gap_dy = [], gap_captured = []\<rparr>"

definition take_snapshot :: "desktop_input \<Rightarrow> desktop_snapshot \<times> desktop_input" where
  "take_snapshot = torn_snapshot no_gaps"

section \<open>The devices as the player sees them\<close>

text \<open>The abstract state: what is held down, and the travel not yet reported.\<close>

record desktop_view =
  view_keys :: "byte set"
  view_buttons :: "desktop_mouse_button set"
  view_travel :: "u32 \<times> u32"
  view_captured :: bool

definition nothing_held :: desktop_view where
  "nothing_held = \<lparr>view_keys = {}, view_buttons = {}, view_travel = (0, 0), view_captured = False\<rparr>"

primrec view_event :: "desktop_event \<Rightarrow> desktop_view \<Rightarrow> desktop_view" where
  "view_event (Key k down) v = v\<lparr>view_keys := if down then insert k (view_keys v) else view_keys v - {k}\<rparr>"
| "view_event (Mouse_Button b down) v =
     v\<lparr>view_buttons := if down then insert b (view_buttons v) else view_buttons v - {b}\<rparr>"
| "view_event (Travel dx dy) v =
     (if view_captured v then v\<lparr>view_travel := (fst (view_travel v) + dx, snd (view_travel v) + dy)\<rparr> else v)"
| "view_event (Captured c) v = v\<lparr>view_captured := c, view_travel := if c then view_travel v else (0, 0)\<rparr>"
| "view_event Release_All v = nothing_held"

definition key_down :: "desktop_input \<Rightarrow> byte \<Rightarrow> bool" where
  "key_down d k \<longleftrightarrow> bit (din_keys d ! (unat k div k_bits_per_word)) (unat k mod k_bits_per_word)"

definition view_of :: "desktop_input \<Rightarrow> desktop_view" where
  "view_of d = \<lparr>view_keys = {k. key_down d k},
     view_buttons = {b. bit (din_mouse_buttons d) (button_index b)},
     view_travel = (din_pointer_dx d, din_pointer_dy d), view_captured = din_pointer_captured d\<rparr>"

lemmas key_words = k_key_words_def k_bits_per_word_def

lemma key_word_bound [simp]: "unat (k :: byte) div k_bits_per_word < k_key_words"
  using unat_byte_less [of k] by (simp add: key_words less_mult_imp_div_less)

lemma button_index_bound [simp]: "button_index b < 8"
  by (cases b) simp_all

lemma button_index_eq [simp]: "button_index b = button_index c \<longleftrightarrow> b = c"
  by (cases b; cases c) simp_all

lemma key_position: "unat j div k_bits_per_word = unat k div k_bits_per_word \<Longrightarrow>
  unat j mod k_bits_per_word = unat k mod k_bits_per_word \<Longrightarrow> j = (k :: byte)"
  by (metis div_mult_mod_eq word_unat_eq_iff)

lemma desktop_ok_event [simp]: "desktop_ok d \<Longrightarrow> desktop_ok (apply_event e d)"
  by (cases e) (simp_all add: desktop_ok_def set_key_def set_mouse_button_def add_pointer_travel_def
    set_pointer_captured_def release_all_def Let_def)

lemma desktop_ok_new [simp]: "desktop_ok new_desktop_input"
  by (simp add: desktop_ok_def new_desktop_input_def)

lemma clear_keys:
  assumes "length (din_keys d) = k_key_words"
  shows "fold perform (map Clear_Key [0..<k_key_words]) d = d\<lparr>din_keys := map (\<lambda>_. 0) (din_keys d)\<rparr>"
proof -
  obtain a b c e where "din_keys d = [a, b, c, e]"
    using assms by (auto simp: k_key_words_def numeral_eq_Suc length_Suc_conv)
  then show ?thesis by (simp add: k_key_words_def numeral_eq_Suc)
qed

text \<open>A writer's accesses, with nothing in between, have its effect.\<close>

lemma perform_event:
  assumes "desktop_ok d"
  shows "perform_all (event_accesses (din_pointer_captured d) e) d = apply_event e d"
proof (cases e)
  case Release_All
  with assms show ?thesis
    by (simp add: perform_all_def desktop_ok_def clear_keys captured_accesses_def release_all_def
        set_pointer_captured_def Let_def)
qed (simp_all add: perform_all_def set_key_def set_mouse_button_def add_pointer_travel_def captured_accesses_def
    set_pointer_captured_def Let_def)

lemma key_down_set_key:
  assumes "desktop_ok d"
  shows "key_down (set_key k down d) j \<longleftrightarrow> (if j = k then down else key_down d j)"
proof (cases "unat j div k_bits_per_word = unat k div k_bits_per_word")
  case True
  have "unat j mod k_bits_per_word < 64" by (simp add: key_words)
  with True assms key_position [OF True] show ?thesis
    by (auto simp: key_down_def set_key_def desktop_ok_def Let_def bit_or_iff bit_and_iff bit_not_iff
      bit_exp_iff)
next
  case False
  then show ?thesis by (auto simp: key_down_def set_key_def Let_def)
qed

lemma bit_button_bit: "bit (button_bit b) n \<longleftrightarrow> n = button_index b"
  using button_index_bound [of b] by (auto simp: button_bit_def bit_exp_iff)

lemma view_of_event:
  assumes "desktop_ok d"
  shows "view_of (apply_event e d) = view_event e (view_of d)"
proof (cases e)
  case (Key k down)
  with assms show ?thesis
    by (auto simp: view_of_def key_down_set_key) (simp_all add: set_key_def Let_def)
next
  case (Mouse_Button b down)
  then show ?thesis
    by (auto simp: view_of_def set_mouse_button_def key_down_def bit_or_iff bit_and_iff bit_not_iff
      bit_button_bit)
next
  case Release_All
  have "din_keys (release_all d) ! (unat k div k_bits_per_word) = 0" for k :: byte
    using assms by (simp add: release_all_def set_pointer_captured_def Let_def desktop_ok_def)
  with Release_All show ?thesis
    by (simp add: view_of_def key_down_def nothing_held_def)
      (simp add: release_all_def set_pointer_captured_def Let_def)
qed (auto simp: view_of_def key_down_def add_pointer_travel_def set_pointer_captured_def Let_def)

lemma view_of_new [simp]: "view_of new_desktop_input = nothing_held"
proof -
  have "din_keys new_desktop_input ! (unat k div k_bits_per_word) = 0" for k :: byte
    by (simp add: new_desktop_input_def)
  then show ?thesis by (simp add: view_of_def nothing_held_def key_down_def)
      (simp add: new_desktop_input_def)
qed

lemma events_refine:
  assumes "desktop_ok d"
  shows "view_of (apply_events es d) = fold view_event es (view_of d) \<and> desktop_ok (apply_events es d)"
  using assms by (induction es arbitrary: d) (simp_all add: apply_events_def view_of_event)

lemma length_bit_keys [simp]: "length (bit_keys bits) = k_bits_per_word"
  by (simp add: bit_keys_def)

lemma nth_bit_keys [simp]: "n < k_bits_per_word \<Longrightarrow> bit_keys bits ! n \<longleftrightarrow> bit bits n"
  by (simp add: bit_keys_def bit_iff_odd_drop_bit and_one_eq odd_iff_mod_2_eq_one)

lemma read_keys_no_gaps:
  "read_keys ws (\<lambda>_. []) d = (concat (map (\<lambda>w. bit_keys (din_keys d ! w)) ws), d)"
  by (induction ws) (simp_all add: Let_def perform_all_def)

lemma nth_blocks:
  assumes "\<And>x. x \<in> set xs \<Longrightarrow> length (f x) = m" "i < length xs" "j < m"
  shows "concat (map f xs) ! (i * m + j) = f (xs ! i) ! j"
  using assms
proof (induction xs arbitrary: i)
  case (Cons x xs)
  then show ?case by (cases i) (simp_all add: nth_append add.assoc)
qed simp

lemma take_snapshot_eq:
  "take_snapshot d =
    (\<lparr>dsn_keys = concat (map (\<lambda>w. bit_keys (din_keys d ! w)) [0..<k_key_words]),
      dsn_mouse_buttons = din_mouse_buttons d, dsn_pointer_dx = din_pointer_dx d,
      dsn_pointer_dy = din_pointer_dy d, dsn_pointer_captured = din_pointer_captured d\<rparr>,
     d\<lparr>din_pointer_dx := 0, din_pointer_dy := 0\<rparr>)"
  by (simp add: take_snapshot_def torn_snapshot_def no_gaps_def read_keys_no_gaps perform_all_def Let_def)

lemma length_key_blocks:
  "length (concat (map (\<lambda>w. bit_keys (f w)) [0..<k_key_words])) = 256"
  by (simp add: length_concat comp_def sum_list_triv key_words)

lemma snapshot_key: "is_key_down (fst (take_snapshot d)) k \<longleftrightarrow> key_down d k"
proof -
  have "unat k < 256" by simp
  moreover have "concat (map (\<lambda>w. bit_keys (din_keys d ! w)) [0..<k_key_words]) ! unat k
    = bit_keys (din_keys d ! (unat k div k_bits_per_word)) ! (unat k mod k_bits_per_word)"
    using nth_blocks [of "[0..<k_key_words]" "\<lambda>w. bit_keys (din_keys d ! w)" k_bits_per_word
        "unat k div k_bits_per_word" "unat k mod k_bits_per_word"]
    by (simp add: div_mult_mod_eq) (simp add: key_words)
  ultimately show ?thesis
    by (simp add: is_key_down_def take_snapshot_eq length_key_blocks key_down_def)
      (simp add: key_words)
qed

lemma snapshot_button:
  "is_button_down (fst (take_snapshot d)) b \<longleftrightarrow> bit (din_mouse_buttons d) (button_index b)"
proof -
  have "din_mouse_buttons d AND button_bit b \<noteq> 0 \<longleftrightarrow> bit (din_mouse_buttons d) (button_index b)"
    by (metis (no_types) bit_and_iff bit_button_bit bit_0_eq bot_apply bot_bool_def bit_eqI)
  then show ?thesis by (simp add: is_button_down_def take_snapshot_eq)
qed

text \<open>C31: after any history of window events a snapshot that no event interrupts shows exactly the keys and
  the buttons held down, the travel added while captured since it was last consumed, and whether the
  pointer is captured; it consumes the travel and nothing else.
\<close>

theorem snapshot_shows_history:
  "case take_snapshot (apply_events es new_desktop_input) of (s, d) \<Rightarrow>
     let v = fold view_event es nothing_held in
       {k. is_key_down s k} = view_keys v
     \<and> {b. is_button_down s b} = view_buttons v
     \<and> (dsn_pointer_dx s, dsn_pointer_dy s) = view_travel v
     \<and> dsn_pointer_captured s = view_captured v
     \<and> view_of d = v\<lparr>view_travel := (0, 0)\<rparr>"
proof -
  let ?d = "apply_events es new_desktop_input"
  have v: "fold view_event es nothing_held = view_of ?d"
    using events_refine [OF desktop_ok_new, of es] by simp
  have "view_of (snd (take_snapshot ?d)) = (view_of ?d)\<lparr>view_travel := (0, 0)\<rparr>"
    by (simp add: take_snapshot_eq view_of_def key_down_def)
  moreover have "view_keys (view_of ?d) = {k. is_key_down (fst (take_snapshot ?d)) k}"
    "view_buttons (view_of ?d) = {b. is_button_down (fst (take_snapshot ?d)) b}"
    by (simp_all add: view_of_def snapshot_key snapshot_button)
  moreover have "view_travel (view_of ?d)
      = (dsn_pointer_dx (fst (take_snapshot ?d)), dsn_pointer_dy (fst (take_snapshot ?d)))"
    "view_captured (view_of ?d) = dsn_pointer_captured (fst (take_snapshot ?d))"
    by (simp_all add: view_of_def take_snapshot_eq)
  ultimately show ?thesis unfolding v by (simp add: case_prod_beta Let_def)
qed

section \<open>Snapshots among events\<close>

text \<open>An access that neither stores a counter nor whether the pointer is captured.\<close>

primrec steady :: "desktop_access \<Rightarrow> bool" where
  "steady (Or_Key w bits) \<longleftrightarrow> True"
| "steady (And_Key w bits) \<longleftrightarrow> True"
| "steady (Clear_Key w) \<longleftrightarrow> True"
| "steady (Or_Buttons bits) \<longleftrightarrow> True"
| "steady (And_Buttons bits) \<longleftrightarrow> True"
| "steady Clear_Buttons \<longleftrightarrow> True"
| "steady (Add_Dx dx) \<longleftrightarrow> True"
| "steady (Add_Dy dy) \<longleftrightarrow> True"
| "steady Clear_Dx \<longleftrightarrow> False"
| "steady Clear_Dy \<longleftrightarrow> False"
| "steady (Store_Captured c) \<longleftrightarrow> False"

fun dx_of :: "desktop_access \<Rightarrow> u32" where
  "dx_of (Add_Dx dx) = dx"
| "dx_of a = 0"

fun dy_of :: "desktop_access \<Rightarrow> u32" where
  "dy_of (Add_Dy dy) = dy"
| "dy_of a = 0"

definition total_dx :: "desktop_access list \<Rightarrow> u32" where
  "total_dx as = sum_list (map dx_of as)"

definition total_dy :: "desktop_access list \<Rightarrow> u32" where
  "total_dy as = sum_list (map dy_of as)"

definition gap_accesses :: "snapshot_gaps \<Rightarrow> desktop_access list" where
  "gap_accesses g = concat (map (gap_word g) [0..<k_key_words]) @ gap_buttons g @ gap_dx g @ gap_dy g @ gap_captured g"

lemma total_append [simp]:
  "total_dx (xs @ ys) = total_dx xs + total_dx ys" "total_dy (xs @ ys) = total_dy xs + total_dy ys"
  by (simp_all add: total_dx_def total_dy_def)

text \<open>The accesses of every event that does not capture or release the pointer are steady, and add its travel.\<close>

lemma event_accesses_steady:
  "(case e of Captured c \<Rightarrow> False | Release_All \<Rightarrow> False | _ \<Rightarrow> True) \<Longrightarrow> list_all steady (event_accesses True e)"
  "total_dx (event_accesses True (Travel dx dy)) = dx" "total_dy (event_accesses True (Travel dx dy)) = dy"
  by (cases e) (simp_all add: Let_def total_dx_def total_dy_def)

lemma steady_access:
  assumes "steady a"
  shows "din_pointer_captured (perform a d) = din_pointer_captured d
    \<and> din_pointer_dx (perform a d) = din_pointer_dx d + dx_of a
    \<and> din_pointer_dy (perform a d) = din_pointer_dy d + dy_of a"
  using assms by (cases a) simp_all

lemma steady_accesses:
  assumes "\<forall>a\<in>set as. steady a"
  shows "din_pointer_captured (perform_all as d) = din_pointer_captured d
    \<and> din_pointer_dx (perform_all as d) = din_pointer_dx d + total_dx as
    \<and> din_pointer_dy (perform_all as d) = din_pointer_dy d + total_dy as"
  using assms
  by (induction as arbitrary: d) (simp_all add: perform_all_def total_dx_def total_dy_def steady_access)

lemma steady_reads:
  assumes "\<forall>w\<in>set ws. \<forall>a\<in>set (gap w). steady a"
  shows "din_pointer_captured (snd (read_keys ws gap d)) = din_pointer_captured d
    \<and> din_pointer_dx (snd (read_keys ws gap d)) = din_pointer_dx d + total_dx (concat (map gap ws))
    \<and> din_pointer_dy (snd (read_keys ws gap d)) = din_pointer_dy d + total_dy (concat (map gap ws))"
  using assms
proof (induction ws arbitrary: d)
  case Nil
  then show ?case by (simp add: total_dx_def total_dy_def)
next
  case (Cons w ws)
  note first = steady_accesses [of "gap w" d]
  with Cons.IH [of "perform_all (gap w) d"] Cons.prems show ?case
    by (simp add: Let_def case_prod_beta add.assoc)
qed

text \<open>C32: while the pointer stays captured, a snapshot taken in the middle of the window's writes, even between
  the two accesses of one of them, neither loses nor repeats travel: what it reports and what it leaves
  pending add up to what was pending and what the interleaved accesses added, in both directions, modulo
  the counters' width.
\<close>

theorem snapshot_conserves_travel:
  assumes "din_pointer_captured d" "\<forall>a\<in>set (gap_accesses gaps). steady a"
    and "torn_snapshot gaps d = (s, d')"
  shows "dsn_pointer_dx s + din_pointer_dx d' = din_pointer_dx d + total_dx (gap_accesses gaps)
    \<and> dsn_pointer_dy s + din_pointer_dy d' = din_pointer_dy d + total_dy (gap_accesses gaps)
    \<and> dsn_pointer_captured s"
proof -
  from assms(2) have
    words: "\<forall>w\<in>set [0..<k_key_words]. \<forall>a\<in>set (gap_word gaps w). steady a" and
    rest: "\<forall>a\<in>set (gap_buttons gaps). steady a" "\<forall>a\<in>set (gap_dx gaps). steady a"
      "\<forall>a\<in>set (gap_dy gaps). steady a" "\<forall>a\<in>set (gap_captured gaps). steady a"
    by (auto simp: gap_accesses_def)
  from steady_reads [OF words, of d] assms(1,3) show ?thesis
    by (auto simp: torn_snapshot_def Let_def gap_accesses_def steady_accesses rest split: prod.splits)
qed

text \<open>One motion whole before the exchanges, and one whose two additions fall on both sides of them.\<close>

lemma snapshot_conserves_travel_witness:
  "let d = apply_events [Captured True, Travel 3 4] new_desktop_input;
       gaps = no_gaps\<lparr>gap_buttons := event_accesses True (Travel 5 6), gap_dx := [Add_Dx 10], gap_captured := [Add_Dy 20]\<rparr>
   in case torn_snapshot gaps d of (s, d') \<Rightarrow>
        dsn_pointer_dx s + din_pointer_dx d' = 18 \<and> dsn_pointer_dy s + din_pointer_dy d' = 30"
proof -
  let ?d = "apply_events [Captured True, Travel 3 4] new_desktop_input"
  let ?gaps = "no_gaps\<lparr>gap_buttons := event_accesses True (Travel 5 6), gap_dx := [Add_Dx 10], gap_captured := [Add_Dy 20]\<rparr>"
  obtain s d' where t: "torn_snapshot ?gaps ?d = (s, d')" by fastforce
  have d: "din_pointer_captured ?d" "din_pointer_dx ?d = 3" "din_pointer_dy ?d = 4"
    by (simp_all add: apply_events_def set_pointer_captured_def add_pointer_travel_def Let_def
      new_desktop_input_def)
  have "gap_accesses ?gaps = [Add_Dx 5, Add_Dy 6, Add_Dx 10, Add_Dy 20]"
    by (simp add: gap_accesses_def no_gaps_def)
  with snapshot_conserves_travel [OF d(1) _ t] d(2,3) t show ?thesis
    by (simp add: total_dx_def total_dy_def)
qed

section \<open>A snapshot is not one moment\<close>

lemma perform_all_append: "perform_all (xs @ ys) d = perform_all ys (perform_all xs d)"
  by (simp add: perform_all_def)

lemma read_keys_moments:
  assumes "m \<le> n"
  shows "read_keys [m..<n] gap d =
    (concat (map (\<lambda>w. bit_keys (din_keys (perform_all (concat (map gap [m..<Suc w])) d) ! w)) [m..<n]),
     perform_all (concat (map gap [m..<n])) d)"
  using assms
proof (induction "n - m" arbitrary: m d)
  case 0
  then show ?case by (simp add: perform_all_def)
next
  case (Suc i)
  then have cons: "[m..<n] = m # [Suc m..<n]" by (simp add: upt_conv_Cons)
  have later: "[m..<Suc w] = m # [Suc m..<Suc w]" if "w \<in> set [Suc m..<n]" for w
    using that by (simp add: upt_conv_Cons del: upt_Suc)
  from Suc.hyps(2) have "i = n - Suc m" "Suc m \<le> n" by simp_all
  note rest = Suc.hyps(1) [OF this, of "perform_all (gap m) d"]
  have shift: "map (\<lambda>w. bit_keys (din_keys (perform_all (concat (map gap [Suc m..<Suc w])) (perform_all (gap m) d)) ! w)) [Suc m..<n]
    = map (\<lambda>w. bit_keys (din_keys (perform_all (concat (map gap [m..<Suc w])) d) ! w)) [Suc m..<n]"
    by (rule map_cong) (simp_all add: later perform_all_append del: upt_Suc)
  have one: "[m..<Suc m] = [m]" by simp
  show ?case by (simp add: cons rest Let_def perform_all_append shift one del: upt_Suc)
qed

text \<open>Every key is reported as it was when its own word was read.\<close>

lemma torn_key:
  "is_key_down (fst (torn_snapshot gaps d)) k \<longleftrightarrow>
     key_down (perform_all (concat (map (gap_word gaps) [0..<Suc (unat k div k_bits_per_word)])) d) k"
proof -
  let ?f = "\<lambda>w. bit_keys (din_keys (perform_all (concat (map (gap_word gaps) [0..<Suc w])) d) ! w)"
  have "concat (map ?f [0..<k_key_words]) ! unat k
    = ?f (unat k div k_bits_per_word) ! (unat k mod k_bits_per_word)"
    using nth_blocks [of "[0..<k_key_words]" ?f k_bits_per_word
        "unat k div k_bits_per_word" "unat k mod k_bits_per_word"]
    by (simp add: div_mult_mod_eq del: upt_Suc) (simp add: key_words)
  moreover have "length (concat (map ?f [0..<k_key_words])) = 256"
    by (simp add: length_concat comp_def sum_list_triv key_words)
  moreover have "dsn_keys (fst (torn_snapshot gaps d)) = concat (map ?f [0..<k_key_words])"
    by (simp add: torn_snapshot_def read_keys_moments [of 0] Let_def del: upt_Suc)
  moreover have "unat k mod k_bits_per_word < k_bits_per_word" by (simp add: key_words)
  ultimately show ?thesis by (simp add: is_key_down_def key_down_def del: upt_Suc)
qed

lemma key_down_view:
  "key_down (apply_events es new_desktop_input) k \<longleftrightarrow> k \<in> view_keys (fold view_event es nothing_held)"
proof -
  have "view_keys (view_of (apply_events es new_desktop_input)) = view_keys (fold view_event es nothing_held)"
    using events_refine [OF desktop_ok_new, of es] by simp
  then show ?thesis by (simp add: view_of_def set_eq_iff)
qed

text \<open>
  The key words are not read together: with both keys pressed between the first two loads, the snapshot
  shows the second one down and the first one up, which no moment of the history was like.
\<close>

lemma torn_snapshot_shows_no_moment:
  "let es = [Key 0x20 True, Key 0x41 True]; as = concat (map (event_accesses False) es);
       s = fst (torn_snapshot (no_gaps\<lparr>gap_word := \<lambda>w. if w = 1 then as else []\<rparr>) new_desktop_input)
   in is_key_down s 0x41 \<and> \<not> is_key_down s 0x20
      \<and> (\<forall>n\<in>{0, 1, 2}. 0x41 \<in> view_keys (fold view_event (take n es) nothing_held)
           \<longrightarrow> 0x20 \<in> view_keys (fold view_event (take n es) nothing_held))"
  proof -
  have "perform_all (concat (map (event_accesses False) [Key 0x20 True, Key 0x41 True])) new_desktop_input
    = apply_events [Key 0x20 True, Key 0x41 True] new_desktop_input"
    by (simp add: perform_all_def apply_events_def set_key_def Let_def)
  moreover have "perform_all [] new_desktop_input = apply_events [] new_desktop_input"
    by (simp add: perform_all_def apply_events_def)
  ultimately show ?thesis
    by (simp add: Let_def torn_key key_down_view k_bits_per_word_def nothing_held_def)
qed

text \<open>The flag is read last: a snapshot that a release overlaps reports travel with an uncaptured pointer.\<close>

lemma snapshot_across_release:
  "let d = apply_events [Captured True, Travel 3 4] new_desktop_input;
       s = fst (torn_snapshot (no_gaps\<lparr>gap_captured := event_accesses True (Captured False)\<rparr>) d)
   in \<not> dsn_pointer_captured s \<and> (dsn_pointer_dx s, dsn_pointer_dy s) = (3, 4)"
  by (simp add: torn_snapshot_def no_gaps_def read_keys_no_gaps perform_all_def captured_accesses_def apply_events_def
      set_pointer_captured_def add_pointer_travel_def new_desktop_input_def Let_def)

end
