(* ===== verification/Desktop_Capture.thy ===== *)
theory Desktop_Capture imports Desktop_Input begin

text \<open>
  How a game window's keyboard and mouse reach the desktop state:
  \<open>src/system/desktop_capture_gtk.cpp\<close>. GTK is a parameter: its widget tree is data (a widget is named by its pointer), and the calls on the
  pointer act on a display state \<open>'g\<close>. Window coordinates are C++ \<open>int\<close>s, whose subtraction and addition
  are undefined outside 32 bits: a handler is \<open>None\<close> there. GTK window extents are never negative.
\<close>

section \<open>The drawing area\<close>

datatype 'w gtk_widget =
  Widget (widget_id: 'w) (is_drawing_area: bool) (is_container: bool) (widget_children: "'w gtk_widget list")

fun find_drawing_area :: "'w gtk_widget \<Rightarrow> 'w option"
  and first_drawing_area :: "'w gtk_widget list \<Rightarrow> 'w option" where
  "find_drawing_area (Widget w area container children) =
     (if area then Some w
      else if \<not> container then None
      else first_drawing_area children)"
| "first_drawing_area [] = None"
| "first_drawing_area (child # children) =
     (case find_drawing_area child of None \<Rightarrow> first_drawing_area children | Some w \<Rightarrow> Some w)"

text \<open>The drawing areas a window shows, in the order its containers list them.\<close>

fun drawing_areas :: "'w gtk_widget \<Rightarrow> 'w list" where
  "drawing_areas (Widget w area container children) =
     (if area then [w] else if container then concat (map drawing_areas children) else [])"

lemma finds_first_drawing_area:
  fixes w :: "'w gtk_widget" and ws :: "'w gtk_widget list"
  shows "find_drawing_area w = (case drawing_areas w of [] \<Rightarrow> None | a # _ \<Rightarrow> Some a)"
  "first_drawing_area ws = (case concat (map drawing_areas ws) of [] \<Rightarrow> None | a # _ \<Rightarrow> Some a)"
proof (induction w and ws rule: find_drawing_area_first_drawing_area.induct)
  case (3 child children)
  then show ?case by (cases "drawing_areas child") auto
qed auto

section \<open>The display\<close>

record 'g gtk_display =
  gdk_grab :: "'g \<Rightarrow> bool \<times> 'g"
  gdk_ungrab :: "'g \<Rightarrow> 'g"
  gdk_extent :: "'g \<Rightarrow> nat \<times> nat"
  gdk_origin :: "'g \<Rightarrow> int \<times> int"
  gdk_warp :: "int \<Rightarrow> int \<Rightarrow> 'g \<Rightarrow> 'g"

datatype xe_mouse_button = XB_None | XB_Left | XB_Right | XB_Middle | XB_X1 | XB_X2

fun desktop_button :: "xe_mouse_button \<Rightarrow> desktop_mouse_button option" where
  "desktop_button XB_Left = Some Mouse_Left"
| "desktop_button XB_Right = Some Mouse_Right"
| "desktop_button XB_Middle = Some Mouse_Middle"
| "desktop_button XB_X1 = Some Mouse_Back"
| "desktop_button XB_X2 = Some Mouse_Forward"
| "desktop_button XB_None = None"

definition is_virtual_key_code :: "u16 \<Rightarrow> bool" where
  "is_virtual_key_code key \<longleftrightarrow> (ucast key :: u32) \<le> 255"

definition k_recentre_divisor :: nat where "k_recentre_divisor = 4"

text \<open>An \<open>int\<close> expression: undefined when its value does not fit.\<close>

definition int32 :: "int \<Rightarrow> int option" where
  "int32 i = (if - (2 ^ 31) \<le> i \<and> i < 2 ^ 31 then Some i else None)"

section \<open>DesktopInputCapture\<close>

record 'g desktop_capture =
  cpt_surface :: bool
  cpt_state :: desktop_input
  cpt_captured :: bool
  cpt_have_last :: bool
  cpt_last_x :: int
  cpt_last_y :: int
  cpt_display :: 'g

definition new_desktop_capture :: "u64 gtk_widget \<Rightarrow> desktop_input \<Rightarrow> 'g \<Rightarrow> 'g desktop_capture" where
  "new_desktop_capture window d g =
     \<lparr>cpt_surface = find_drawing_area window \<noteq> None, cpt_state = d, cpt_captured = False,
      cpt_have_last = False, cpt_last_x = 0, cpt_last_y = 0, cpt_display = g\<rparr>"

definition capture_pointer :: "'g gtk_display \<Rightarrow> 'g desktop_capture \<Rightarrow> 'g desktop_capture" where
  "capture_pointer gtk c =
     (if \<not> cpt_surface c then c
      else (case gdk_grab gtk (cpt_display c) of (granted, g) \<Rightarrow>
        let c = c\<lparr>cpt_display := g\<rparr> in
        if \<not> granted then c
        else c\<lparr>cpt_captured := True, cpt_have_last := False,
               cpt_state := set_pointer_captured True (cpt_state c)\<rparr>))"

definition release_pointer :: "'g gtk_display \<Rightarrow> 'g desktop_capture \<Rightarrow> 'g desktop_capture" where
  "release_pointer gtk c =
     (if \<not> cpt_captured c then c
      else c\<lparr>cpt_display := gdk_ungrab gtk (cpt_display c), cpt_captured := False,
             cpt_have_last := False, cpt_state := set_pointer_captured False (cpt_state c)\<rparr>)"

definition surface_centre :: "'g gtk_display \<Rightarrow> 'g desktop_capture \<Rightarrow> int \<times> int" where
  "surface_centre gtk c =
     (int (fst (gdk_extent gtk (cpt_display c))) div 2, int (snd (gdk_extent gtk (cpt_display c))) div 2)"

definition near_axis :: "int \<Rightarrow> int \<Rightarrow> nat \<Rightarrow> bool option" where
  "near_axis last_position centre extent = do {
     d \<leftarrow> int32 (last_position - centre);
     away \<leftarrow> int32 \<bar>d\<bar>;
     Some (away < int extent div int k_recentre_divisor)
   }"

definition near_centre :: "'g gtk_display \<Rightarrow> 'g desktop_capture \<Rightarrow> bool option" where
  "near_centre gtk c = do {
     near_x \<leftarrow> near_axis (cpt_last_x c) (fst (surface_centre gtk c)) (fst (gdk_extent gtk (cpt_display c)));
     if near_x
     then near_axis (cpt_last_y c) (snd (surface_centre gtk c)) (snd (gdk_extent gtk (cpt_display c)))
     else Some False
   }"

definition recentre :: "'g gtk_display \<Rightarrow> 'g desktop_capture \<Rightarrow> 'g desktop_capture option" where
  "recentre gtk c = do {
     near \<leftarrow> near_centre gtk c;
     if near then Some c
     else do {
       warp_x \<leftarrow> int32 (fst (gdk_origin gtk (cpt_display c)) + fst (surface_centre gtk c));
       warp_y \<leftarrow> int32 (snd (gdk_origin gtk (cpt_display c)) + snd (surface_centre gtk c));
       Some (c\<lparr>cpt_display := gdk_warp gtk warp_x warp_y (cpt_display c),
               cpt_last_x := fst (surface_centre gtk c), cpt_last_y := snd (surface_centre gtk c)\<rparr>)
     }
   }"

definition on_key :: "u16 \<Rightarrow> bool \<Rightarrow> 'g desktop_capture \<Rightarrow> 'g desktop_capture" where
  "on_key key down c =
     (if is_virtual_key_code key then c\<lparr>cpt_state := set_key (ucast key) down (cpt_state c)\<rparr> else c)"

definition on_key_down :: "u16 \<Rightarrow> 'g desktop_capture \<Rightarrow> 'g desktop_capture" where
  "on_key_down key = on_key key True"

definition on_key_up :: "u16 \<Rightarrow> 'g desktop_capture \<Rightarrow> 'g desktop_capture" where
  "on_key_up key = on_key key False"

text \<open>The first component says whether the handler marked the event as handled.\<close>

definition on_mouse_down ::
  "'g gtk_display \<Rightarrow> xe_mouse_button \<Rightarrow> 'g desktop_capture \<Rightarrow> bool \<times> 'g desktop_capture" where
  "on_mouse_down gtk button c =
     (if \<not> cpt_captured c then (True, capture_pointer gtk c)
      else (False, case desktop_button button of
          None \<Rightarrow> c
        | Some b \<Rightarrow> c\<lparr>cpt_state := set_mouse_button b True (cpt_state c)\<rparr>))"

definition on_mouse_up :: "xe_mouse_button \<Rightarrow> 'g desktop_capture \<Rightarrow> 'g desktop_capture" where
  "on_mouse_up button c = (case desktop_button button of
      None \<Rightarrow> c
    | Some b \<Rightarrow> c\<lparr>cpt_state := set_mouse_button b False (cpt_state c)\<rparr>)"

definition on_mouse_move ::
  "'g gtk_display \<Rightarrow> int \<Rightarrow> int \<Rightarrow> 'g desktop_capture \<Rightarrow> 'g desktop_capture option" where
  "on_mouse_move gtk x y c =
     (if \<not> cpt_captured c then Some c
      else do {
        c \<leftarrow> (if cpt_have_last c
          then do {
            dx \<leftarrow> int32 (x - cpt_last_x c);
            dy \<leftarrow> int32 (y - cpt_last_y c);
            Some (c\<lparr>cpt_state := add_pointer_travel (word_of_int dx) (word_of_int dy) (cpt_state c)\<rparr>)
          }
          else Some c);
        recentre gtk (c\<lparr>cpt_last_x := x, cpt_last_y := y, cpt_have_last := True\<rparr>)
      })"

definition on_lost_focus :: "'g gtk_display \<Rightarrow> 'g desktop_capture \<Rightarrow> 'g desktop_capture" where
  "on_lost_focus gtk c =
     (let c = release_pointer gtk c in c\<lparr>cpt_state := release_all (cpt_state c)\<rparr>)"

definition destroy_capture :: "'g gtk_display \<Rightarrow> 'g desktop_capture \<Rightarrow> 'g desktop_capture" where
  "destroy_capture = release_pointer"

section \<open>The window's events\<close>

datatype window_event =
    Key_Down u16
  | Key_Up u16
  | Mouse_Down xe_mouse_button
  | Mouse_Up xe_mouse_button
  | Mouse_Move int int
  | Lost_Focus

fun deliver :: "'g gtk_display \<Rightarrow> window_event \<Rightarrow> 'g desktop_capture \<Rightarrow> 'g desktop_capture option" where
  "deliver gtk (Key_Down k) c = Some (on_key_down k c)"
| "deliver gtk (Key_Up k) c = Some (on_key_up k c)"
| "deliver gtk (Mouse_Down b) c = Some (snd (on_mouse_down gtk b c))"
| "deliver gtk (Mouse_Up b) c = Some (on_mouse_up b c)"
| "deliver gtk (Mouse_Move x y) c = on_mouse_move gtk x y c"
| "deliver gtk Lost_Focus c = Some (on_lost_focus gtk c)"

text \<open>
  The writers a handler calls on the desktop state, in its order, and the atomic accesses they make. Only the
  window's own thread stores \<open>pointer_captured\<close>, so what \<open>AddPointerTravel\<close> loads is its value when the
  handler started.
\<close>

fun handler_events :: "'g gtk_display \<Rightarrow> window_event \<Rightarrow> 'g desktop_capture \<Rightarrow> desktop_event list" where
  "handler_events gtk (Key_Down k) c = (if is_virtual_key_code k then [Key (ucast k) True] else [])"
| "handler_events gtk (Key_Up k) c = (if is_virtual_key_code k then [Key (ucast k) False] else [])"
| "handler_events gtk (Mouse_Down b) c =
     (if \<not> cpt_captured c
      then (if cpt_surface c \<and> fst (gdk_grab gtk (cpt_display c)) then [Captured True] else [])
      else (case desktop_button b of None \<Rightarrow> [] | Some b \<Rightarrow> [Mouse_Button b True]))"
| "handler_events gtk (Mouse_Up b) c =
     (case desktop_button b of None \<Rightarrow> [] | Some b \<Rightarrow> [Mouse_Button b False])"
| "handler_events gtk (Mouse_Move x y) c =
     (if cpt_captured c \<and> cpt_have_last c
      then [Travel (word_of_int (x - cpt_last_x c)) (word_of_int (y - cpt_last_y c))] else [])"
| "handler_events gtk Lost_Focus c = (if cpt_captured c then [Captured False] else []) @ [Release_All]"

definition handler_accesses :: "'g gtk_display \<Rightarrow> window_event \<Rightarrow> 'g desktop_capture \<Rightarrow> desktop_access list" where
  "handler_accesses gtk e c =
     concat (map (event_accesses (din_pointer_captured (cpt_state c))) (handler_events gtk e c))"

text \<open>
  The histories of a window: the capture starts on a fresh desktop state. A handler starts when no other
  runs and does what it does to the window's own members; its accesses to the desktop state then
  follow one by one. The guest's polls may exchange either travel counter for zero at any moment between
  them; their loads change nothing.
\<close>

inductive capture_run :: "'g gtk_display \<Rightarrow> 'g desktop_capture \<Rightarrow> desktop_access list \<Rightarrow> bool" for gtk where
  created: "capture_run gtk (new_desktop_capture window new_desktop_input g) []"
| handler: "capture_run gtk c [] \<Longrightarrow> deliver gtk e c = Some c' \<Longrightarrow>
    capture_run gtk (c'\<lparr>cpt_state := cpt_state c\<rparr>) (handler_accesses gtk e c)"
| access_made: "capture_run gtk c (a # as) \<Longrightarrow> capture_run gtk (c\<lparr>cpt_state := perform a (cpt_state c)\<rparr>) as"
| polled_dx: "capture_run gtk c as \<Longrightarrow> capture_run gtk (c\<lparr>cpt_state := perform Clear_Dx (cpt_state c)\<rparr>) as"
| polled_dy: "capture_run gtk c as \<Longrightarrow> capture_run gtk (c\<lparr>cpt_state := perform Clear_Dy (cpt_state c)\<rparr>) as"

text \<open>
  The pointer is captured exactly when the desktop state says so, and an uncaptured pointer is the
  player using the desktop: the game sees no button held and no travel.
\<close>

definition capture_ok :: "'g desktop_capture \<Rightarrow> bool" where
  "capture_ok c \<longleftrightarrow> desktop_ok (cpt_state c)
     \<and> din_pointer_captured (cpt_state c) = cpt_captured c
     \<and> (\<not> cpt_captured c \<longrightarrow> view_buttons (view_of (cpt_state c)) = {}
          \<and> view_travel (view_of (cpt_state c)) = (0, 0) \<and> \<not> cpt_have_last c)"

lemma desktop_ok_ops [simp]:
  assumes "desktop_ok d"
  shows "desktop_ok (set_key k down d)" "desktop_ok (set_mouse_button b down d)"
    "desktop_ok (add_pointer_travel dx dy d)" "desktop_ok (set_pointer_captured captured d)"
    "desktop_ok (release_all d)" "desktop_ok (snd (take_snapshot d))"
  using assms desktop_ok_event [OF assms, of "Key k down"] desktop_ok_event [OF assms, of "Mouse_Button b down"]
    desktop_ok_event [OF assms, of "Travel dx dy"] desktop_ok_event [OF assms, of "Captured captured"]
    desktop_ok_event [OF assms, of Release_All]
  by (simp_all add: take_snapshot_eq desktop_ok_def)

lemma view_of_ops [simp]:
  assumes "desktop_ok d"
  shows "view_of (set_key k down d) = view_event (Key k down) (view_of d)"
    "view_of (set_mouse_button b down d) = view_event (Mouse_Button b down) (view_of d)"
    "view_of (add_pointer_travel dx dy d) = view_event (Travel dx dy) (view_of d)"
    "view_of (set_pointer_captured captured d) = view_event (Captured captured) (view_of d)"
    "view_of (release_all d) = nothing_held"
  using view_of_event [OF assms, of "Key k down"] view_of_event [OF assms, of "Mouse_Button b down"]
    view_of_event [OF assms, of "Travel dx dy"] view_of_event [OF assms, of "Captured captured"]
    view_of_event [OF assms, of Release_All]
  by simp_all

lemma captured_view: "din_pointer_captured d = view_captured (view_of d)"
  by (simp add: view_of_def)

lemma capture_ok_view:
  "capture_ok c \<longleftrightarrow> desktop_ok (cpt_state c) \<and> view_captured (view_of (cpt_state c)) = cpt_captured c
     \<and> (\<not> cpt_captured c \<longrightarrow> view_buttons (view_of (cpt_state c)) = {}
          \<and> view_travel (view_of (cpt_state c)) = (0, 0) \<and> \<not> cpt_have_last c)"
  by (simp add: capture_ok_def captured_view)

lemma recentre_keeps:
  assumes "recentre gtk c = Some c'"
  shows "cpt_state c' = cpt_state c \<and> cpt_captured c' = cpt_captured c \<and> cpt_have_last c' = cpt_have_last c
    \<and> cpt_surface c' = cpt_surface c"
  using assms by (auto simp: recentre_def bind_eq_Some_conv split: if_splits)

lemma capture_ok_move:
  assumes ok: "capture_ok c" and move: "on_mouse_move gtk x y c = Some c'"
  shows "capture_ok c'"
proof (cases "cpt_captured c")
  case True
  obtain d where d: "desktop_ok d" "view_captured (view_of d)"
      and r: "recentre gtk (c\<lparr>cpt_state := d, cpt_last_x := x, cpt_last_y := y, cpt_have_last := True\<rparr>) = Some c'"
  proof (cases "cpt_have_last c")
    case True
    with move \<open>cpt_captured c\<close> obtain dx dy where
      "recentre gtk (c\<lparr>cpt_state := add_pointer_travel dx dy (cpt_state c), cpt_last_x := x, cpt_last_y := y,
        cpt_have_last := True\<rparr>) = Some c'"
      by (auto simp: on_mouse_move_def bind_eq_Some_conv)
    with that [of "add_pointer_travel dx dy (cpt_state c)"] ok \<open>cpt_captured c\<close> show ?thesis
      by (simp add: capture_ok_view)
  next
    case False
    with move \<open>cpt_captured c\<close> have
      "recentre gtk (c\<lparr>cpt_state := cpt_state c, cpt_last_x := x, cpt_last_y := y, cpt_have_last := True\<rparr>) = Some c'"
      by (simp add: on_mouse_move_def)
    with that [of "cpt_state c"] ok \<open>cpt_captured c\<close> show ?thesis by (simp add: capture_ok_view)
  qed
  with recentre_keeps [OF r] True show ?thesis by (simp add: capture_ok_view)
qed (use assms in \<open>simp add: on_mouse_move_def\<close>)

lemma capture_ok_capture:
  assumes "capture_ok c"
  shows "capture_ok (capture_pointer gtk c)"
proof (cases "gdk_grab gtk (cpt_display c)")
  case (Pair granted g)
  with assms show ?thesis by (simp add: capture_pointer_def capture_ok_view Let_def)
qed

lemma capture_ok_release:
  "capture_ok c \<Longrightarrow> capture_ok (on_lost_focus gtk c)"
  by (simp add: on_lost_focus_def release_pointer_def capture_ok_view nothing_held_def Let_def)

lemma capture_ok_button:
  "capture_ok c \<Longrightarrow> cpt_captured c \<or> \<not> down \<Longrightarrow>
    capture_ok (c\<lparr>cpt_state := set_mouse_button b down (cpt_state c)\<rparr>)"
  by (cases "cpt_captured c") (simp_all add: capture_ok_view)

lemma capture_ok_key: "capture_ok c \<Longrightarrow> capture_ok (on_key key down c)"
  by (simp add: on_key_def capture_ok_view)

lemma capture_ok_event:
  assumes "capture_ok c" "deliver gtk e c = Some c'"
  shows "capture_ok c'"
proof (cases e)
  case (Mouse_Down b)
  with assms show ?thesis
    by (cases "cpt_captured c")
      (auto simp: on_mouse_down_def capture_ok_capture intro: capture_ok_button split: option.splits)
next
  case (Mouse_Up b)
  with assms show ?thesis by (auto simp: on_mouse_up_def intro: capture_ok_button split: option.splits)
next
  case (Mouse_Move x y)
  with assms capture_ok_move show ?thesis by simp blast
qed (use assms in \<open>auto simp: on_key_down_def on_key_up_def capture_ok_release capture_ok_key\<close>)

text \<open>A handler's accesses, with nothing in between, have the handler's effect on the desktop state.\<close>

lemma handler_events_effect:
  assumes "deliver gtk e c = Some c'"
  shows "cpt_state c' = apply_events (handler_events gtk e c) (cpt_state c)"
proof (cases e)
  case (Mouse_Down b)
  with assms show ?thesis
    by (cases "gdk_grab gtk (cpt_display c)")
      (auto simp: apply_events_def on_mouse_down_def capture_pointer_def Let_def split: option.splits)
next
  case (Mouse_Move x y)
  with assms recentre_keeps show ?thesis
    by (fastforce simp: apply_events_def on_mouse_move_def int32_def bind_eq_Some_conv split: if_splits)
qed (use assms in \<open>auto simp: apply_events_def on_key_down_def on_key_up_def on_key_def on_mouse_up_def
    on_lost_focus_def release_pointer_def Let_def split: option.splits\<close>)

lemma handler_events_steady:
  "handler_events gtk e c = es \<Longrightarrow> length es \<le> 1 \<or> es = [Captured False, Release_All]"
  by (cases e) (auto split: option.splits)

lemma handler_accesses_effect:
  assumes "deliver gtk e c = Some c'" "desktop_ok (cpt_state c)"
  shows "perform_all (handler_accesses gtk e c) (cpt_state c) = cpt_state c'"
proof -
  from handler_events_steady [OF refl, of gtk e c] consider
      "handler_events gtk e c = []" | ev where "handler_events gtk e c = [ev]"
    | "handler_events gtk e c = [Captured False, Release_All]"
    by (auto simp: le_Suc_eq length_Suc_conv)
  then show ?thesis
  proof cases
    case 3
    have "perform_all (event_accesses p Release_All) d = apply_event Release_All d" if "desktop_ok d" for p d
      using perform_event [OF that, of Release_All] by simp
    moreover have "perform_all (event_accesses p (Captured False)) d = apply_event (Captured False) d" for p d
      by (simp add: perform_all_def captured_accesses_def set_pointer_captured_def Let_def)
    ultimately show ?thesis
      using handler_events_effect [OF assms(1)] 3 assms(2)
      by (simp add: handler_accesses_def perform_all_append apply_events_def del: event_accesses.simps apply_event.simps)
  qed (use handler_events_effect [OF assms(1)] perform_event [OF assms(2)] in
      \<open>simp_all add: handler_accesses_def apply_events_def perform_all_def\<close>)
qed

text \<open>Accesses that add no travel.\<close>

fun adds_travel :: "desktop_access \<Rightarrow> bool" where
  "adds_travel (Add_Dx dx) \<longleftrightarrow> True"
| "adds_travel (Add_Dy dy) \<longleftrightarrow> True"
| "adds_travel a \<longleftrightarrow> False"

lemma no_travel_stays:
  assumes "\<forall>a\<in>set as. \<not> adds_travel a"
  shows "din_pointer_dx d = 0 \<Longrightarrow> din_pointer_dx (perform_all as d) = 0"
    and "din_pointer_dy d = 0 \<Longrightarrow> din_pointer_dy (perform_all as d) = 0"
proof -
  have "din_pointer_dx d = 0 \<Longrightarrow> din_pointer_dx (perform a d) = 0"
      "din_pointer_dy d = 0 \<Longrightarrow> din_pointer_dy (perform a d) = 0" if "\<not> adds_travel a" for a d
    using that by (cases a; simp)+
  with assms show "din_pointer_dx d = 0 \<Longrightarrow> din_pointer_dx (perform_all as d) = 0"
    and "din_pointer_dy d = 0 \<Longrightarrow> din_pointer_dy (perform_all as d) = 0"
    by (induction as arbitrary: d) (simp_all add: perform_all_def)
qed

text \<open>Everything but the travel does not see a poll.\<close>

definition same_devices :: "desktop_input \<Rightarrow> desktop_input \<Rightarrow> bool" where
  "same_devices d d' \<longleftrightarrow> din_keys d' = din_keys d \<and> din_mouse_buttons d' = din_mouse_buttons d
     \<and> din_pointer_captured d' = din_pointer_captured d"

lemma same_devices_all: "same_devices d d' \<Longrightarrow> same_devices (perform_all as d) (perform_all as d')"
proof (induction as arbitrary: d d')
  case (Cons a as)
  then have "same_devices (perform a d) (perform a d')" by (cases a) (simp_all add: same_devices_def)
  from Cons.IH [OF this] show ?case by (simp add: perform_all_def)
qed (simp add: perform_all_def)

lemma dx_of_dx: "din_pointer_dx d = din_pointer_dx d' \<Longrightarrow> din_pointer_dx (perform_all as d) = din_pointer_dx (perform_all as d')"
proof (induction as arbitrary: d d')
  case (Cons a as)
  then have "din_pointer_dx (perform a d) = din_pointer_dx (perform a d')" by (cases a) simp_all
  from Cons.IH [OF this] show ?case by (simp add: perform_all_def)
qed (simp add: perform_all_def)

lemma dy_of_dy: "din_pointer_dy d = din_pointer_dy d' \<Longrightarrow> din_pointer_dy (perform_all as d) = din_pointer_dy (perform_all as d')"
proof (induction as arbitrary: d d')
  case (Cons a as)
  then have "din_pointer_dy (perform a d) = din_pointer_dy (perform a d')" by (cases a) simp_all
  from Cons.IH [OF this] show ?case by (simp add: perform_all_def)
qed (simp add: perform_all_def)

lemma travel_untouched:
  "din_pointer_dy (perform_all as (d\<lparr>din_pointer_dx := z\<rparr>)) = din_pointer_dy (perform_all as d)"
  "din_pointer_dx (perform_all as (d\<lparr>din_pointer_dy := z\<rparr>)) = din_pointer_dx (perform_all as d)"
  by (rule dy_of_dy, simp) (rule dx_of_dx, simp)

text \<open>What holds at every moment: the running handler's remaining accesses lead to a state in order, and an
  uncaptured pointer's handler adds no travel.\<close>

definition run_ok :: "'g desktop_capture \<Rightarrow> desktop_access list \<Rightarrow> bool" where
  "run_ok c as \<longleftrightarrow> capture_ok (c\<lparr>cpt_state := perform_all as (cpt_state c)\<rparr>)
     \<and> (\<not> cpt_captured c \<longrightarrow> (\<forall>a\<in>set as. \<not> adds_travel a))"

lemma view_cong:
  "same_devices d d' \<Longrightarrow> view_of d' = (view_of d)\<lparr>view_travel := (din_pointer_dx d', din_pointer_dy d')\<rparr>"
  by (simp add: same_devices_def view_of_def key_down_def)

lemma run_ok_poll:
  assumes "run_ok c as" "a = Clear_Dx \<or> a = Clear_Dy"
  shows "run_ok (c\<lparr>cpt_state := perform a (cpt_state c)\<rparr>) as"
proof -
  let ?d = "perform_all as (cpt_state c)" and ?d' = "perform_all as (perform a (cpt_state c))"
  have "same_devices (cpt_state c) (perform a (cpt_state c))" using assms(2) by (auto simp: same_devices_def)
  then have same: "same_devices ?d ?d'" by (rule same_devices_all)
  have "din_pointer_dx ?d' = 0" "din_pointer_dy ?d' = 0" if "\<not> cpt_captured c"
  proof -
    from that assms(1) have none: "\<forall>a\<in>set as. \<not> adds_travel a"
        and zero: "din_pointer_dx ?d = 0" "din_pointer_dy ?d = 0"
      by (simp_all add: run_ok_def capture_ok_def view_of_def)
    show "din_pointer_dx ?d' = 0"
      using assms(2) zero no_travel_stays(1) [OF none, of "perform Clear_Dx (cpt_state c)"]
      by (auto simp: travel_untouched)
    show "din_pointer_dy ?d' = 0"
      using assms(2) zero no_travel_stays(2) [OF none, of "perform Clear_Dy (cpt_state c)"]
      by (auto simp: travel_untouched)
  qed
  with assms(1) same view_cong [OF same] show ?thesis
    by (simp add: run_ok_def capture_ok_def same_devices_def desktop_ok_def)
qed

lemma handler_adds_no_travel:
  assumes "deliver gtk e c = Some c'" "\<not> cpt_captured c'" "a \<in> set (handler_accesses gtk e c)"
  shows "\<not> adds_travel a"
proof (cases e)
  case (Mouse_Move x y)
  with assms recentre_keeps show ?thesis
    by (fastforce simp: handler_accesses_def on_mouse_move_def bind_eq_Some_conv split: if_splits)
qed (use assms in \<open>auto simp: handler_accesses_def captured_accesses_def Let_def split: option.splits if_splits\<close>)

lemma capture_run_ok: "capture_run gtk c as \<Longrightarrow> run_ok c as"
proof (induction rule: capture_run.induct)
  case (created window g)
  then show ?case by (simp add: run_ok_def perform_all_def new_desktop_capture_def capture_ok_view nothing_held_def)
next
  case (handler c e c')
  from handler.IH have ok: "capture_ok c" by (simp add: run_ok_def perform_all_def)
  then have "desktop_ok (cpt_state c)" by (simp add: capture_ok_def)
  from handler_accesses_effect [OF handler.hyps(2) this] capture_ok_event [OF ok handler.hyps(2)]
    handler_adds_no_travel [OF handler.hyps(2)]
  show ?case by (simp add: run_ok_def)
next
  case (access_made c a as)
  then show ?case by (simp add: run_ok_def perform_all_def)
next
  case (polled_dx c as)
  from run_ok_poll [OF polled_dx.IH, of Clear_Dx] show ?case by simp
next
  case (polled_dy c as)
  from run_ok_poll [OF polled_dy.IH, of Clear_Dy] show ?case by simp
qed

text \<open>What a snapshot of such a state reports.\<close>

definition snapshot_ok :: "'g desktop_capture \<Rightarrow> desktop_snapshot \<Rightarrow> bool" where
  "snapshot_ok c s \<longleftrightarrow> dsn_pointer_captured s = cpt_captured c
     \<and> (\<not> cpt_captured c \<longrightarrow> (\<forall>b. \<not> is_button_down s b) \<and> dsn_pointer_dx s = 0 \<and> dsn_pointer_dy s = 0)"

lemma capture_ok_snapshot:
  assumes "capture_ok c"
  shows "snapshot_ok c (fst (take_snapshot (cpt_state c)))"
proof -
  let ?s = "fst (take_snapshot (cpt_state c))"
  have "dsn_pointer_captured ?s = cpt_captured c" using assms by (simp add: take_snapshot_eq capture_ok_def)
  moreover have "dsn_pointer_dx ?s = 0 \<and> dsn_pointer_dy ?s = 0" if "\<not> cpt_captured c"
    using assms that by (simp add: take_snapshot_eq capture_ok_def view_of_def)
  moreover have "\<not> is_button_down ?s b" if "\<not> cpt_captured c" for b
    using assms that unfolding snapshot_button by (simp add: capture_ok_def view_of_def)
  ultimately show ?thesis by (simp add: snapshot_ok_def)
qed

text \<open>C33: at every moment of every history, in which the guest's polls fall between any two atomic accesses of
  the window's handlers, the accesses that the running handler still has to make lead to a state that
  reports the pointer captured exactly when the window holds it and, while it does not, shows no mouse
  button held and no travel. So that is what the desktop state shows whenever no handler is running, and
  what a snapshot reports that no handler interrupts. A snapshot that overlaps a handler may differ: see
  \<open>poll_during_lost_focus\<close>.
\<close>

theorem uncaptured_pointer_is_the_desktops:
  assumes "capture_run gtk c as"
  shows "capture_ok (c\<lparr>cpt_state := perform_all as (cpt_state c)\<rparr>)
    \<and> (as = [] \<longrightarrow> snapshot_ok c (fst (take_snapshot (cpt_state c))))"
proof -
  from capture_run_ok [OF assms] have "capture_ok (c\<lparr>cpt_state := perform_all as (cpt_state c)\<rparr>)"
    by (simp add: run_ok_def)
  then show ?thesis using capture_ok_snapshot [of c] by (auto simp: perform_all_def)
qed

section \<open>Travel\<close>

text \<open>
  The pointer on the screen: where it is, in the coordinates of \<open>gdk_window_get_origin\<close>, and what the player's hand does to it.
  A warp to the window's centre puts it there, and neither a warp nor the hand moves the window.
\<close>

record 'g pointer =
  ptr_position :: "'g \<Rightarrow> int \<times> int"
  ptr_nudge :: "int \<times> int \<Rightarrow> 'g \<Rightarrow> 'g"

definition pointer_laws :: "'g gtk_display \<Rightarrow> 'g pointer \<Rightarrow> bool" where
  "pointer_laws gtk ptr \<longleftrightarrow>
     (\<forall>g. let centre = (fst (gdk_origin gtk g) + int (fst (gdk_extent gtk g)) div 2,
                       snd (gdk_origin gtk g) + int (snd (gdk_extent gtk g)) div 2);
              g' = gdk_warp gtk (fst centre) (snd centre) g
          in ptr_position ptr g' = centre \<and> gdk_origin gtk g' = gdk_origin gtk g)
     \<and> (\<forall>d g. let g' = ptr_nudge ptr d g in
          ptr_position ptr g' = (fst (ptr_position ptr g) + fst d, snd (ptr_position ptr g) + snd d)
          \<and> gdk_origin gtk g' = gdk_origin gtk g)"

text \<open>The pointer relative to the window, which is what a mouse event carries.\<close>

definition pointer_in_window :: "'g gtk_display \<Rightarrow> 'g pointer \<Rightarrow> 'g \<Rightarrow> int \<times> int" where
  "pointer_in_window gtk ptr g =
     (fst (ptr_position ptr g) - fst (gdk_origin gtk g), snd (ptr_position ptr g) - snd (gdk_origin gtk g))"

text \<open>The player moves the pointer, and the window handles each motion before the next.\<close>

fun drag ::
  "'g gtk_display \<Rightarrow> 'g pointer \<Rightarrow> (int \<times> int) list \<Rightarrow> 'g desktop_capture \<Rightarrow> 'g desktop_capture option" where
  "drag gtk ptr [] c = Some c"
| "drag gtk ptr (d # ds) c =
     (let g = ptr_nudge ptr d (cpt_display c); at = pointer_in_window gtk ptr g in
      do { c \<leftarrow> on_mouse_move gtk (fst at) (snd at) (c\<lparr>cpt_display := g\<rparr>); drag gtk ptr ds c })"

text \<open>The last position the handlers remember is the pointer's.\<close>

definition in_sync :: "'g gtk_display \<Rightarrow> 'g pointer \<Rightarrow> 'g desktop_capture \<Rightarrow> bool" where
  "in_sync gtk ptr c \<longleftrightarrow> cpt_captured c \<and> cpt_have_last c \<and> din_pointer_captured (cpt_state c)
     \<and> (cpt_last_x c, cpt_last_y c) = pointer_in_window gtk ptr (cpt_display c)"

lemma recentre_in_sync:
  assumes "pointer_laws gtk ptr" "recentre gtk c = Some c'"
    and "(cpt_last_x c, cpt_last_y c) = pointer_in_window gtk ptr (cpt_display c)"
  shows "(cpt_last_x c', cpt_last_y c') = pointer_in_window gtk ptr (cpt_display c')"
proof -
  note warp = conjunct1 [OF assms(1) [unfolded pointer_laws_def], rule_format, of "cpt_display c"]
  from assms(2) consider "c' = c"
    | "c' = c\<lparr>cpt_display := gdk_warp gtk
          (fst (gdk_origin gtk (cpt_display c)) + int (fst (gdk_extent gtk (cpt_display c))) div 2)
          (snd (gdk_origin gtk (cpt_display c)) + int (snd (gdk_extent gtk (cpt_display c))) div 2) (cpt_display c),
        cpt_last_x := int (fst (gdk_extent gtk (cpt_display c))) div 2,
        cpt_last_y := int (snd (gdk_extent gtk (cpt_display c))) div 2\<rparr>"
    by (auto simp: recentre_def surface_centre_def int32_def bind_eq_Some_conv split: if_splits)
  then show ?thesis
  proof cases
    case 2
    with warp show ?thesis by (simp add: pointer_in_window_def Let_def)
  qed (use assms(3) in simp)
qed

lemma move_in_sync:
  assumes "pointer_laws gtk ptr" "on_mouse_move gtk x y c = Some c'" "cpt_captured c"
    and "din_pointer_captured (cpt_state c)" "(x, y) = pointer_in_window gtk ptr (cpt_display c)"
  shows "in_sync gtk ptr c' \<and> cpt_state c' = (if cpt_have_last c
    then add_pointer_travel (word_of_int (x - cpt_last_x c)) (word_of_int (y - cpt_last_y c)) (cpt_state c)
    else cpt_state c)"
proof -
  let ?d = "if cpt_have_last c
    then add_pointer_travel (word_of_int (x - cpt_last_x c)) (word_of_int (y - cpt_last_y c)) (cpt_state c)
    else cpt_state c"
  from assms(2,3) have r:
    "recentre gtk (c\<lparr>cpt_state := ?d, cpt_last_x := x, cpt_last_y := y, cpt_have_last := True\<rparr>) = Some c'"
    by (auto simp: on_mouse_move_def int32_def bind_eq_Some_conv split: if_splits)
  from recentre_in_sync [OF assms(1) r] recentre_keeps [OF r] assms(3-5) show ?thesis
    by (simp add: in_sync_def add_pointer_travel_def)
qed

text \<open>C34: once a handler has seen the captured pointer, the travel it reports is the distance the player's
  hand moved it on the screen, modulo the counters' width: the warps that put the pointer back in the
  centre add nothing and lose nothing, no other device changes, and the handlers still know where the
  pointer is. Each motion is handled before the next, and the window's centre is on the screen.
\<close>

theorem warps_report_no_travel:
  assumes "pointer_laws gtk ptr" "in_sync gtk ptr c" "drag gtk ptr ds c = Some c'"
  shows "cpt_state c' = (cpt_state c)\<lparr>
      din_pointer_dx := din_pointer_dx (cpt_state c) + word_of_int (sum_list (map fst ds)),
      din_pointer_dy := din_pointer_dy (cpt_state c) + word_of_int (sum_list (map snd ds))\<rparr>
    \<and> in_sync gtk ptr c'"
  using assms(2,3)
proof (induction ds arbitrary: c)
  case (Cons d ds)
  let ?g = "ptr_nudge ptr d (cpt_display c)"
  let ?at = "pointer_in_window gtk ptr ?g"
  from Cons.prems(2) obtain c1 where c1: "on_mouse_move gtk (fst ?at) (snd ?at) (c\<lparr>cpt_display := ?g\<rparr>) = Some c1"
      "drag gtk ptr ds c1 = Some c'"
    by (auto simp: bind_eq_Some_conv Let_def)
  from Cons.prems(1) have c: "cpt_captured c" "cpt_have_last c" "din_pointer_captured (cpt_state c)"
      "(cpt_last_x c, cpt_last_y c) = pointer_in_window gtk ptr (cpt_display c)" by (simp_all add: in_sync_def)
  have "fst ?at - cpt_last_x c = fst d" "snd ?at - cpt_last_y c = snd d"
    using c(4) conjunct2 [OF assms(1) [unfolded pointer_laws_def], rule_format, of d "cpt_display c"]
    by (simp_all add: pointer_in_window_def Let_def)
  with move_in_sync [OF assms(1) c1(1)] c have "in_sync gtk ptr c1"
      "cpt_state c1 = add_pointer_travel (word_of_int (fst d)) (word_of_int (snd d)) (cpt_state c)" by simp_all
  with Cons.IH [OF _ c1(2)] c(3) show ?case by (simp add: add_pointer_travel_def algebra_simps)
qed simp

text \<open>The first motion after a capture reports nothing; it tells the handlers where the pointer is.\<close>

lemma first_motion_syncs:
  assumes "pointer_laws gtk ptr" "cpt_captured c" "\<not> cpt_have_last c" "din_pointer_captured (cpt_state c)"
    and "drag gtk ptr [d] c = Some c'"
  shows "in_sync gtk ptr c' \<and> cpt_state c' = cpt_state c"
  using assms move_in_sync [OF assms(1), where c = "c\<lparr>cpt_display := ptr_nudge ptr d (cpt_display c)\<rparr>"]
  by (simp add: Let_def bind_eq_Some_conv)

text \<open>A desktop with a window of 800 by 600 at (100, 50); its state is where the pointer is.\<close>

definition toy_display :: "(int \<times> int) gtk_display" where
  "toy_display = \<lparr>gdk_grab = \<lambda>g. (True, g), gdk_ungrab = \<lambda>g. g, gdk_extent = \<lambda>_. (800, 600),
     gdk_origin = \<lambda>_. (100, 50), gdk_warp = \<lambda>x y _. (x, y)\<rparr>"

definition toy_pointer :: "(int \<times> int) pointer" where
  "toy_pointer = \<lparr>ptr_position = \<lambda>g. g, ptr_nudge = \<lambda>d g. (fst g + fst d, snd g + snd d)\<rparr>"

lemma toy_pointer_laws: "pointer_laws toy_display toy_pointer"
  by (simp add: pointer_laws_def toy_display_def toy_pointer_def)

definition toy_window :: "u64 gtk_widget" where
  "toy_window = Widget 0 False True [Widget 1 False False [], Widget 2 True False []]"

lemmas capture_steps = on_mouse_down_def capture_pointer_def on_mouse_move_def recentre_def near_centre_def near_axis_def surface_centre_def toy_display_def
  int32_def k_recentre_divisor_def set_pointer_captured_def add_pointer_travel_def

text \<open>The click that captures the pointer, and its first position; then the left button is pressed.\<close>

definition toy_capture :: "(int \<times> int) desktop_capture" where
  "toy_capture = \<lparr>cpt_surface = True, cpt_state = new_desktop_input\<lparr>din_pointer_captured := True\<rparr>,
     cpt_captured = True, cpt_have_last = True, cpt_last_x = 400, cpt_last_y = 300, cpt_display = (500, 350)\<rparr>"

abbreviation toy_new :: "(int \<times> int) desktop_capture" where
  "toy_new \<equiv> new_desktop_capture toy_window new_desktop_input (500, 350)"

lemma toy_capture_reached: "capture_run toy_display toy_capture []"
proof -
  have new: "capture_run toy_display toy_new []" by (rule created)
  have click: "deliver toy_display (Mouse_Down XB_Left) toy_new
      = Some (toy_capture\<lparr>cpt_have_last := False, cpt_last_x := 0, cpt_last_y := 0\<rparr>)" (is "_ = Some ?c")
    by (simp add: capture_steps new_desktop_capture_def toy_window_def toy_capture_def Let_def)
  have "handler_accesses toy_display (Mouse_Down XB_Left) toy_new = [Store_Captured True]"
    by (simp add: handler_accesses_def captured_accesses_def new_desktop_capture_def toy_window_def toy_display_def)
  from access_made [OF handler [OF new click, unfolded this]] have one: "capture_run toy_display ?c []"
    by (simp add: new_desktop_capture_def toy_capture_def)
  have move: "deliver toy_display (Mouse_Move 400 300) ?c = Some toy_capture"
    by (simp add: capture_steps toy_capture_def Let_def)
  have "handler_accesses toy_display (Mouse_Move 400 300) ?c = []" by (simp add: handler_accesses_def)
  from handler [OF one move, unfolded this] show ?thesis by (simp add: toy_capture_def)
qed

definition toy_pressed :: "(int \<times> int) desktop_capture" where
  "toy_pressed = toy_capture\<lparr>cpt_state := (cpt_state toy_capture)\<lparr>din_mouse_buttons := 1\<rparr>\<rparr>"

lemma toy_pressed_reached: "capture_run toy_display toy_pressed []"
proof -
  have press: "deliver toy_display (Mouse_Down XB_Left) toy_capture = Some toy_pressed"
    by (simp add: on_mouse_down_def toy_capture_def toy_pressed_def set_mouse_button_def button_bit_def new_desktop_input_def)
  have "handler_accesses toy_display (Mouse_Down XB_Left) toy_capture = [Or_Buttons 1]"
    by (simp add: handler_accesses_def toy_capture_def button_bit_def)
  from access_made [OF handler [OF toy_capture_reached press, unfolded this]] show ?thesis
    by (simp add: toy_pressed_def toy_capture_def new_desktop_input_def)
qed

text \<open>Losing focus with the button held, stopped after its first access.\<close>

definition toy_losing :: "(int \<times> int) desktop_capture" where
  "toy_losing = toy_pressed\<lparr>cpt_captured := False, cpt_have_last := False,
     cpt_state := (cpt_state toy_pressed)\<lparr>din_pointer_captured := False\<rparr>\<rparr>"

abbreviation losing_rest :: "desktop_access list" where
  "losing_rest \<equiv> [Clear_Dx, Clear_Dy] @ event_accesses True Release_All"

lemma toy_losing_reached: "capture_run toy_display toy_losing losing_rest"
proof -
  have lose: "deliver toy_display Lost_Focus toy_pressed = Some (on_lost_focus toy_display toy_pressed)" by simp
  have "handler_accesses toy_display Lost_Focus toy_pressed = Store_Captured False # losing_rest"
    by (simp add: handler_accesses_def toy_pressed_def toy_capture_def captured_accesses_def)
  from access_made [OF handler [OF toy_pressed_reached lose, unfolded this]] show ?thesis
    by (simp add: toy_losing_def on_lost_focus_def release_pointer_def toy_pressed_def toy_capture_def toy_display_def Let_def)
qed

text \<open>A poll at that moment sees a pointer that is not captured and a button held.\<close>

lemma poll_during_lost_focus:
  "capture_run toy_display toy_losing losing_rest
   \<and> (case fst (take_snapshot (cpt_state toy_losing)) of s \<Rightarrow> \<not> dsn_pointer_captured s \<and> is_button_down s Mouse_Left)"
  using toy_losing_reached
  by (simp add: take_snapshot_eq is_button_down_def toy_losing_def toy_pressed_def toy_capture_def button_bit_def)

theorem uncaptured_pointer_is_the_desktops_witness:
  "view_buttons (view_of (perform_all losing_rest (cpt_state toy_losing))) = {}
   \<and> dsn_pointer_captured (fst (take_snapshot (cpt_state toy_pressed)))"
  using uncaptured_pointer_is_the_desktops [OF toy_losing_reached]
    uncaptured_pointer_is_the_desktops [OF toy_pressed_reached]
  by (simp add: capture_ok_def snapshot_ok_def toy_losing_def) (simp add: toy_pressed_def toy_capture_def)

lemma warps_report_no_travel_witness:
  "map_option (\<lambda>c. (din_pointer_dx (cpt_state c), cpt_display c))
     (drag toy_display toy_pointer [(250, 0), (-30, 7), (-10, 1)] toy_capture) = Some (210, (460, 358))"
proof -
  have run: "map_option cpt_display (drag toy_display toy_pointer [(250, 0), (-30, 7), (-10, 1)] toy_capture) = Some (460, 358)"
    by (simp add: capture_steps toy_pointer_def pointer_in_window_def toy_capture_def Let_def)
  then obtain c where c: "drag toy_display toy_pointer [(250, 0), (-30, 7), (-10, 1)] toy_capture = Some c" by auto
  have "in_sync toy_display toy_pointer toy_capture"
    by (simp add: in_sync_def toy_capture_def pointer_in_window_def toy_pointer_def toy_display_def)
  from warps_report_no_travel [OF toy_pointer_laws this c] c run show ?thesis
    by (simp add: toy_capture_def new_desktop_input_def)
qed

text \<open>The first click only captures, a key outside the virtual codes is ignored, and losing focus lets go of all.\<close>

lemma first_click_is_no_input:
  assumes "\<not> cpt_captured c" "on_mouse_down gtk b c = (handled, c')"
  shows "handled \<and> din_mouse_buttons (cpt_state c') = din_mouse_buttons (cpt_state c)
    \<and> din_keys (cpt_state c') = din_keys (cpt_state c)"
  using assms by (auto simp: on_mouse_down_def capture_pointer_def set_pointer_captured_def Let_def
    split: prod.splits if_splits)

lemma lost_focus_lets_go:
  assumes "desktop_ok (cpt_state c)"
  shows "view_of (cpt_state (on_lost_focus gtk c)) = nothing_held \<and> \<not> cpt_captured (on_lost_focus gtk c)"
  using assms by (simp add: on_lost_focus_def release_pointer_def Let_def)

end
