(* ===== verification/Process_Owners.thy ===== *)
theory Process_Owners imports Runtime_Lifecycle System_Session begin

text \<open>
  The two owners of Xenia in one process: runtimes (\<open>src/runtime.cpp\<close>) and full systems
  (\<open>src/system/system_session.cpp\<close>) share the lease of \<open>src/xenia_instance_lease.cpp\<close>. The step relation
  \<open>process_step\<close> creates, uses and destroys both in any order; every step names the Xenia state it
  starts from, so the owners' own states do not matter here. A destroyed session that was launched ends
  the process, after which there is no step.
\<close>

record ('h, 'c, 'w, 'x, 'd, 'y, 'r, 'v) process =
  prc_leases :: leases
  prc_sessions :: "nat \<Rightarrow> ('h, 'c, 'w failure_sink, 'x) session option"
  prc_runtimes :: "nat \<Rightarrow> ('y, 'd, 'r, 'v) runtime option"

definition new_process :: "('h, 'c, 'w, 'x, 'd, 'y, 'r, 'v) process" where
  "new_process = \<lparr>prc_leases = no_leases, prc_sessions = (\<lambda>_. None), prc_runtimes = (\<lambda>_. None)\<rparr>"

definition owner_live :: "('h, 'c, 'w, 'x, 'd, 'y, 'r, 'v) process \<Rightarrow> nat \<Rightarrow> bool" where
  "owner_live p i \<longleftrightarrow> prc_sessions p i \<noteq> None \<or> prc_runtimes p i \<noteq> None"

inductive process_step ::
  "(('h, 'c, 'w failure_sink, 'x) session, 'c, 'x) console \<Rightarrow> 'y xenia \<Rightarrow>
   ('h, 'c, 'w, 'x, 'd, 'y, 'r, 'v) process \<Rightarrow> ('h, 'c, 'w, 'x, 'd, 'y, 'r, 'v) process \<Rightarrow> bool"
  for con and xn where
  Session_Created: "\<not> owner_live p i \<Longrightarrow>
    create_offscreen con i cfg (prc_leases p) x = Some (Inr (f, ls, Some s, x')) \<Longrightarrow>
    process_step con xn p (p\<lparr>prc_leases := ls, prc_sessions := (prc_sessions p)(i \<mapsto> s)\<rparr>)"
| Session_Refused: "\<not> owner_live p i \<Longrightarrow>
    create_offscreen con i cfg (prc_leases p) x
      = Some (Inr (f, ls, None :: ('h, 'c, 'w failure_sink, 'x) session option, x')) \<Longrightarrow>
    process_step con xn p (p\<lparr>prc_leases := ls\<rparr>)"
| Session_Launched: "prc_sessions p i = Some s \<Longrightarrow> ses_emulator s \<Longrightarrow> session_launch con s x = (f, s', x') \<Longrightarrow>
    process_step con xn p (p\<lparr>prc_sessions := (prc_sessions p)(i \<mapsto> s')\<rparr>)"
| Session_Destroyed: "prc_sessions p i = Some s \<Longrightarrow> destroy_session con (prc_leases p) s x = Inr (ls, x') \<Longrightarrow>
    process_step con xn p (p\<lparr>prc_leases := ls, prc_sessions := (prc_sessions p)(i := None)\<rparr>)"
| Runtime_Created: "\<not> owner_live p i \<Longrightarrow> runtime_create xn i (prc_leases p) y = (f, ls, Inl rt) \<Longrightarrow>
    process_step con xn p (p\<lparr>prc_leases := ls, prc_runtimes := (prc_runtimes p)(i \<mapsto> rt)\<rparr>)"
| Runtime_Refused: "\<not> owner_live p i \<Longrightarrow>
    runtime_create xn i (prc_leases p) y = (f, ls, Inr y' :: ('y, 'd, 'r, 'v) runtime + 'y) \<Longrightarrow>
    process_step con xn p (p\<lparr>prc_leases := ls\<rparr>)"
| Runtime_Loaded: "prc_runtimes p i = Some rt \<Longrightarrow> load_module xn (resolve :: nat \<Rightarrow> 'd option \<Rightarrow> guest_address) m bindings rt = Some (f, rt') \<Longrightarrow>
    process_step con xn p (p\<lparr>prc_runtimes := (prc_runtimes p)(i \<mapsto> rt')\<rparr>)"
| Runtime_Destroyed: "prc_runtimes p i = Some rt \<Longrightarrow> destroy_runtime xn (prc_leases p) rt = (ls, y') \<Longrightarrow>
    process_step con xn p (p\<lparr>prc_leases := ls, prc_runtimes := (prc_runtimes p)(i := None)\<rparr>)"

inductive process_reachable ::
  "(('h, 'c, 'w failure_sink, 'x) session, 'c, 'x) console \<Rightarrow> 'y xenia \<Rightarrow>
   ('h, 'c, 'w, 'x, 'd, 'y, 'r, 'v) process \<Rightarrow> bool" for con and xn where
  Begin: "process_reachable con xn new_process"
| Continue: "process_reachable con xn p \<Longrightarrow> process_step con xn p p' \<Longrightarrow> process_reachable con xn p'"

section \<open>What each owner does to the lease\<close>

lemma runtime_initialize_lease:
  assumes "runtime_initialize xn (leases_of h) rt = (f, ls, rt')"
  shows "rt_owner rt' = rt_owner rt \<and>
    (if h = None \<or> h = Some (rt_owner rt) then ls = leases_of (Some (rt_owner rt))
     else ls = leases_of h \<and> fail_error f = InstanceAlreadyActive)"
  using assms
  by (auto simp: runtime_initialize_def acquire_leases_of Let_def set_xenia_def split: if_splits prod.splits)

lemma runtime_create_lease:
  fixes created :: "('x, 'c, 'r, 'v) runtime + 'x"
  assumes "runtime_create xn owner (leases_of h) y = (f, ls, created)" "h \<noteq> Some owner"
  shows "(case created of Inl rt \<Rightarrow> h = None \<and> ls = leases_of (Some owner) \<and> rt_owner rt = owner
      | Inr y' \<Rightarrow> ls = leases_of h)
    \<and> (h \<noteq> None \<longrightarrow> fail_error f = InstanceAlreadyActive)"
proof -
  obtain g ls1 rt where
    i: "runtime_initialize xn (leases_of h) (new_runtime owner y :: ('x, 'c, 'r, 'v) runtime) = (g, ls1, rt)"
    by (metis prod_cases3)
  from runtime_initialize_lease [OF i] have
    o: "rt_owner rt = owner" "ls1 = leases_of (if h = None then Some owner else h)"
      "h \<noteq> None \<Longrightarrow> fail_error g = InstanceAlreadyActive"
    using assms(2) by (auto split: if_splits)
  show ?thesis
  proof (cases "fails g")
    case True
    with assms(1) i o show ?thesis using assms(2)
      by (auto simp: runtime_create_def destroy_runtime_def Let_def release_leases_of split: if_splits)
  next
    case False
    then have "h = None" using o(3) by (cases h) (auto simp: fails_def)
    with False assms(1) i o show ?thesis by (auto simp: runtime_create_def split: if_splits)
  qed
qed

lemma load_image_owner:
  "load_image xn m tables rt = (committed, f, rt') \<Longrightarrow> rt_owner rt' = rt_owner rt"
  by (auto simp: load_image_def set_xenia_def set_invalidation_def Let_def split: prod.splits if_splits)

lemma load_keeps_owner:
  "load_module xn resolve m bindings rt = Some (f, rt') \<Longrightarrow> rt_owner rt' = rt_owner rt"
  by (auto simp: load_module_def drop_reservation_def set_xenia_def Let_def dest!: load_image_owner
    split: if_splits option.splits sum.splits prod.splits)

lemma create_session_lease:
  assumes "create_offscreen con owner cfg (leases_of h) x = Some (Inr (f, ls, created, x'))" "h \<noteq> Some owner"
  shows "case created of
      None \<Rightarrow> fails f \<and> ls = leases_of h
    | Some s \<Rightarrow> h = None \<and> ls = leases_of (Some owner) \<and> ses_owner s = owner"
proof -
  from assms(1) obtain f1 ls1 s x1 where
    i: "session_initialize con False (leases_of h) (new_session owner cfg) x = Some (f1, ls1, s, x1)"
    and r: "(if fails f1
        then (case destroy_session con ls1 s x1 of
            Inl status \<Rightarrow> Some (Inl status)
          | Inr (ls, x) \<Rightarrow> Some (Inr (f1, ls, None, x)))
        else Some (Inr (no_failure, ls1, Some s, x1))) = Some (Inr (f, ls, created, x'))"
    unfolding create_offscreen_def bind_eq_Some_conv by fastforce
  note out = initialized [OF i assms(2)]
  show ?thesis
  proof (cases "fails f1")
    case True
    from out have "\<exists>y. destroy_session con ls1 s x1 = Inr (release_lease owner ls1, y)"
      by (simp add: destroy_session_def Let_def)
    with r True have "created = None" "f = f1" "ls = release_lease owner ls1" by auto
    with out True assms(2) show ?thesis by (auto simp: release_leases_of split: if_splits)
  next
    case False
    with r have "created = Some s" "ls = ls1" by simp_all
    with out False show ?thesis by simp
  qed
qed

section \<open>One owner\<close>

text \<open>The lease's holder is the only live owner.\<close>

definition owners_ok :: "('h, 'c, 'w, 'x, 'd, 'y, 'r, 'v) process \<Rightarrow> nat option \<Rightarrow> bool" where
  "owners_ok p h \<longleftrightarrow> prc_leases p = leases_of h
     \<and> (\<forall>i. owner_live p i \<longleftrightarrow> h = Some i)
     \<and> (\<forall>i s. prc_sessions p i = Some s \<longrightarrow> prc_runtimes p i = None)
     \<and> (\<forall>i s. prc_sessions p i = Some s \<longrightarrow> ses_owner s = i)
     \<and> (\<forall>i rt. prc_runtimes p i = Some rt \<longrightarrow> rt_owner rt = i)"

lemma owners_ok_step:
  assumes ok: "owners_ok p h" and laws: "launch_laws con suspends title" and step: "process_step con xn p p'"
  shows "\<exists>h'. owners_ok p' h'"
  using step
proof (cases rule: process_step.cases)
  case (Session_Created i cfg x f ls s x')
  with ok have "h \<noteq> Some i" "prc_leases p = leases_of h" by (auto simp: owners_ok_def)
  from create_session_lease [OF _ this(1), of con cfg x] Session_Created this(2)
  have new: "h = None" "ls = leases_of (Some i)" "ses_owner s = i" by fastforce+
  with ok Session_Created(1) have "owners_ok p' (Some i)" by (auto simp: owners_ok_def owner_live_def)
  then show ?thesis ..
next
  case (Session_Refused i cfg x f ls x')
  with ok have "h \<noteq> Some i" "prc_leases p = leases_of h" by (auto simp: owners_ok_def)
  from create_session_lease [OF _ this(1), of con cfg x] Session_Refused this(2) have "ls = leases_of h" by fastforce
  with ok Session_Refused(1) have "owners_ok p' h" by (simp add: owners_ok_def owner_live_def)
  then show ?thesis ..
next
  case (Session_Launched i s x f s' x')
  from launch_keeps [OF laws Session_Launched(3,4)] ok Session_Launched(1,2)
  have "owners_ok p' h" by (auto simp: owners_ok_def owner_live_def)
  then show ?thesis ..
next
  case (Session_Destroyed i s x ls x')
  with ok have "h = Some i" "ls = leases_of None" "prc_runtimes p i = None"
    by (auto simp: owners_ok_def owner_live_def destroy_session_def release_leases_of Let_def split: if_splits)
  with ok Session_Destroyed(1) have "owners_ok p' None" by (auto simp: owners_ok_def owner_live_def)
  then show ?thesis ..
next
  case (Runtime_Created i y f ls rt)
  with ok have "h \<noteq> Some i" "prc_leases p = leases_of h" by (auto simp: owners_ok_def)
  from runtime_create_lease [OF _ this(1)] Runtime_Created(3) this(2)
  have new: "h = None" "ls = leases_of (Some i)" "rt_owner rt = i" by fastforce+
  with ok Runtime_Created(1) have "owners_ok p' (Some i)" by (auto simp: owners_ok_def owner_live_def)
  then show ?thesis ..
next
  case (Runtime_Refused i y f ls y')
  with ok have "h \<noteq> Some i" "prc_leases p = leases_of h" by (auto simp: owners_ok_def)
  from runtime_create_lease [OF _ this(1)] Runtime_Refused(3) this(2) have "ls = leases_of h" by fastforce
  with ok Runtime_Refused(1) have "owners_ok p' h" by (simp add: owners_ok_def owner_live_def)
  then show ?thesis ..
next
  case (Runtime_Loaded i rt resolve m bindings f rt')
  from load_keeps_owner [OF Runtime_Loaded(3)] ok Runtime_Loaded(1,2)
  have "owners_ok p' h" by (auto simp: owners_ok_def owner_live_def)
  then show ?thesis ..
next
  case (Runtime_Destroyed i rt ls y')
  with ok have "h = Some i" "ls = leases_of None" "prc_sessions p i = None"
    by (auto simp: owners_ok_def owner_live_def destroy_runtime_def release_leases_of Let_def)
  with ok Runtime_Destroyed(1) have "owners_ok p' None" by (auto simp: owners_ok_def owner_live_def)
  then show ?thesis ..
qed

lemma reachable_owners_ok:
  assumes "process_reachable con xn p" "launch_laws con suspends title"
  shows "\<exists>h. owners_ok p h"
  using assms(1)
proof (induction rule: process_reachable.induct)
  case Begin
  have "owners_ok new_process None"
    by (simp add: owners_ok_def new_process_def owner_live_def no_leases_eq)
  then show ?case ..
next
  case (Continue p p')
  then show ?case using owners_ok_step [OF _ assms(2)] by blast
qed

end
