(* ===== verification/Spec2Isabelle.thy ===== *)
theory Spec2Isabelle imports Xex_Document Runtime_Lifecycle Xam_Input Guest_Virtual_Memory
  System_Window Desktop_Capture Process_Owners begin

text \<open>
  A verification development for x360port, the host library that loads and runs Xbox 360 titles on top
  of Xenia. The title's adapter inspects an executable, seals a module contract from it, and hands the
  module with its import bindings and native overrides to one of two owners of the emulator: the
  isolated runtime (\<open>RuntimeContext\<close>), which loads one image and makes bounded calls into it, or the
  full system (\<open>SystemSession\<close>), which composes the whole console and launches the title.

  \<^bold>\<open>How the model reads.\<close> Paths are relative to the repository; \<open>src/\<close> is its source directory. A
  machine integer is a word of its width, a \<open>size_t\<close> a number, a span a list of bytes with checked
  accesses. An access outside a span, a call of a null pointer or another undefined behaviour is \<open>None\<close>,
  so a theorem that an operation is never \<open>None\<close> says that it cannot happen. A refusal is a value
  (\<open>runtime_failure\<close>, \<open>validation_result\<close> or the left side of a sum) with the code's message. Whatever is
  not in this repository (Xenia, GTK, SDL, the file system, the title's own handlers) is a record of
  functions over an opaque state; what the code relies on is a named hypothesis, and a small concrete
  instance (\<open>toy_memory\<close>, \<open>toy_console\<close>, ...) shows that it can hold.

  \<^bold>\<open>Shared.\<close>
  \<^item> \<open>Prelude\<close>: machine types, checked byte accesses, hint collections.
  \<^item> \<open>Guest_Endian\<close>: \<open>src/guest_endian.hpp\<close>, \<open>include/x360port/guest_endian.hpp\<close>; every decoder undoes
    its encoder.
  \<^item> \<open>Ordered_Map\<close>: the \<open>std::map\<close> of the guest allocations and of the override table.
  \<^item> \<open>Runtime_Failure\<close>: \<open>include/x360port/runtime_failure.hpp\<close>, \<open>src/runtime_errors.cpp\<close>, the counters.

  \<^bold>\<open>From an executable to a sealed module.\<close>
  \<^item> \<open>Module_Contract\<close>, \<open>Digest\<close>, \<open>Module_Validation\<close>: \<open>include/x360port/module_contract.hpp\<close>,
    \<open>src/digest.cpp\<close>, \<open>src/module_validation.cpp\<close>. The streaming digest is SHA-256 as the standard
    defines it, a manifest digest seals its manifest, and a module is accepted exactly when it is well
    formed.
  \<^item> \<open>Pe_Image\<close>: \<open>src/pe_image.cpp\<close>. The parser never reads outside its input and what it returns
    satisfies the whole layout contract.
  \<^item> \<open>Xex_Imports\<close>, \<open>Xex_Helpers\<close>, \<open>Xex_Inspect\<close>, \<open>Xex_Document\<close>: \<open>src/xex_*.cpp\<close> and
    \<open>tools/xex_inspect.cpp\<close>. The import-name table parses back, the helper scan finds every match, the
    inspector stays inside the file and the loaded image; the JSON strings of the tool read back.

  \<^bold>\<open>The runtime.\<close>
  \<^item> \<open>Xenia_Memory\<close>, \<open>Guest_Memory\<close>: \<open>src/guest_memory.cpp\<close> over Xenia's heaps; in every reachable state
    the tracked allocations are live and disjoint, writes are read back, a release ends all access. The
    locale \<open>guest_accessor\<close> is the contract of both pairs of accessors.
  \<^item> \<open>Guest_Import\<close>, \<open>Runtime_Imports\<close>, \<open>Import_Claims\<close>: \<open>src/runtime_imports.cpp\<close>,
    \<open>src/import_claims.cpp\<close>, \<open>src/export_names.cpp\<close>: the tables find exactly the manifest's exports, an
    attached image holds every thunk and variable, claims are resolved all or none, and every claimed
    import gets its own claim's handler and context.
  \<^item> \<open>Guest_Execution\<close>: \<open>src/guest_execution.cpp\<close>, its budget and frame, \<open>src/guest_fault_guard.cpp\<close>; the
    first report of a bounded call decides its result, and a call restores what it saved.
  \<^item> \<open>Executable_Invalidation\<close>: \<open>src/executable_invalidation.cpp\<close>. The packed pending word is modelled with
    writers, drains, disarming and arming that interleave (\<open>race_step\<close>): of a write whose exchange succeeded
    every byte in the watched code is pending or notified until the next disarm. A write that starts at
    the last byte of the address space is the exception; the drain takes it for none
    (\<open>last_byte_write_is_lost\<close>). A drain removes exactly the functions it touches.
  \<^item> \<open>Override_Dispatch\<close>, \<open>Device_Dispatch\<close>, \<open>Instance_Lease\<close>, \<open>Guest_Thread\<close>,
    \<open>Interpreter_Fallback\<close>: the files of those names. The locale \<open>call_redirection\<close> gives what a lookup
    finds after any history of installations.
  \<^item> \<open>Xam_Input\<close>, \<open>Guest_Virtual_Memory\<close>: \<open>src/xam_input.cpp\<close>, \<open>src/guest_virtual_memory.cpp\<close>, the exports
    the library implements itself: what the guest decodes is what the host answered, and success is
    reported only for what was done.
  \<^item> \<open>Runtime\<close>, \<open>Loaded_Image\<close>, \<open>Runtime_Lifecycle\<close>: \<open>src/runtime.cpp\<close>, which composes the parts. A
    successful load leaves the image's bytes and its imports' words in guest memory; \<open>Sample_Image\<close> is a
    sealed module that shows it. The step relation
    \<open>runtime_reachable\<close> has one rule per public operation; its invariant ties the code range, the image
    and the override table together, failed creations and loads give back what they took, and a call
    outside the validated code runs nothing.

  \<^bold>\<open>The full system.\<close>
  \<^item> \<open>Frame_Intervals\<close>: \<open>src/system/frame_intervals.cpp\<close> with its floating-point rank.
  \<^item> \<open>Pad_Merge\<close>: \<open>src/system/pad_merge.cpp\<close>, \<open>src/system/system_input_driver.cpp\<close>; the packet number
    follows the merged state.
  \<^item> \<open>Desktop_Input\<close>: \<open>src/desktop_input.cpp\<close> refines an abstract state of held keys, held buttons and
    unreported travel (\<open>desktop_view\<close>). A writer is its effect and the atomic accesses it makes; a snapshot
    interleaved with these conserves travel, but need not show one moment of the history.
  \<^item> \<open>Desktop_Capture\<close>: \<open>src/system/desktop_capture_gtk.cpp\<close>; between handlers the capture and the
    desktop state are in step, whatever the guest polls while one runs (\<open>capture_run\<close>), and the warps
    report no travel of the pointer, whose place on the screen is modelled apart.
  \<^item> \<open>System_Call_Context\<close>: \<open>src/system/system_call_context.cpp\<close>; an override that only calls the original is
    transparent.
  \<^item> \<open>System_Session\<close>: \<open>src/system/system_session.cpp\<close>; a session exists only for a well-formed configuration
    and a free lease, and a refused title never runs.
  \<^item> \<open>System_Window\<close>: \<open>src/system/system_window_gtk.cpp\<close>; the two threads, the player and the title are the
    steps of \<open>windowed_step\<close>. Every history is finite, the function returns only failures, and once the window
    opened it has removed the capture from it by then. Closing the window while the console is composed
    deadlocks unless Xenia answers calls into the UI thread after the loop, which is a parameter
    (\<open>close_before_presenter_deadlocks\<close>). What the caller's \<open>on_launched\<close> does is its own.

  \<^bold>\<open>Together.\<close> \<open>Process_Owners\<close>: runtimes and full systems of one process, created, used and destroyed in
  any order over the shared lease; the property below it all is \<open>one_owner_per_process\<close>.

  \<^bold>\<open>Loops and bounds.\<close> Every loop is recursion over the list or range the code walks, so it terminates
  by construction; no definition uses fuel. The retry loop of the pending word is a step relation, whose
  failed exchanges are steps. A guest call may end the process (\<open>None\<close>); how long translated code runs
  is Xenia's budget, a parameter.

  \<^bold>\<open>Not modelled, and why.\<close> \<open>src/xenia_backend.cpp\<close> only constructs Xenia's backend. GTK's and
  Xenia's own window code, the log lines and the process's log scope are calls into other libraries. Memory exhaustion of the host, which C++ reports by exceptions, is left out everywhere. The
  relaxed memory order is modelled, for the pending write and the desktop state, as interleaving of single
  atomic accesses in program order (\<open>race_step\<close>, \<open>perform\<close>, \<open>torn_snapshot\<close>, \<open>capture_run\<close>);
  reorderings that only relaxed atomics of different variables allow are not. The tests, the build and the Python tools are
  not part of the library.
\<close>

text \<open>C40: in every history of a process at most one runtime or full system is live. While one is, creating
  another runtime fails with \<open>InstanceAlreadyActive\<close> and creating another session fails; the lease can be
  acquired exactly when no other owner is live, so it is free again once the owner is destroyed.\<close>

theorem one_owner_per_process:
  fixes p :: "('h, 'c, 'w, 'x, 'd, 'y, 'r, 'v) process"
  assumes "process_reachable con xn p" "launch_laws con suspends title"
  shows "(\<forall>i j. owner_live p i \<and> owner_live p j \<longrightarrow> i = j)
    \<and> (\<forall>i k y. owner_live p i \<and> i \<noteq> k \<longrightarrow>
        fail_error (fst (runtime_create xn k (prc_leases p) y
          :: runtime_failure \<times> leases \<times> (('y, 'd, 'r, 'v) runtime + 'y))) = InstanceAlreadyActive)
    \<and> (\<forall>i k cfg x f ls x' (created :: ('h, 'c, 'w failure_sink, 'x) session option).
        owner_live p i \<and> i \<noteq> k
        \<and> create_offscreen con k cfg (prc_leases p) x = Some (Inr (f, ls, created, x'))
          \<longrightarrow> created = None \<and> fails f)
    \<and> (\<forall>k. fst (acquire_lease k (prc_leases p)) \<longleftrightarrow> (\<forall>i. owner_live p i \<longrightarrow> i = k))"
proof -
  obtain h where ok: "owners_ok p h" using reachable_owners_ok [OF assms] by blast
  then have leases: "prc_leases p = leases_of h" and live: "owner_live p i \<longleftrightarrow> h = Some i" for i
    by (simp_all add: owners_ok_def)
  have runtime: "fail_error (fst (runtime_create xn k (leases_of (Some i)) y
      :: runtime_failure \<times> leases \<times> (('y, 'd, 'r, 'v) runtime + 'y))) = InstanceAlreadyActive"
    if "i \<noteq> k" for i k y
  proof -
    obtain f ls and created :: "('y, 'd, 'r, 'v) runtime + 'y" where
      "runtime_create xn k (leases_of (Some i)) y = (f, ls, created)" by (metis prod_cases3)
    with runtime_create_lease [OF this] that show ?thesis by simp
  qed
  have session: "created = None \<and> fails f"
    if "create_offscreen con k cfg (leases_of (Some i)) x = Some (Inr (f, ls, created, x'))" "i \<noteq> k"
    for i k cfg x f ls x' and created :: "('h, 'c, 'w failure_sink, 'x) session option"
    using create_session_lease [OF that(1)] that(2) by (cases created) simp_all
  have lease: "fst (acquire_lease k (leases_of h)) \<longleftrightarrow> (\<forall>i. h = Some i \<longrightarrow> i = k)" for k
    by (cases h) (auto simp: acquire_leases_of)
  show ?thesis unfolding live leases using runtime session lease by auto
qed

text \<open>With the runtime live, a session is refused although its configuration is well formed.\<close>

theorem one_owner_per_process_witness:
  "fail_error (fst (runtime_create (toy_xenia True) 2
      (leases_of (Some 1)) toy_start :: runtime_failure \<times> leases \<times> ((toy_state, unit, unit, unit) runtime + toy_state)))
    = InstanceAlreadyActive"
proof -
  obtain f ls where c: "runtime_create (toy_xenia True) 1 (leases_of None) toy_start = (f, ls, Inl toy_runtime)"
    using toy_runtime_created by blast
  let ?p = "(new_process :: (unit, unit, unit, toy_console_state, unit, toy_state, unit, unit) process)
    \<lparr>prc_leases := ls, prc_runtimes := (\<lambda>_. None)(1 \<mapsto> toy_runtime)\<rparr>"
  have new: "prc_leases new_process = leases_of None" "prc_runtimes new_process = (\<lambda>_. None)"
    by (simp_all add: new_process_def no_leases_eq)
  have "process_step toy_console (toy_xenia True) new_process ?p"
    using process_step.Runtime_Created [of new_process 1 "toy_xenia True" toy_start f ls toy_runtime toy_console] c
    by (simp add: new owner_live_def new_process_def no_leases_eq)
  then have reach: "process_reachable toy_console (toy_xenia True) ?p"
    by (rule process_reachable.Continue [OF process_reachable.Begin])
  have ls: "prc_leases ?p = leases_of (Some 1)" using runtime_create_lease [OF c] by simp
  have live: "owner_live ?p 1" by (simp add: owner_live_def)
  have "(1 :: nat) \<noteq> 2" by simp
  with one_owner_per_process [OF reach toy_console_laws(2), THEN conjunct2, THEN conjunct1] live
  have "fail_error (fst (runtime_create (toy_xenia True) 2 (prc_leases ?p) toy_start
      :: runtime_failure \<times> leases \<times> ((toy_state, unit, unit, unit) runtime + toy_state))) = InstanceAlreadyActive"
    by blast
  then show ?thesis unfolding ls .
qed

end
